(* ===== verification/Prelude.thy ===== *)
theory Prelude
  imports Complex_Main "HOL-Library.Finite_Map" "HOL-Library.Word" "HOL-Library.List_Lexorder"
    "HOL-Library.Char_ord" "HOL-Library.Sublist" "HOL-Library.Multiset"
begin

text \<open>
  Shared vocabulary of the development: machine integers, clock readings and durations, Go maps
  and their iteration, and the scan for a least entry that four components use to make room in a
  bounded table. Nothing here is specific to one component.
\<close>

section \<open>Machine integers, time and floating point\<close>

type_synonym u8 = "8 word"
type_synonym u16 = "16 word"
type_synonym u32 = "32 word"
type_synonym u64 = "64 word"

text \<open>
  A \<^verbatim>\<open>time.Time\<close> is its distance in nanoseconds from a fixed instant, a
  \<^verbatim>\<open>time.Duration\<close> a number of nanoseconds. A \<open>clock\<close> lists the successive results of
  \<^verbatim>\<open>time.Now()\<close> during one operation: reading \<open>i\<close> is \<open>clk i\<close>.
\<close>

type_synonym duration = int
type_synonym time = int
type_synonym clock = "nat \<Rightarrow> time"

abbreviation (input) second :: duration where "second \<equiv> 1000000000"
abbreviation (input) millisecond :: duration where "millisecond \<equiv> 1000000"
abbreviation (input) microsecond :: duration where "microsecond \<equiv> 1000"
abbreviation (input) minute :: duration where "minute \<equiv> 60 * second"
abbreviation (input) hour :: duration where "hour \<equiv> 3600 * second"

text \<open>
  A \<^verbatim>\<open>float64\<close> is an exact rational here (rounding is not modelled); the conversion of a float
  to an integer type truncates towards zero.
\<close>

definition go_trunc :: "rat \<Rightarrow> int" where
  "go_trunc x = (if 0 \<le> x then \<lfloor>x\<rfloor> else \<lceil>x\<rceil>)"

text \<open>Integer division of Go: truncated, unlike \<open>div\<close>.\<close>

definition go_div :: "int \<Rightarrow> int \<Rightarrow> int" where
  "go_div a b = sgn a * sgn b * (\<bar>a\<bar> div \<bar>b\<bar>)"

definition go_mod :: "int \<Rightarrow> int \<Rightarrow> int" where
  "go_mod a b = a - b * go_div a b"

lemma go_div_nonneg: "0 \<le> a \<Longrightarrow> 0 < b \<Longrightarrow> go_div a b = a div b"
  by (cases "a = 0") (simp_all add: go_div_def)

lemma go_mod_nonneg: "0 \<le> a \<Longrightarrow> 0 < b \<Longrightarrow> go_mod a b = a mod b"
  by (simp add: go_mod_def go_div_nonneg minus_mult_div_eq_mod)

lemma go_mod_int: "x = int a \<Longrightarrow> y = int b \<Longrightarrow> 0 < b \<Longrightarrow> go_mod x y = int (a mod b)"
  by (simp add: go_mod_nonneg zmod_int)

text \<open>The seconds in a non-negative duration, as the \<^verbatim>\<open>uint32\<close> the code stores.\<close>

definition whole_seconds :: "duration \<Rightarrow> u32" where
  "whole_seconds d = word_of_int (d div second)"

section \<open>Go maps\<close>

text \<open>
  A Go map is a finite map. \<^verbatim>\<open>len\<close> is the number of keys. The order in which \<^verbatim>\<open>range\<close> visits
  the keys is unspecified, so every operation that ranges over a map takes an enumeration \<open>ord\<close>
  of finite key sets, and every theorem about it holds for all enumerations.
\<close>

named_theorems go_map \<open>length of an updated map, iteration orders\<close>

abbreviation mlen :: "('k, 'v) fmap \<Rightarrow> nat" where "mlen m \<equiv> fcard (fmdom m)"

definition enumerates :: "('k fset \<Rightarrow> 'k list) \<Rightarrow> bool" where
  "enumerates ord \<longleftrightarrow> (\<forall>F. distinct (ord F) \<and> set (ord F) = fset F)"

lemma enumerates_sorted [simp]: "enumerates sorted_list_of_fset"
  by (simp add: enumerates_def) (simp add: sorted_list_of_fset.rep_eq)

lemma enumerates_set [go_map]: "enumerates ord \<Longrightarrow> set (ord F) = fset F"
  by (simp add: enumerates_def)

lemma enumerates_distinct [go_map]: "enumerates ord \<Longrightarrow> distinct (ord F)"
  by (simp add: enumerates_def)

lemma enumerates_length [go_map]: "enumerates ord \<Longrightarrow> length (ord F) = fcard F"
  by (metis distinct_card enumerates_distinct enumerates_set fcard.rep_eq)

lemma mlen_fmupd [go_map]:
  "mlen (fmupd k v m) = (if k |\<in>| fmdom m then mlen m else Suc (mlen m))"
  by (simp add: fcard_finsert_if)

lemma mlen_fmupd_le: "mlen (fmupd k v m) \<le> Suc (mlen m)"
  by (simp add: fcard_finsert_if)

lemma mlen_fmdrop [go_map]:
  "mlen (fmdrop k m) = (if k |\<in>| fmdom m then mlen m - 1 else mlen m)"
  by (simp add: fcard_fminus_fsingleton_if)

lemma mlen_fmdrop_le [intro]: "mlen (fmdrop k m) \<le> mlen m"
  by (simp add: fcard_fminus_fsingleton_if)

lemma mlen_pos: "fmlookup m k = Some v \<Longrightarrow> 0 < mlen m"
  by (metis fcard_0_eq fmdomI fempty_iff gr0I)

lemma mlen_zero: "mlen m = 0 \<Longrightarrow> fmlookup m k = None"
  by (metis mlen_pos less_irrefl option.exhaust)

lemma mlen_posE:
  assumes "0 < mlen m"
  obtains k v where "fmlookup m k = Some v"
  using assms by (metis equalsffemptyI fcard_fempty fmlookup_dom_iff less_irrefl)

lemma fmfilter_mlen_le: "mlen (fmfilter P m) \<le> mlen m"
  by (rule fcard_mono) auto

section \<open>The least entry of a map\<close>

text \<open>
  \<^verbatim>\<open>for k, v := range m { if first || f(v) < best { key = k; best = f(v); first = false } }\<close>
  keeps the first key, in the iteration order, whose measure is least; \<open>None\<close> is \<^verbatim>\<open>first\<close>.
\<close>

fun scan_min :: "('v \<Rightarrow> 'm::linorder) \<Rightarrow> ('k, 'v) fmap \<Rightarrow> 'k list \<Rightarrow> ('k \<times> 'm) option
    \<Rightarrow> ('k \<times> 'm) option" where
  "scan_min f m [] best = best"
| "scan_min f m (k # ks) best =
     (case fmlookup m k of
        None \<Rightarrow> scan_min f m ks best
      | Some v \<Rightarrow>
          scan_min f m ks
            (case best of
               None \<Rightarrow> Some (k, f v)
             | Some (_, b) \<Rightarrow> if f v < b then Some (k, f v) else best))"

text \<open>The eviction that follows the scan: \<^verbatim>\<open>if key != "" { delete(m, key) }\<close>.\<close>

definition evict_min :: "('v \<Rightarrow> 'm::linorder) \<Rightarrow> (string fset \<Rightarrow> string list)
    \<Rightarrow> (string, 'v) fmap \<Rightarrow> (string, 'v) fmap" where
  "evict_min f ord m =
     (case scan_min f m (ord (fmdom m)) None of
        None \<Rightarrow> m
      | Some (k, _) \<Rightarrow> if k \<noteq> [] then fmdrop k m else m)"

lemma scan_min_sound:
  "scan_min f m ks best = Some (k, b) \<Longrightarrow>
     best = Some (k, b) \<or> (k \<in> set ks \<and> (\<exists>v. fmlookup m k = Some v \<and> b = f v))"
  by (induction f m ks best rule: scan_min.induct) (auto split: option.splits if_splits)

lemma scan_min_some:
  "best \<noteq> None \<or> (\<exists>k \<in> set ks. fmlookup m k \<noteq> None) \<Longrightarrow> scan_min f m ks best \<noteq> None"
  by (induction f m ks best rule: scan_min.induct) (auto split: option.splits if_splits)

lemma scan_min_least:
  "scan_min f m ks best = Some (k, b) \<Longrightarrow>
     (\<forall>k0 b0. best = Some (k0, b0) \<longrightarrow> b \<le> b0) \<and>
     (\<forall>k' v'. k' \<in> set ks \<longrightarrow> fmlookup m k' = Some v' \<longrightarrow> b \<le> f v')"
proof (induction f m ks best rule: scan_min.induct)
  case (1 f m best)
  then show ?case by simp
next
  case (2 f m k' ks best)
  then show ?case
    by (cases "fmlookup m k'"; cases best) (force split: if_splits)+
qed

lemma evict_min_cases:
  assumes ord: "enumerates ord" and ne: "fmlookup m k0 = Some v0" and key: "[] |\<notin>| fmdom m"
  obtains k v where "fmlookup m k = Some v" and "evict_min f ord m = fmdrop k m"
    and "\<And>k' v'. fmlookup m k' = Some v' \<Longrightarrow> f v \<le> f v'"
proof -
  have mem: "k' \<in> set (ord (fmdom m)) \<longleftrightarrow> fmlookup m k' \<noteq> None" for k'
    using ord by (auto simp: enumerates_set fmlookup_dom_iff)
  then have "scan_min f m (ord (fmdom m)) None \<noteq> None"
    using ne by (intro scan_min_some) auto
  then obtain k b where s: "scan_min f m (ord (fmdom m)) None = Some (k, b)" by auto
  from scan_min_sound [OF s] obtain v where v: "fmlookup m k = Some v" "b = f v" by auto
  have "k \<noteq> []" using v(1) key by (auto intro: fmdomI)
  with s have e: "evict_min f ord m = fmdrop k m" by (simp add: evict_min_def)
  have "f v \<le> f v'" if "fmlookup m k' = Some v'" for k' v'
    using scan_min_least [OF s] that mem v(2) by blast
  with v(1) e show thesis by (rule that)
qed

lemma evict_min_mlen:
  assumes "enumerates ord" and "[] |\<notin>| fmdom m"
  shows "mlen (evict_min f ord m) = mlen m - 1"
proof (cases "fmdom m = {||}")
  case True
  then have "fmlookup m k = None" for k by (metis fmdom_notD fempty_iff)
  then have "scan_min f m ks None = None" for ks by (induction ks) auto
  with True show ?thesis by (simp add: evict_min_def fcard_fempty)
next
  case False
  then obtain k0 v0 where "fmlookup m k0 = Some v0" by (metis equalsffemptyI fmlookup_dom_iff)
  from evict_min_cases [OF assms(1) this assms(2)]
  obtain k v where "fmlookup m k = Some v" and e: "evict_min f ord m = fmdrop k m" by metis
  then have "k |\<in>| fmdom m" by (auto intro: fmdomI)
  then show ?thesis unfolding e by (simp only: mlen_fmdrop if_True)
qed

lemma evict_min_lookup: "fmlookup (evict_min f ord m) k = Some v \<Longrightarrow> fmlookup m k = Some v"
  by (auto simp: evict_min_def split: option.splits prod.splits if_splits)

lemma evict_min_dom: "fmdom (evict_min f ord m) |\<subseteq>| fmdom m"
  by (auto simp: evict_min_def split: option.splits)

lemma evict_min_lookup_mono: "fmlookup m k = None \<Longrightarrow> fmlookup (evict_min f ord m) k = None"
  by (metis evict_min_lookup option.exhaust option.simps(3))

section \<open>Searching and sorting lists\<close>

lemma find_SomeD: "find P xs = Some x \<Longrightarrow> P x \<and> x \<in> set xs"
  by (induction xs) (auto split: if_splits)

lemma take_sort_key_least:
  assumes "x \<in> set (take n (sort_key k xs))" and "y \<in> set xs" and "y \<notin> set (take n (sort_key k xs))"
  shows "k x \<le> k y"
proof -
  let ?ys = "sort_key k xs"
  have "y \<in> set ?ys" using assms(2) by simp
  then have "y \<in> set (drop n ?ys)"
    using assms(3) by (metis Un_iff append_take_drop_id set_append)
  moreover have "sorted (map k (take n ?ys @ drop n ?ys))" by simp
  ultimately show ?thesis
    using assms(1) by (simp only: map_append sorted_append) auto
qed

lemma sorted_take_sort_key: "sorted (map k (take n (sort_key k xs)))"
  by (metis sorted_sort_key sorted_wrt_take take_map)

section \<open>Interface: a table with a bound\<close>

text \<open>
  Four components keep a table keyed by names taken from the network and make room in it before
  or after an insertion. What their callers rely on is that no sequence of requests makes the
  table larger than its bound. \<open>good\<close> is the provider's own invariant, \<open>ok\<close> what a request has
  to satisfy, \<open>cap\<close> the bound.
\<close>

locale bounded_table =
  fixes good :: "'s \<Rightarrow> bool"
    and len :: "'s \<Rightarrow> nat"
    and cap :: "'s \<Rightarrow> nat"
    and ok :: "'x \<Rightarrow> bool"
    and touch :: "'x \<Rightarrow> 's \<Rightarrow> 's"
  assumes touch_good: "good s \<Longrightarrow> ok x \<Longrightarrow> good (touch x s)"
    and touch_len: "good s \<Longrightarrow> ok x \<Longrightarrow> len s \<le> cap s \<Longrightarrow> len (touch x s) \<le> cap s"
    and touch_cap: "cap (touch x s) = cap s"
begin

lemma run_bounded:
  assumes "good s" and "len s \<le> cap s" and "\<forall>x \<in> set xs. ok x"
  shows "good (fold touch xs s) \<and> len (fold touch xs s) \<le> cap s"
  using assms
proof (induction xs arbitrary: s)
  case Nil
  then show ?case by simp
next
  case (Cons x xs)
  then have "good (touch x s)" and "len (touch x s) \<le> cap (touch x s)"
    by (simp_all add: touch_good touch_len touch_cap)
  with Cons.IH [of "touch x s"] Cons.prems(3) show ?case by (simp add: touch_cap)
qed

end

end
