(* ===== verification/GoStrings.thy ===== *)
theory GoStrings
  imports Prelude
begin

text \<open>
  The functions of Go's \<^verbatim>\<open>strings\<close>, \<^verbatim>\<open>bufio\<close> and \<^verbatim>\<open>strconv\<close> packages the program calls, on byte
  strings. Case mapping and white space are those of ASCII: the program applies them to domain
  names, record types and hosts files.
\<close>

section \<open>Case and white space\<close>

definition lower_char :: "char \<Rightarrow> char" where
  "lower_char c = (if CHR ''A'' \<le> c \<and> c \<le> CHR ''Z'' then char_of ((of_char c :: nat) + 32) else c)"

definition upper_char :: "char \<Rightarrow> char" where
  "upper_char c = (if CHR ''a'' \<le> c \<and> c \<le> CHR ''z'' then char_of ((of_char c :: nat) - 32) else c)"

definition ToLower :: "string \<Rightarrow> string" where "ToLower = map lower_char"
definition ToUpper :: "string \<Rightarrow> string" where "ToUpper = map upper_char"

text \<open>Tab, line feed, vertical tab, form feed, carriage return and blank.\<close>

definition is_space :: "char \<Rightarrow> bool" where
  "is_space c \<longleftrightarrow> (of_char c :: nat) \<in> {9, 10, 11, 12, 13, 32}"

definition TrimSpace :: "string \<Rightarrow> string" where
  "TrimSpace s = rev (dropWhile is_space (rev (dropWhile is_space s)))"

fun Fields_from :: "string \<Rightarrow> string \<Rightarrow> string list" where
  "Fields_from acc [] = (if acc = [] then [] else [rev acc])"
| "Fields_from acc (c # cs) =
     (if is_space c then (if acc = [] then [] else [rev acc]) @ Fields_from [] cs
      else Fields_from (c # acc) cs)"

definition Fields :: "string \<Rightarrow> string list" where "Fields = Fields_from []"

section \<open>Prefixes, suffixes, splitting and joining\<close>

definition HasPrefix :: "string \<Rightarrow> string \<Rightarrow> bool" where "HasPrefix s p \<longleftrightarrow> prefix p s"
definition HasSuffix :: "string \<Rightarrow> string \<Rightarrow> bool" where "HasSuffix s p \<longleftrightarrow> suffix p s"

definition TrimSuffix :: "string \<Rightarrow> string \<Rightarrow> string" where
  "TrimSuffix s p = (if suffix p s then take (length s - length p) s else s)"

fun Split :: "string \<Rightarrow> char \<Rightarrow> string list" where
  "Split [] sep = [[]]"
| "Split (c # cs) sep =
     (if c = sep then [] # Split cs sep
      else (case Split cs sep of [] \<Rightarrow> [[c]] | p # ps \<Rightarrow> (c # p) # ps))"

fun Join :: "string list \<Rightarrow> string \<Rightarrow> string" where
  "Join [] sep = []"
| "Join [p] sep = p"
| "Join (p # q # ps) sep = p @ sep @ Join (q # ps) sep"

abbreviation dot :: string where "dot \<equiv> ''.''"

section \<open>Lines of a reader\<close>

text \<open>
  \<^verbatim>\<open>bufio.Scanner\<close> with its default split function: lines end at a line feed, one carriage return
  before it is dropped, a last line without line feed counts when it is not empty. The scanner's
  buffer holds 64 KiB: a line that fills it ends the scan, and \<^verbatim>\<open>Scan\<close> returns false for good.
\<close>

definition max_scan_token :: nat where "max_scan_token = 65536"

definition drop_cr :: "string \<Rightarrow> string" where
  "drop_cr l = (if l \<noteq> [] \<and> last l = CHR 0x0D then butlast l else l)"

text \<open>The lines a line feed ends, and what follows the last line feed.\<close>

fun raw_lines :: "string \<Rightarrow> string list \<times> string" where
  "raw_lines [] = ([], [])"
| "raw_lines (c # cs) =
     (let (ls, r) = raw_lines cs in
      if c = CHR 0x0A then ([] # ls, r)
      else (case ls of [] \<Rightarrow> ([], c # r) | l # ls' \<Rightarrow> ((c # l) # ls', r)))"

definition scan_lines :: "nat \<Rightarrow> string \<Rightarrow> string list" where
  "scan_lines limit s =
     (let (ls, r) = raw_lines s in
      map drop_cr (takeWhile (\<lambda>l. length l < limit) (ls @ (if r = [] then [] else [r]))))"

section \<open>Numbers\<close>

fun digits_of :: "nat \<Rightarrow> string" where
  "digits_of n = (if n < 10 then [char_of (48 + n)] else digits_of (n div 10) @ [char_of (48 + n mod 10)])"

declare digits_of.simps [simp del]

definition Itoa :: "int \<Rightarrow> string" where
  "Itoa i = (if i < 0 then CHR ''-'' # digits_of (nat (- i)) else digits_of (nat i))"

section \<open>Facts\<close>

lemma lower_char_idem [simp]: "lower_char (lower_char c) = lower_char c"
proof (cases "CHR ''A'' \<le> c \<and> c \<le> CHR ''Z''")
  case True
  then have b: "65 \<le> (of_char c :: nat)" "(of_char c :: nat) \<le> 90"
    by (auto simp: less_eq_char_def)
  then have "(of_char (char_of ((of_char c :: nat) + 32)) :: nat) = of_char c + 32"
    by simp
  with b have "\<not> char_of ((of_char c :: nat) + 32) \<le> CHR ''Z''"
    by (simp add: less_eq_char_def)
  with True show ?thesis by (simp add: lower_char_def)
next
  case False
  then show ?thesis by (auto simp add: lower_char_def)
qed

lemma ToLower_idem [simp]: "ToLower (ToLower s) = ToLower s"
  by (simp add: ToLower_def)

lemma ToLower_append [simp]: "ToLower (a @ b) = ToLower a @ ToLower b"
  by (simp add: ToLower_def)

lemma ToLower_dot [simp]: "ToLower dot = dot"
  by (simp add: ToLower_def lower_char_def less_eq_char_def)

lemma lower_char_dot [simp]: "lower_char c = CHR ''.'' \<longleftrightarrow> c = CHR ''.''"
proof (cases "CHR ''A'' \<le> c \<and> c \<le> CHR ''Z''")
  case True
  then have b: "65 \<le> (of_char c :: nat)" "(of_char c :: nat) \<le> 90"
    by (auto simp: less_eq_char_def)
  then have "(of_char (lower_char c) :: nat) = of_char c + 32" using True
    by (simp add: lower_char_def)
  moreover have "(of_char CHR ''.'' :: nat) = 46" by simp
  ultimately show ?thesis using b by auto
next
  case False
  then show ?thesis by (auto simp add: lower_char_def)
qed

lemma HasSuffix_dot_ToLower: "HasSuffix (ToLower s) dot \<longleftrightarrow> HasSuffix s dot"
  by (cases s rule: rev_cases)
    (simp_all add: HasSuffix_def ToLower_def eq_commute [of "CHR ''.''"])

lemma TrimSuffix_append [simp]: "TrimSuffix (s @ p) p = s"
  by (simp add: TrimSuffix_def suffix_def)

lemma Split_not_Nil [simp]: "Split s sep \<noteq> []"
  by (induction s) (auto split: list.splits)

lemma Split_append_sep: "Split (s @ sep # t) sep = Split s sep @ Split t sep"
  by (induction s) (auto split: list.splits)

lemma Join_Cons: "ps \<noteq> [] \<Longrightarrow> Join (p # ps) sep = p @ sep @ Join ps sep"
  by (cases ps) auto

lemma Join_Split: "Join (Split s sep) [sep] = s"
proof (induction s)
  case Nil
  then show ?case by simp
next
  case (Cons c s)
  show ?case
  proof (cases "c = sep")
    case True
    with Cons show ?thesis by (simp add: Join_Cons)
  next
    case False
    obtain p ps where "Split s sep = p # ps" by (meson Split_not_Nil list.exhaust)
    with Cons False show ?thesis by (cases ps) auto
  qed
qed

text \<open>The tails of a split, joined again, are the strings that follow a separator.\<close>

lemma Split_drop:
  "i < length (Split s sep) \<Longrightarrow> 0 < i \<Longrightarrow> suffix (sep # Join (drop i (Split s sep)) [sep]) s"
proof (induction s arbitrary: i)
  case Nil
  then show ?case by simp
next
  case (Cons c s)
  show ?case
  proof (cases "c = sep")
    case True
    show ?thesis
    proof (cases "i = 1")
      case True
      with \<open>c = sep\<close> show ?thesis by (simp add: Join_Split)
    next
      case False
      with Cons.prems \<open>c = sep\<close> Cons.IH [of "i - 1"]
      have "suffix (sep # Join (drop (i - 1) (Split s sep)) [sep]) s" by auto
      with \<open>c = sep\<close> Cons.prems(2) show ?thesis
        by (cases i) (auto simp: suffix_Cons)
    qed
  next
    case False
    obtain p ps where s: "Split s sep = p # ps" by (meson Split_not_Nil list.exhaust)
    with False Cons.prems Cons.IH [of i]
    have "suffix (sep # Join (drop i (p # ps)) [sep]) s" by auto
    with s False Cons.prems(2) show ?thesis by (cases i) (auto simp: suffix_Cons)
  qed
qed

lemma Split_suffix_ex:
  assumes "suffix (sep # q) s"
  shows "\<exists>i. 0 < i \<and> i < length (Split s sep) \<and> Join (drop i (Split s sep)) [sep] = q"
proof -
  from assms obtain p where s: "s = p @ sep # q" by (auto simp: suffix_def)
  have "Split s sep = Split p sep @ Split q sep" by (simp add: s Split_append_sep)
  then show ?thesis
    by (intro exI [of _ "length (Split p sep)"]) (simp add: Join_Split)
qed

lemma scan_lines_short: "\<forall>l \<in> set (scan_lines limit s). length l < limit"
proof -
  have "length (drop_cr l) \<le> length l" for l by (simp add: drop_cr_def)
  then show ?thesis
    by (auto simp: scan_lines_def Let_def split: prod.splits dest!: set_takeWhileD
        intro: le_less_trans)
qed

lemma Fields_from_nonempty: "f \<in> set (Fields_from acc s) \<Longrightarrow> f \<noteq> []"
  by (induction acc s rule: Fields_from.induct) (auto split: if_splits)

lemma Fields_nonempty: "f \<in> set (Fields s) \<Longrightarrow> f \<noteq> []"
  by (simp add: Fields_def Fields_from_nonempty)

lemma digits_of_not_Nil [simp]: "digits_of n \<noteq> []"
  by (subst digits_of.simps) simp

lemma Itoa_not_Nil [simp]: "Itoa i \<noteq> []"
  by (simp add: Itoa_def)

section \<open>Words and lines written and read back\<close>

lemma TrimSpace_id:
  assumes "s \<noteq> []" and "\<not> is_space (hd s)" and "\<not> is_space (last s)"
  shows "TrimSpace s = s"
proof -
  have "dropWhile is_space s = s" using assms by (cases s) auto
  moreover have "dropWhile is_space (rev s) = rev s" using assms
    by (cases "rev s") (auto simp: last_conv_nth hd_rev [symmetric])
  ultimately show ?thesis by (simp add: TrimSpace_def)
qed

lemma Fields_from_word:
  "\<forall>c \<in> set w. \<not> is_space c \<Longrightarrow> Fields_from acc (w @ cs) = Fields_from (rev w @ acc) cs"
  by (induction w arbitrary: acc) auto

lemma Fields_word: "w \<noteq> [] \<Longrightarrow> \<forall>c \<in> set w. \<not> is_space c \<Longrightarrow> Fields w = [w]"
  using Fields_from_word [of w "[]" "[]"] by (simp add: Fields_def)

lemma Fields_two:
  assumes "v \<noteq> []" "w \<noteq> []" "\<forall>c \<in> set (v @ w). \<not> is_space c" "is_space b"
  shows "Fields (v @ b # w) = [v, w]"
  using assms Fields_from_word [of v "[]" "b # w"] Fields_from_word [of w "[]" "[]"]
  by (simp add: Fields_def)

definition unlines :: "string list \<Rightarrow> string" where
  "unlines ls = concat (map (\<lambda>l. l @ [CHR 0x0A]) ls)"

lemma raw_lines_line:
  "CHR 0x0A \<notin> set l \<Longrightarrow> raw_lines (l @ CHR 0x0A # s) = (l # fst (raw_lines s), snd (raw_lines s))"
  by (induction l) (auto split: prod.splits simp: Let_def)

lemma raw_lines_unlines:
  "\<forall>l \<in> set ls. CHR 0x0A \<notin> set l \<Longrightarrow>
     raw_lines (unlines ls @ s) = (ls @ fst (raw_lines s), snd (raw_lines s))"
  by (induction ls) (simp_all add: unlines_def raw_lines_line)

lemma drop_cr_id: "CHR 0x0D \<notin> set l \<Longrightarrow> drop_cr l = l"
  unfolding drop_cr_def by (metis last_in_set)

lemma scan_lines_unlines:
  assumes "\<forall>l \<in> set ls. CHR 0x0A \<notin> set l \<and> CHR 0x0D \<notin> set l \<and> length l < limit"
  shows "scan_lines limit (unlines ls) = ls"
proof -
  have "raw_lines (unlines ls) = (ls, [])"
    using assms raw_lines_unlines [of ls "[]"] by simp
  moreover have "takeWhile (\<lambda>l. length l < limit) ls = ls"
    using assms by (simp add: takeWhile_eq_all_conv)
  ultimately show ?thesis using assms by (simp add: scan_lines_def map_idI drop_cr_id)
qed

text \<open>A line that fills the scanner's buffer ends the scan: nothing after it is seen.\<close>

lemma scan_lines_stops:
  assumes "\<forall>l \<in> set ls. CHR 0x0A \<notin> set l \<and> CHR 0x0D \<notin> set l \<and> length l < limit"
    and "CHR 0x0A \<notin> set long" and "limit \<le> length long"
  shows "scan_lines limit (unlines ls @ long @ CHR 0x0A # s) = ls"
proof -
  obtain ls' r where "raw_lines (unlines ls @ long @ CHR 0x0A # s) = (ls @ long # ls', r)"
    using assms by (simp add: raw_lines_unlines raw_lines_line)
  moreover have "takeWhile (\<lambda>l. length l < limit) (ls @ long # xs) = ls" for xs
    using assms by (simp add: takeWhile_tail takeWhile_eq_all_conv)
  ultimately show ?thesis using assms by (simp add: scan_lines_def map_idI drop_cr_id)
qed

end
