(* ===== verification/GoNet.thy ===== *)
theory GoNet
  imports GoStrings
begin

unbundle bit_operations_syntax

text \<open>
  The part of Go's \<^verbatim>\<open>net\<close> package the program calls: parsing and printing of addresses, the
  four-byte form, prefix masks and networks. A \<^verbatim>\<open>net.IP\<close> is a byte slice; \<^verbatim>\<open>nil\<close> is \<open>None\<close>
  where a function may return it.
\<close>

type_synonym ip = "u8 list"

section \<open>Parsing\<close>

definition is_digit :: "char \<Rightarrow> bool" where
  "is_digit c \<longleftrightarrow> CHR ''0'' \<le> c \<and> c \<le> CHR ''9''"

definition digit_val :: "char \<Rightarrow> nat" where "digit_val c = of_char c - 48"

definition dec_val :: "string \<Rightarrow> nat" where
  "dec_val = foldl (\<lambda>n c. 10 * n + digit_val c) 0"

text \<open>One octet: digits only, no superfluous leading zero, at most 255.\<close>

definition parse_octet :: "string \<Rightarrow> u8 option" where
  "parse_octet s =
     (if s \<noteq> [] \<and> list_all is_digit s \<and> length s \<le> 3 \<and> (hd s = CHR ''0'' \<longrightarrow> length s = 1)
         \<and> dec_val s \<le> 255
      then Some (of_nat (dec_val s)) else None)"

fun all_some :: "'a option list \<Rightarrow> 'a list option" where
  "all_some [] = Some []"
| "all_some (None # xs) = None"
| "all_some (Some x # xs) = map_option ((#) x) (all_some xs)"

definition parseIPv4 :: "string \<Rightarrow> ip option" where
  "parseIPv4 s =
     (let ps = Split s CHR ''.'' in if length ps = 4 then all_some (map parse_octet ps) else None)"

definition hex_val :: "char \<Rightarrow> nat option" where
  "hex_val c =
     (if is_digit c then Some (digit_val c)
      else if CHR ''a'' \<le> c \<and> c \<le> CHR ''f'' then Some (of_char c - 87)
      else if CHR ''A'' \<le> c \<and> c \<le> CHR ''F'' then Some (of_char c - 55)
      else None)"

definition hex_prefix :: "string \<Rightarrow> string" where
  "hex_prefix = takeWhile (\<lambda>c. hex_val c \<noteq> None)"

definition hex_num :: "string \<Rightarrow> nat" where
  "hex_num = foldl (\<lambda>n c. 16 * n + the (hex_val c)) 0"

definition group_bytes :: "nat \<Rightarrow> u8 list" where
  "group_bytes n = [of_nat (n div 256), of_nat (n mod 256)]"

text \<open>
  The loop over the groups of an IPv6 address: \<open>k\<close> groups may still follow, \<open>bs\<close> are the bytes
  read so far, \<open>ell\<close> the number of bytes before the ellipsis, if it was seen. The result is
  \<open>(bs, ell)\<close> when the whole text was used.
\<close>

fun parse_groups :: "nat \<Rightarrow> string \<Rightarrow> u8 list \<Rightarrow> nat option \<Rightarrow> (u8 list \<times> nat option) option" where
  "parse_groups 0 s bs ell = (if s = [] then Some (bs, ell) else None)"
| "parse_groups (Suc k) s bs ell =
     (let h = hex_prefix s; rest = drop (length h) s in
      if h = [] \<or> 4 < length h then None
      else if rest \<noteq> [] \<and> hd rest = CHR ''.'' then
        (if (ell = None \<and> length bs \<noteq> 12) \<or> 16 < length bs + 4 then None
         else map_option (\<lambda>v4. (bs @ v4, ell)) (parseIPv4 s))
      else
        (let bs' = bs @ group_bytes (hex_num h) in
         if rest = [] then Some (bs', ell)
         else if hd rest \<noteq> CHR '':'' \<or> length rest = 1 then None
         else if hd (tl rest) = CHR '':'' then
           (if ell \<noteq> None then None
            else if tl (tl rest) = [] then Some (bs', Some (length bs'))
            else parse_groups k (tl (tl rest)) bs' (Some (length bs')))
         else parse_groups k (tl rest) bs' ell))"

definition expand_ellipsis :: "u8 list \<times> nat option \<Rightarrow> ip option" where
  "expand_ellipsis r =
     (let (bs, ell) = r in
      case ell of
        None \<Rightarrow> if length bs = 16 then Some bs else None
      | Some e \<Rightarrow> if length bs < 16 then Some (take e bs @ replicate (16 - length bs) 0 @ drop e bs)
                  else None)"

definition parseIPv6 :: "string \<Rightarrow> ip option" where
  "parseIPv6 s =
     (if take 2 s = ''::'' then
        (if length s = 2 then Some (replicate 16 0)
         else Option.bind (parse_groups 8 (drop 2 s) [] (Some 0)) expand_ellipsis)
      else Option.bind (parse_groups 8 s [] None) expand_ellipsis)"

definition v4_prefix :: "u8 list" where "v4_prefix = replicate 10 0 @ [255, 255]"

text \<open>
  \<^verbatim>\<open>net.ParseIP\<close>: the first dot or colon decides the family, a zone is refused, an IPv4 address
  is returned in its sixteen-byte form.
\<close>

definition ParseIP :: "string \<Rightarrow> ip option" where
  "ParseIP s =
     (case dropWhile (\<lambda>c. c \<notin> {CHR ''.'', CHR '':'', CHR ''%''}) s of
        [] \<Rightarrow> None
      | c # _ \<Rightarrow>
          if c = CHR ''.'' then map_option ((@) v4_prefix) (parseIPv4 s)
          else if c = CHR '':'' \<and> CHR ''%'' \<notin> set s then parseIPv6 s
          else None)"

section \<open>Four-byte form, masks and networks\<close>

definition To4 :: "ip \<Rightarrow> ip option" where
  "To4 a =
     (if length a = 4 then Some a
      else if length a = 16 \<and> take 12 a = v4_prefix then Some (drop 12 a)
      else None)"

definition To16 :: "ip \<Rightarrow> ip option" where
  "To16 a = (if length a = 4 then Some (v4_prefix @ a) else if length a = 16 then Some a else None)"

text \<open>\<open>CIDRMask ones bits\<close>: \<open>None\<close> for arguments out of range.\<close>

definition mask_byte :: "nat \<Rightarrow> u8" where
  "mask_byte n = (if 8 \<le> n then 255 else NOT (push_bit (8 - n) 1 - 1))"

definition mask_bytes :: "nat \<Rightarrow> nat \<Rightarrow> u8 list" where
  "mask_bytes ones len = map (\<lambda>i. mask_byte (ones - 8 * i)) [0..<len]"

definition CIDRMask :: "int \<Rightarrow> nat \<Rightarrow> ip option" where
  "CIDRMask ones bits =
     (if 0 \<le> ones \<and> ones \<le> int bits then Some (mask_bytes (nat ones) (bits div 8)) else None)"

text \<open>
  \<^verbatim>\<open>IP.Mask\<close> on an address and a mask of the same length; any other pair of lengths that occurs in
  the program has no result. A \<^verbatim>\<open>nil\<close> mask has length 0.
\<close>

definition MaskIP :: "ip \<Rightarrow> ip option \<Rightarrow> ip option" where
  "MaskIP a m =
     (case m of
        None \<Rightarrow> None
      | Some bs \<Rightarrow> if length a = length bs then Some (map2 (AND) a bs) else None)"

text \<open>A network is an address and a mask of the same length.\<close>

type_synonym ipnet = "ip \<times> ip"

definition Contains :: "ipnet \<Rightarrow> ip \<Rightarrow> bool" where
  "Contains n a =
     (let (nn, m) = n; x = (case To4 a of Some x4 \<Rightarrow> x4 | None \<Rightarrow> a) in
      length x = length nn \<and> list_all (\<lambda>(b, (c, k)). b AND k = c AND k) (zip nn (zip x m)))"

section \<open>Printing\<close>

definition v4_string :: "u8 list \<Rightarrow> string" where
  "v4_string bs = Join (map (\<lambda>b. digits_of (unat b)) bs) dot"

fun hex_of :: "nat \<Rightarrow> string" where
  "hex_of n = (let d = n mod 16; c = char_of (if d < 10 then 48 + d else 87 + d) in
     if n < 16 then [c] else hex_of (n div 16) @ [c])"

declare hex_of.simps [simp del]

fun groups_of :: "u8 list \<Rightarrow> nat list" where
  "groups_of (a # b # bs) = (256 * unat a + unat b) # groups_of bs"
| "groups_of _ = []"

text \<open>
  The longest run of zero groups, at least two of them, the first of equal length: its position
  and its length.
\<close>

fun zero_run :: "nat \<Rightarrow> nat list \<Rightarrow> (nat \<times> nat) option \<Rightarrow> (nat \<times> nat) option" where
  "zero_run i [] best = best"
| "zero_run i (g # gs) best =
     (let n = length (takeWhile (\<lambda>x. x = 0) (g # gs)) in
      zero_run (Suc i) gs
        (if 2 \<le> n \<and> (case best of None \<Rightarrow> True | Some (_, m) \<Rightarrow> m < n) then Some (i, n) else best))"

definition v6_string :: "u8 list \<Rightarrow> string" where
  "v6_string bs =
     (let gs = groups_of bs; txt = (\<lambda>xs. Join (map hex_of xs) '':'') in
      case zero_run 0 gs None of
        None \<Rightarrow> txt gs
      | Some (i, n) \<Rightarrow> txt (take i gs) @ ''::'' @ txt (drop (i + n) gs))"

definition IPString :: "ip \<Rightarrow> string" where
  "IPString a =
     (if a = [] then ''<nil>''
      else case To4 a of
        Some x \<Rightarrow> v4_string x
      | None \<Rightarrow> if length a = 16 then v6_string a
                 else CHR ''?'' # concat (map (\<lambda>b. [hex_of (unat b div 16) ! 0, hex_of (unat b mod 16) ! 0]) a))"

section \<open>Facts\<close>

lemma all_some_length: "all_some xs = Some ys \<Longrightarrow> length ys = length xs"
  by (induction xs arbitrary: ys rule: all_some.induct) auto

lemma parseIPv4_length: "parseIPv4 s = Some a \<Longrightarrow> length a = 4"
  by (auto simp: parseIPv4_def Let_def split: if_splits dest: all_some_length)

lemma expand_ellipsis_length: "expand_ellipsis r = Some a \<Longrightarrow> length a = 16"
  by (auto simp: expand_ellipsis_def Let_def split: prod.splits option.splits if_splits)

lemma v4_prefix_length [simp]: "length v4_prefix = 12"
  by (simp add: v4_prefix_def)

lemma parseIPv6_length: "parseIPv6 s = Some a \<Longrightarrow> length a = 16"
  by (auto simp: parseIPv6_def bind_eq_Some_conv split: if_splits dest: expand_ellipsis_length)

lemma ParseIP_length: "ParseIP s = Some a \<Longrightarrow> length a = 16"
  by (auto simp: ParseIP_def split: list.splits if_splits dest: parseIPv4_length parseIPv6_length)

lemma To4_length: "To4 a = Some b \<Longrightarrow> length b = 4"
  by (auto simp: To4_def split: if_splits)

lemma To16_ParseIP: "ParseIP s = Some a \<Longrightarrow> To16 a = Some a"
  by (auto simp: To16_def dest: ParseIP_length)

lemma CIDRMask_length: "CIDRMask n bits = Some m \<Longrightarrow> length m = bits div 8"
  by (auto simp: CIDRMask_def mask_bytes_def split: if_splits)

section \<open>A printed IPv4 address parses to itself\<close>

lemma dec_val_snoc: "dec_val (s @ [c]) = 10 * dec_val s + digit_val c"
  by (simp add: dec_val_def)

lemma digit_val_char [simp]: "d < 10 \<Longrightarrow> digit_val (char_of (48 + d)) = d"
  by (simp add: digit_val_def)

lemma is_digit_char [simp]: "d < 10 \<Longrightarrow> is_digit (char_of (48 + d :: nat))"
  by (simp add: is_digit_def less_eq_char_def)

lemma dec_val_digits_of [simp]: "dec_val (digits_of n) = n"
proof (induction n rule: digits_of.induct)
  case (1 n)
  show ?case
  proof (cases "n < 10")
    case True
    then show ?thesis by (subst digits_of.simps) (simp add: dec_val_def)
  next
    case False
    with 1 show ?thesis by (subst digits_of.simps) (simp add: dec_val_snoc)
  qed
qed

lemma is_digit_digits_of: "list_all is_digit (digits_of n)"
proof (induction n rule: digits_of.induct)
  case (1 n)
  then show ?case by (subst digits_of.simps) simp
qed

lemma digits_of_length: "n < 10 ^ k \<Longrightarrow> 0 < k \<Longrightarrow> length (digits_of n) \<le> k"
proof (induction k arbitrary: n)
  case 0
  then show ?case by simp
next
  case (Suc k)
  show ?case
  proof (cases "n < 10")
    case True
    then show ?thesis by (subst digits_of.simps) simp
  next
    case False
    with Suc.prems have "n div 10 < 10 ^ k" "0 < k" by (auto intro: gr0I)
    with Suc.IH [of "n div 10"] False show ?thesis by (subst digits_of.simps) simp
  qed
qed

lemma hd_digits_of: "0 < n \<Longrightarrow> hd (digits_of n) \<noteq> CHR ''0''"
proof (induction n rule: digits_of.induct)
  case (1 n)
  show ?case
  proof (cases "n < 10")
    case True
    have "(of_char (char_of (48 + n)) :: nat) \<noteq> of_char CHR ''0''" using 1 True by simp
    then show ?thesis using True by (subst digits_of.simps) (auto simp del: of_char_of)
  next
    case False
    with 1 show ?thesis by (subst digits_of.simps) simp
  qed
qed

lemma parse_octet_digits_of: "parse_octet (digits_of (unat b)) = Some b" for b :: u8
proof -
  have "unat b < 2 ^ LENGTH(8)" by (rule unsigned_less)
  then have b: "unat b \<le> 255" by simp
  then have "length (digits_of (unat b)) \<le> 3" by (intro digits_of_length) simp_all
  moreover have "hd (digits_of (unat b)) = CHR ''0'' \<Longrightarrow> length (digits_of (unat b)) = 1"
    using hd_digits_of [of "unat b"] by (cases "unat b = 0") (subst digits_of.simps, simp_all)
  ultimately show ?thesis using b by (simp add: parse_octet_def is_digit_digits_of)
qed

lemma digits_of_no_sep: "c \<in> set (digits_of n) \<Longrightarrow> c \<notin> {CHR ''.'', CHR '':'', CHR ''%''}"
  using is_digit_digits_of [of n] by (auto simp: list_all_iff is_digit_def less_eq_char_def)

lemma Split_none: "sep \<notin> set s \<Longrightarrow> Split s sep = [s]"
  by (induction s) auto

lemma ParseIP_v4_string:
  assumes "length a = 4"
  shows "ParseIP (v4_string a) = Some (v4_prefix @ a)"
proof -
  let ?d = "\<lambda>b :: u8. digits_of (unat b)"
  obtain b0 b1 b2 b3 where a: "a = [b0, b1, b2, b3]"
    using assms by (auto simp: length_Suc_conv eval_nat_numeral)
  have no: "CHR ''.'' \<notin> set (?d b)" for b using digits_of_no_sep by blast
  have str: "v4_string a = ?d b0 @ CHR ''.'' # ?d b1 @ CHR ''.'' # ?d b2 @ CHR ''.'' # ?d b3"
    by (simp add: v4_string_def a)
  have "Split (v4_string a) CHR ''.'' = [?d b0, ?d b1, ?d b2, ?d b3]"
    by (simp add: str Split_append_sep Split_none no)
  then have v4: "parseIPv4 (v4_string a) = Some a"
    by (simp add: parseIPv4_def parse_octet_digits_of a)
  have "dropWhile (\<lambda>c. c \<notin> {CHR ''.'', CHR '':'', CHR ''%''}) (v4_string a) =
      CHR ''.'' # ?d b1 @ CHR ''.'' # ?d b2 @ CHR ''.'' # ?d b3"
    unfolding str by (subst dropWhile_append2) (use digits_of_no_sep in auto)
  then show ?thesis by (simp add: ParseIP_def v4)
qed

lemma To4_mapped [simp]: "length a = 4 \<Longrightarrow> To4 (v4_prefix @ a) = Some a"
  by (simp add: To4_def)

end
