(* ===== verification/DnsMsg.thy ===== *)
theory DnsMsg
  imports GoNet
begin

text \<open>
  DNS messages as the program sees them, and the functions of the third-party package
  \<^verbatim>\<open>github.com/miekg/dns\<close> it calls. Those functions are fields of a record \<open>dns_lib\<close> that every
  definition using them takes as its argument; what the program relies on is stated as predicates
  on that record, and \<open>sample_lib\<close> is a concrete library that satisfies them.
\<close>

section \<open>Constants of the protocol\<close>

abbreviation (input) TypeA :: u16 where "TypeA \<equiv> 1"
abbreviation (input) TypeNS :: u16 where "TypeNS \<equiv> 2"
abbreviation (input) TypeCNAME :: u16 where "TypeCNAME \<equiv> 5"
abbreviation (input) TypeMX :: u16 where "TypeMX \<equiv> 15"
abbreviation (input) TypeTXT :: u16 where "TypeTXT \<equiv> 16"
abbreviation (input) TypeAAAA :: u16 where "TypeAAAA \<equiv> 28"
abbreviation (input) TypeOPT :: u16 where "TypeOPT \<equiv> 41"
abbreviation (input) ClassINET :: u16 where "ClassINET \<equiv> 1"
abbreviation (input) EDNS0SUBNET :: u16 where "EDNS0SUBNET \<equiv> 8"

abbreviation (input) RcodeSuccess :: int where "RcodeSuccess \<equiv> 0"
abbreviation (input) RcodeFormatError :: int where "RcodeFormatError \<equiv> 1"
abbreviation (input) RcodeServerFailure :: int where "RcodeServerFailure \<equiv> 2"
abbreviation (input) RcodeNameError :: int where "RcodeNameError \<equiv> 3"
abbreviation (input) RcodeRefused :: int where "RcodeRefused \<equiv> 5"

section \<open>Records and messages\<close>

record rr_header =
  hName :: string
  hRrtype :: u16
  hClass :: u16
  hTtl :: u32

record edns0_subnet =
  esCode :: u16
  esFamily :: u16
  esSourceNetmask :: u8
  esSourceScope :: u8
  esAddress :: "ip option"

datatype edns0 = EDNS0_SUBNET edns0_subnet | EDNS0_Other string

text \<open>Record data the program does not look into is kept as an opaque string.\<close>

datatype rr =
    RR_A (Header: rr_header) ip
  | RR_AAAA (Header: rr_header) ip
  | RR_CNAME (Header: rr_header) string
  | RR_NS (Header: rr_header) string
  | RR_TXT (Header: rr_header) "string list"
  | RR_MX (Header: rr_header) u16 string
  | RR_OPT (Header: rr_header) "edns0 list"
  | RR_Other (Header: rr_header) string

primrec with_header :: "rr_header \<Rightarrow> rr \<Rightarrow> rr" where
  "with_header h (RR_A _ x) = RR_A h x"
| "with_header h (RR_AAAA _ x) = RR_AAAA h x"
| "with_header h (RR_CNAME _ x) = RR_CNAME h x"
| "with_header h (RR_NS _ x) = RR_NS h x"
| "with_header h (RR_TXT _ x) = RR_TXT h x"
| "with_header h (RR_MX _ p x) = RR_MX h p x"
| "with_header h (RR_OPT _ x) = RR_OPT h x"
| "with_header h (RR_Other _ x) = RR_Other h x"

text \<open>\<^verbatim>\<open>rr.Header().Ttl = t\<close>\<close>

definition set_ttl :: "u32 \<Rightarrow> rr \<Rightarrow> rr" where
  "set_ttl t r = with_header ((Header r)\<lparr>hTtl := t\<rparr>) r"

abbreviation ttl_of :: "rr \<Rightarrow> u32" where "ttl_of r \<equiv> hTtl (Header r)"
abbreviation rrtype_of :: "rr \<Rightarrow> u16" where "rrtype_of r \<equiv> hRrtype (Header r)"

lemma Header_with_header [simp]: "Header (with_header h r) = h"
  by (cases r) simp_all

lemma Header_set_ttl [simp]: "Header (set_ttl t r) = (Header r)\<lparr>hTtl := t\<rparr>"
  by (simp add: set_ttl_def)

lemma with_header_twice [simp]: "with_header h (with_header h' r) = with_header h r"
  by (cases r) simp_all

lemma set_ttl_twice [simp]: "set_ttl t (set_ttl t' r) = set_ttl t r"
  by (simp add: set_ttl_def)

record question =
  qName :: string
  qType :: u16
  qClass :: u16

record msg =
  MsgId :: u16
  Response :: bool
  Authoritative :: bool
  Truncated :: bool
  RecursionDesired :: bool
  RecursionAvailable :: bool
  Compress :: bool
  Rcode :: int
  Question :: "question list"
  Answer :: "rr list"
  Ns :: "rr list"
  Extra :: "rr list"

text \<open>\<^verbatim>\<open>new(dns.Msg)\<close>\<close>

definition new_msg :: msg where
  "new_msg = \<lparr>MsgId = 0, Response = False, Authoritative = False, Truncated = False,
     RecursionDesired = False, RecursionAvailable = False, Compress = False, Rcode = 0,
     Question = [], Answer = [], Ns = [], Extra = []\<rparr>"

section \<open>The third-party library\<close>

type_synonym go_error = string

text \<open>
  \<open>SetReply L m r\<close> is the receiver \<open>m\<close> after \<^verbatim>\<open>m.SetReply(r)\<close>, and likewise for the other methods.
  \<open>IsEdns0\<close> gives the position of the OPT record it returns in the additional section.
\<close>

record dns_lib =
  CanonicalName :: "string \<Rightarrow> string"
  Fqdn :: "string \<Rightarrow> string"
  TypeToString :: "u16 \<Rightarrow> string"
  ClassToString :: "u16 \<Rightarrow> string"
  RcodeToString :: "int \<Rightarrow> string"
  SetReply :: "msg \<Rightarrow> msg \<Rightarrow> msg"
  SetRcode :: "msg \<Rightarrow> msg \<Rightarrow> int \<Rightarrow> msg"
  SetQuestion :: "msg \<Rightarrow> string \<Rightarrow> u16 \<Rightarrow> msg"
  IsEdns0 :: "msg \<Rightarrow> nat option"
  Pack :: "msg \<Rightarrow> go_error + u8 list"
  Unpack :: "u8 list \<Rightarrow> go_error + msg"

text \<open>
  Canonical names are lower case and fully qualified, and do not depend on the case of the name
  they are computed from.
\<close>

definition names_ok :: "dns_lib \<Rightarrow> bool" where
  "names_ok L \<longleftrightarrow>
     (\<forall>s. ToLower (CanonicalName L s) = CanonicalName L s) \<and>
     (\<forall>s. HasSuffix (CanonicalName L s) dot) \<and>
     (\<forall>s. CanonicalName L (ToLower s) = CanonicalName L s)"

text \<open>A reply repeats the identifier and the question of the request and starts out successful.\<close>

definition replies_ok :: "dns_lib \<Rightarrow> bool" where
  "replies_ok L \<longleftrightarrow>
     (\<forall>m r. Response (SetReply L m r) \<and> MsgId (SetReply L m r) = MsgId r \<and>
        Rcode (SetReply L m r) = RcodeSuccess \<and>
        (Question r \<noteq> [] \<longrightarrow> Question (SetReply L m r) = [hd (Question r)]) \<and>
        Authoritative (SetReply L m r) = Authoritative m \<and>
        RecursionAvailable (SetReply L m r) = RecursionAvailable m \<and>
        Answer (SetReply L m r) = Answer m \<and> Ns (SetReply L m r) = Ns m \<and>
        Extra (SetReply L m r) = Extra m)"

text \<open>\<^verbatim>\<open>SetRcode\<close> makes a reply with the given response code.\<close>

definition rcodes_ok :: "dns_lib \<Rightarrow> bool" where
  "rcodes_ok L \<longleftrightarrow> (\<forall>m r c. SetRcode L m r c = (SetReply L m r)\<lparr>Rcode := c\<rparr>)"

text \<open>\<^verbatim>\<open>SetQuestion\<close> asks for the name and type in the Internet class.\<close>

definition questions_ok :: "dns_lib \<Rightarrow> bool" where
  "questions_ok L \<longleftrightarrow>
     (\<forall>m n t. Question (SetQuestion L m n t) = [\<lparr>qName = n, qType = t, qClass = ClassINET\<rparr>])"

text \<open>A packed message unpacks to itself, except that the wire does not carry \<^verbatim>\<open>Compress\<close>.\<close>

definition packing_ok :: "dns_lib \<Rightarrow> bool" where
  "packing_ok L \<longleftrightarrow> (\<forall>m bs. Pack L m = Inr bs \<longrightarrow> Unpack L bs = Inr (m\<lparr>Compress := False\<rparr>))"

lemmas library_ok_defs = names_ok_def replies_ok_def rcodes_ok_def questions_ok_def packing_ok_def

lemma names_ok_lower [simp]: "names_ok L \<Longrightarrow> ToLower (CanonicalName L s) = CanonicalName L s"
  by (simp add: names_ok_def)

lemma names_ok_dot: "names_ok L \<Longrightarrow> HasSuffix (CanonicalName L s) dot"
  by (simp add: names_ok_def)

lemma names_ok_case [simp]: "names_ok L \<Longrightarrow> CanonicalName L (ToLower s) = CanonicalName L s"
  by (simp add: names_ok_def)

lemma names_ok_nonempty: "names_ok L \<Longrightarrow> CanonicalName L s \<noteq> []"
  using names_ok_dot [of L s] by (auto simp: HasSuffix_def)

section \<open>A library that meets the requirements\<close>

definition sample_canonical :: "string \<Rightarrow> string" where
  "sample_canonical s = ToLower (if HasSuffix s dot then s else s @ dot)"

definition sample_type_string :: "u16 \<Rightarrow> string" where
  "sample_type_string t =
     (if t = TypeA then ''A'' else if t = TypeNS then ''NS'' else if t = TypeCNAME then ''CNAME''
      else if t = TypeMX then ''MX'' else if t = TypeTXT then ''TXT''
      else if t = TypeAAAA then ''AAAA'' else if t = TypeOPT then ''OPT'' else [])"

definition sample_reply :: "msg \<Rightarrow> msg \<Rightarrow> msg" where
  "sample_reply m r = m\<lparr>MsgId := MsgId r, Response := True, RecursionDesired := RecursionDesired r,
     Rcode := RcodeSuccess,
     Question := (case Question r of [] \<Rightarrow> Question m | q # _ \<Rightarrow> [q])\<rparr>"

definition sample_lib :: dns_lib where
  "sample_lib = \<lparr>CanonicalName = sample_canonical,
     Fqdn = (\<lambda>s. if HasSuffix s dot then s else s @ dot),
     TypeToString = sample_type_string,
     ClassToString = (\<lambda>c. if c = ClassINET then ''IN'' else []),
     RcodeToString = (\<lambda>c. if c = 0 then ''NOERROR'' else if c = 3 then ''NXDOMAIN'' else []),
     SetReply = sample_reply,
     SetRcode = (\<lambda>m r c. (sample_reply m r)\<lparr>Rcode := c\<rparr>),
     SetQuestion = (\<lambda>m n t. m\<lparr>RecursionDesired := True,
       Question := [\<lparr>qName = n, qType = t, qClass = ClassINET\<rparr>]\<rparr>),
     IsEdns0 = (\<lambda>m. find (\<lambda>i. rrtype_of (Extra m ! i) = TypeOPT) (rev [0..<length (Extra m)])),
     Pack = (\<lambda>m. if m = new_msg then Inr [] else Inl ''unsupported''),
     Unpack = (\<lambda>bs. Inr new_msg)\<rparr>"

lemma sample_lib_names [simp]: "names_ok sample_lib"
  by (auto simp: names_ok_def sample_lib_def sample_canonical_def HasSuffix_dot_ToLower)
    (simp_all add: HasSuffix_def)

lemma sample_lib_replies [simp]: "replies_ok sample_lib"
  by (auto simp: replies_ok_def sample_lib_def sample_reply_def split: list.splits)

lemma sample_lib_rcodes [simp]: "rcodes_ok sample_lib"
  by (simp add: rcodes_ok_def sample_lib_def)

lemma sample_lib_questions [simp]: "questions_ok sample_lib"
  by (simp add: questions_ok_def sample_lib_def)

lemma sample_lib_packing [simp]: "packing_ok sample_lib"
  by (simp add: packing_ok_def sample_lib_def new_msg_def)

end
