(* ===== verification/Cache.thy ===== *)
theory Cache
  imports DnsMsg
begin

text \<open>
  The response cache, \<^verbatim>\<open>internal/cache/cache.go\<close>: entries with an expiry time under a key made
  of the canonical name, type and class; insertion with eviction at capacity, lookup that
  rewrites time-to-live values, periodic clean-up, and the export for persistence.
\<close>

section \<open>State\<close>

record entry =
  eMsg :: msg
  CreatedAt :: time
  ExpiresAt :: time
  eTTL :: duration
  HitCount :: u64
  Negative :: bool

record cache =
  entries :: "(string, entry) fmap"
  maxSize :: int
  minTTL :: duration
  maxTTL :: duration
  negativeTTL :: duration
  prefetchRatio :: rat
  hits :: u64
  misses :: u64
  evictions :: u64

definition New_cache :: "int \<Rightarrow> duration \<Rightarrow> duration \<Rightarrow> duration \<Rightarrow> rat \<Rightarrow> cache" where
  "New_cache msize mn mx neg ratio =
     \<lparr>entries = fmempty, maxSize = msize, minTTL = mn, maxTTL = mx, negativeTTL = neg,
      prefetchRatio = ratio, hits = 0, misses = 0, evictions = 0\<rparr>"

section \<open>Entries\<close>

definition IsExpired :: "time \<Rightarrow> entry \<Rightarrow> bool" where
  "IsExpired now e \<longleftrightarrow> ExpiresAt e < now"

definition RemainingTTL :: "time \<Rightarrow> entry \<Rightarrow> duration" where
  "RemainingTTL now e = (let remaining = ExpiresAt e - now in if remaining < 0 then 0 else remaining)"

definition ShouldPrefetch :: "time \<Rightarrow> rat \<Rightarrow> entry \<Rightarrow> bool" where
  "ShouldPrefetch now ratio e \<longleftrightarrow>
     now - CreatedAt e > go_trunc (of_int (eTTL e) * (1 - ratio))"

definition cacheKey :: "dns_lib \<Rightarrow> string \<Rightarrow> u16 \<Rightarrow> u16 \<Rightarrow> string" where
  "cacheKey L name qtype qclass =
     CanonicalName L name @ ''/'' @ TypeToString L qtype @ ''/'' @ ClassToString L qclass"

section \<open>Lookup\<close>

text \<open>The copy of the cached message that is handed out: every record but OPT gets \<open>remaining\<close>.\<close>

definition adjustTTLs :: "u32 \<Rightarrow> msg \<Rightarrow> msg" where
  "adjustTTLs remaining m =
     m\<lparr>Answer := map (set_ttl remaining) (Answer m),
       Ns := map (set_ttl remaining) (Ns m),
       Extra := map (\<lambda>r. if rrtype_of r \<noteq> TypeOPT then set_ttl remaining r else r) (Extra m)\<rparr>"

definition served_ttl :: "time \<Rightarrow> entry \<Rightarrow> u32" where
  "served_ttl now e =
     (let remaining = whole_seconds (RemainingTTL now e) in if remaining = 0 then 1 else remaining)"

text \<open>
  The result is the message, whether it was found, and whether it should be prefetched. The
  clock is read by the expiry check, for the remaining time, and for the prefetch decision.
\<close>

definition Get :: "dns_lib \<Rightarrow> clock \<Rightarrow> string \<Rightarrow> u16 \<Rightarrow> u16 \<Rightarrow> cache
    \<Rightarrow> (msg option \<times> bool \<times> bool) \<times> cache" where
  "Get L clk name qtype qclass c =
     (let key = cacheKey L name qtype qclass in
      case fmlookup (entries c) key of
        None \<Rightarrow> ((None, False, False), c\<lparr>misses := misses c + 1\<rparr>)
      | Some e \<Rightarrow>
          if IsExpired (clk 0) e then
            ((None, False, False),
             c\<lparr>entries := fmdrop key (entries c), misses := misses c + 1\<rparr>)
          else
            ((Some (adjustTTLs (served_ttl (clk 1) e) (eMsg e)), True,
              ShouldPrefetch (clk 2) (prefetchRatio c) e),
             c\<lparr>entries := fmupd key (e\<lparr>HitCount := HitCount e + 1\<rparr>) (entries c),
               hits := hits c + 1\<rparr>))"

section \<open>Insertion\<close>

definition min_ttl :: "u32 \<Rightarrow> rr list \<Rightarrow> u32" where
  "min_ttl start rrs = foldl (\<lambda>m r. if ttl_of r < m then ttl_of r else m) start rrs"

definition extractTTL :: "msg \<Rightarrow> duration" where
  "extractTTL m =
     (let t = min_ttl (min_ttl 3600 (Answer m)) (Ns m); t = (if t = 0 then 30 else t)
      in uint t * second)"

definition is_negative :: "msg \<Rightarrow> bool" where
  "is_negative m \<longleftrightarrow> Rcode m = RcodeNameError \<or> (Rcode m = RcodeSuccess \<and> Answer m = [])"

definition clampTTL :: "cache \<Rightarrow> duration \<Rightarrow> duration" where
  "clampTTL c ttl =
     (let ttl = (if ttl < minTTL c then minTTL c else ttl) in
      if maxTTL c < ttl then maxTTL c else ttl)"

definition entryTTL :: "cache \<Rightarrow> msg \<Rightarrow> duration" where
  "entryTTL c m = (if is_negative m then negativeTTL c else clampTTL c (extractTTL m))"

text \<open>
  The scan of \<^verbatim>\<open>evictOldest\<close>: expired entries are deleted on the way, the oldest of the others is
  remembered. Reading \<open>i\<close> of the clock belongs to the \<open>i\<close>-th entry visited.
\<close>

fun evict_scan :: "clock \<Rightarrow> nat \<Rightarrow> string list \<Rightarrow> (string \<times> time) option \<Rightarrow> cache
    \<Rightarrow> (string \<times> time) option \<times> cache" where
  "evict_scan clk i [] oldest c = (oldest, c)"
| "evict_scan clk i (key # keys) oldest c =
     (case fmlookup (entries c) key of
        None \<Rightarrow> evict_scan clk i keys oldest c
      | Some e \<Rightarrow>
          if IsExpired (clk i) e then
            evict_scan clk (Suc i) keys oldest
              (c\<lparr>entries := fmdrop key (entries c), evictions := evictions c + 1\<rparr>)
          else
            evict_scan clk (Suc i) keys
              (case oldest of
                 None \<Rightarrow> Some (key, CreatedAt e)
               | Some (_, t) \<Rightarrow> if CreatedAt e < t then Some (key, CreatedAt e) else oldest)
              c)"

definition evictOldest :: "(string fset \<Rightarrow> string list) \<Rightarrow> clock \<Rightarrow> cache \<Rightarrow> cache" where
  "evictOldest ord clk c =
     (case evict_scan clk 0 (ord (fmdom (entries c))) None c of
        (None, c') \<Rightarrow> c'
      | (Some (key, _), c') \<Rightarrow>
          if key \<noteq> [] \<and> maxSize c' \<le> int (mlen (entries c')) then
            c'\<lparr>entries := fmdrop key (entries c'), evictions := evictions c' + 1\<rparr>
          else c')"

text \<open>
  \<^verbatim>\<open>Set\<close>: the clock is read once for every entry the eviction scan visits, then for \<open>CreatedAt\<close>
  and for \<open>ExpiresAt\<close>. A \<^verbatim>\<open>nil\<close> message is \<open>None\<close>.
\<close>

definition Set :: "dns_lib \<Rightarrow> (string fset \<Rightarrow> string list) \<Rightarrow> clock \<Rightarrow> string \<Rightarrow> u16 \<Rightarrow> u16
    \<Rightarrow> msg option \<Rightarrow> cache \<Rightarrow> cache" where
  "Set L ord clk name qtype qclass mo c =
     (case mo of
        None \<Rightarrow> c
      | Some m \<Rightarrow>
          (let ttl = entryTTL c m;
               key = cacheKey L name qtype qclass;
               full = maxSize c \<le> int (mlen (entries c));
               n = (if full then mlen (entries c) else 0);
               c' = (if full then evictOldest ord clk c else c)
           in c'\<lparr>entries := fmupd key
                   \<lparr>eMsg = m, CreatedAt = clk n, ExpiresAt = clk (Suc n) + ttl, eTTL = ttl,
                    HitCount = 0, Negative = is_negative m\<rparr> (entries c')\<rparr>))"

section \<open>Clean-up, statistics, prefetch candidates\<close>

fun cleanup_scan :: "clock \<Rightarrow> nat \<Rightarrow> string list \<Rightarrow> cache \<Rightarrow> cache" where
  "cleanup_scan clk i [] c = c"
| "cleanup_scan clk i (key # keys) c =
     (case fmlookup (entries c) key of
        None \<Rightarrow> cleanup_scan clk i keys c
      | Some e \<Rightarrow>
          cleanup_scan clk (Suc i) keys
            (if IsExpired (clk i) e
             then c\<lparr>entries := fmdrop key (entries c), evictions := evictions c + 1\<rparr>
             else c))"

definition cleanup :: "(string fset \<Rightarrow> string list) \<Rightarrow> clock \<Rightarrow> cache \<Rightarrow> cache" where
  "cleanup ord clk c = cleanup_scan clk 0 (ord (fmdom (entries c))) c"

definition Stats :: "cache \<Rightarrow> nat \<times> u64 \<times> u64 \<times> u64" where
  "Stats c = (mlen (entries c), hits c, misses c, evictions c)"

text \<open>
  Reading \<open>2 i\<close> of the clock is the one of \<^verbatim>\<open>ShouldPrefetch\<close> on the \<open>i\<close>-th entry of the
  iteration, reading \<open>2 i + 1\<close> the one of \<^verbatim>\<open>IsExpired\<close>.
\<close>

fun candidates_from :: "clock \<Rightarrow> nat \<Rightarrow> rat \<Rightarrow> entry list \<Rightarrow> (string \<times> u16 \<times> u16) list" where
  "candidates_from clk i ratio [] = []"
| "candidates_from clk i ratio (e # es) =
     (if ShouldPrefetch (clk (2 * i)) ratio e \<and> \<not> IsExpired (clk (2 * i + 1)) e \<and> 2 < HitCount e
      then (case Question (eMsg e) of [] \<Rightarrow> [] | q # _ \<Rightarrow> [(qName q, qType q, qClass q)])
      else []) @ candidates_from clk (Suc i) ratio es"

definition entries_in_order :: "(string fset \<Rightarrow> string list) \<Rightarrow> cache \<Rightarrow> entry list" where
  "entries_in_order ord c = List.map_filter (fmlookup (entries c)) (ord (fmdom (entries c)))"

definition PrefetchCandidates :: "(string fset \<Rightarrow> string list) \<Rightarrow> clock \<Rightarrow> cache
    \<Rightarrow> (string \<times> u16 \<times> u16) list" where
  "PrefetchCandidates ord clk c = candidates_from clk 0 (prefetchRatio c) (entries_in_order ord c)"

section \<open>Export\<close>

record export_entry =
  xName :: string
  xQtype :: u16
  xQclass :: u16
  xMsgBytes :: "u8 list"
  xExpiresAt :: time
  xCreatedAt :: time

definition export_limit :: nat where "export_limit = 100000"

definition export_one :: "dns_lib \<Rightarrow> time \<Rightarrow> entry \<Rightarrow> export_entry option" where
  "export_one L now e =
     (if IsExpired now e then None
      else case Pack L (eMsg e) of
        Inl err \<Rightarrow> None
      | Inr bytes \<Rightarrow>
          (case Question (eMsg e) of
             [] \<Rightarrow> None
           | q # _ \<Rightarrow> Some \<lparr>xName = qName q, xQtype = qType q, xQclass = qClass q,
                            xMsgBytes = bytes, xExpiresAt = ExpiresAt e, xCreatedAt = CreatedAt e\<rparr>))"

text \<open>
  The loop of \<^verbatim>\<open>ExportEntries\<close>, with the entries exported so far; the clock is read once before
  the loop (reading 0, which is not used) and once per entry. An entry's message is never
  \<^verbatim>\<open>nil\<close>: only \<^verbatim>\<open>Set\<close> makes entries.
\<close>

fun export_from :: "dns_lib \<Rightarrow> clock \<Rightarrow> nat \<Rightarrow> nat \<Rightarrow> entry list \<Rightarrow> export_entry list
    \<Rightarrow> export_entry list" where
  "export_from L clk limit i [] acc = acc"
| "export_from L clk limit i (e # es) acc =
     (case export_one L (clk i) e of
        None \<Rightarrow> export_from L clk limit (Suc i) es acc
      | Some x \<Rightarrow>
          (let acc' = acc @ [x] in
           if limit \<le> length acc' then acc' else export_from L clk limit (Suc i) es acc'))"

definition ExportEntries :: "dns_lib \<Rightarrow> (string fset \<Rightarrow> string list) \<Rightarrow> clock \<Rightarrow> cache
    \<Rightarrow> export_entry list" where
  "ExportEntries L ord clk c = export_from L clk export_limit 1 (entries_in_order ord c) []"

section \<open>Facts about the scans\<close>

named_theorems cache_frame \<open>fields an operation leaves alone\<close>

lemma evict_scan_frame [cache_frame]:
  "maxSize (snd (evict_scan clk i ks oldest c)) = maxSize c"
  "minTTL (snd (evict_scan clk i ks oldest c)) = minTTL c"
  "maxTTL (snd (evict_scan clk i ks oldest c)) = maxTTL c"
  "negativeTTL (snd (evict_scan clk i ks oldest c)) = negativeTTL c"
  "prefetchRatio (snd (evict_scan clk i ks oldest c)) = prefetchRatio c"
  "hits (snd (evict_scan clk i ks oldest c)) = hits c"
  "misses (snd (evict_scan clk i ks oldest c)) = misses c"
  by (induction clk i ks oldest c rule: evict_scan.induct) (simp_all split: option.split)

lemma cleanup_scan_frame [cache_frame]:
  "maxSize (cleanup_scan clk i ks c) = maxSize c"
  "minTTL (cleanup_scan clk i ks c) = minTTL c"
  "maxTTL (cleanup_scan clk i ks c) = maxTTL c"
  "negativeTTL (cleanup_scan clk i ks c) = negativeTTL c"
  "prefetchRatio (cleanup_scan clk i ks c) = prefetchRatio c"
  "hits (cleanup_scan clk i ks c) = hits c"
  "misses (cleanup_scan clk i ks c) = misses c"
  by (induction clk i ks c rule: cleanup_scan.induct) (simp_all split: option.split)

text \<open>The eviction scan deletes what the clean-up deletes.\<close>

lemma evict_scan_cleanup: "snd (evict_scan clk i ks oldest c) = cleanup_scan clk i ks c"
  by (induction clk i ks oldest c rule: evict_scan.induct) (simp_all split: option.split)

lemma cleanup_scan_sub:
  "fmlookup (entries (cleanup_scan clk i ks c)) k = Some e \<Longrightarrow> fmlookup (entries c) k = Some e"
  by (induction clk i ks c rule: cleanup_scan.induct) (auto split: option.splits if_splits)

lemma cleanup_scan_other:
  "k \<notin> set ks \<Longrightarrow> fmlookup (entries (cleanup_scan clk i ks c)) k = fmlookup (entries c) k"
  by (induction clk i ks c rule: cleanup_scan.induct) (auto split: option.splits)

lemma cleanup_scan_live:
  assumes "mono clk" and "distinct ks" and "k \<in> set ks"
    and "fmlookup (entries (cleanup_scan clk i ks c)) k = Some e"
  shows "clk i \<le> ExpiresAt e"
  using assms
proof (induction clk i ks c rule: cleanup_scan.induct)
  case (1 clk i c)
  then show ?case by simp
next
  case (2 clk i key keys c)
  have up: "clk i \<le> clk (Suc i)" using 2(3) by (simp add: monoD)
  show ?case
  proof (cases "fmlookup (entries c) key")
    case None
    with 2 cleanup_scan_other [of key keys] show ?thesis by auto
  next
    case (Some e')
    with 2 up cleanup_scan_other [of key keys] show ?thesis
      by (cases "k = key") (force simp: IsExpired_def split: if_splits)+
  qed
qed

lemma cleanup_scan_keep:
  assumes "mono clk" and "fmlookup (entries c) k = Some e" and "clk (i + length ks) \<le> ExpiresAt e"
  shows "fmlookup (entries (cleanup_scan clk i ks c)) k = Some e"
  using assms
proof (induction clk i ks c rule: cleanup_scan.induct)
  case (1 clk i c)
  then show ?case by simp
next
  case (2 clk i key keys c)
  have le: "clk j \<le> clk (Suc (i + length keys))" if "j \<le> Suc (i + length keys)" for j
    using 2(3) that by (rule monoD)
  have "clk (i + length keys) \<le> ExpiresAt e" and "\<not> IsExpired (clk i) e"
    using 2(5) le [of "i + length keys"] le [of i] by (simp_all add: IsExpired_def)
  with 2 show ?case by (cases "k = key") (auto split: option.splits)
qed

lemma cleanup_scan_mlen: "mlen (entries (cleanup_scan clk i ks c)) \<le> mlen (entries c)"
proof (induction clk i ks c rule: cleanup_scan.induct)
  case (1 clk i c)
  then show ?case by simp
next
  case (2 clk i key keys c)
  have le: "fcard (fmdom (entries c) |-| {|key|}) \<le> mlen (entries c)"
    by (simp add: fcard_fminus1_le)
  with 2 show ?case
    by (cases "fmlookup (entries c) key") (auto intro: le_trans [OF _ le])
qed

text \<open>Every deletion is counted.\<close>

lemma cleanup_scan_count:
  "evictions (cleanup_scan clk i ks c) + of_nat (mlen (entries (cleanup_scan clk i ks c)))
     = evictions c + of_nat (mlen (entries c))"
proof (induction clk i ks c rule: cleanup_scan.induct)
  case (1 clk i c)
  then show ?case by simp
next
  case (2 clk i key keys c)
  show ?case
  proof (cases "fmlookup (entries c) key")
    case None
    with 2 show ?thesis by simp
  next
    case (Some e)
    then have "key |\<in>| fmdom (entries c)" by (rule fmdomI)
    then have "mlen (entries c) = Suc (fcard (fmdom (entries c) |-| {|key|}))"
      by (metis fcard_Suc_fminus1)
    with 2 Some show ?thesis by simp
  qed
qed

lemma evict_scan_oldest:
  assumes "distinct ks" and "fst (evict_scan clk i ks oldest c) = Some (k, t)"
  shows "(oldest = Some (k, t) \<or>
      (k \<in> set ks \<and> (\<exists>e. fmlookup (entries (cleanup_scan clk i ks c)) k = Some e \<and> CreatedAt e = t)))
    \<and> (\<forall>k0 t0. oldest = Some (k0, t0) \<longrightarrow> t \<le> t0)
    \<and> (\<forall>k' e'. k' \<in> set ks \<longrightarrow>
         fmlookup (entries (cleanup_scan clk i ks c)) k' = Some e' \<longrightarrow> t \<le> CreatedAt e')"
  using assms
proof (induction clk i ks oldest c rule: evict_scan.induct)
  case (1 clk i oldest c)
  then show ?case by simp
next
  case (2 clk i key keys oldest c)
  show ?case
  proof (cases "fmlookup (entries c) key")
    case None
    with 2 cleanup_scan_other [of key keys] show ?thesis by auto
  next
    case (Some e)
    show ?thesis
    proof (cases "IsExpired (clk i) e")
      case True
      with 2 Some cleanup_scan_other [of key keys] show ?thesis by auto
    next
      case False
      with 2 Some cleanup_scan_other [of key keys clk "Suc i" c] show ?thesis
        by (cases oldest) (force split: if_splits prod.splits)+
    qed
  qed
qed

lemma evict_scan_none:
  "fst (evict_scan clk i ks oldest c) = None \<Longrightarrow> distinct ks \<Longrightarrow>
     oldest = None \<and> (\<forall>k \<in> set ks. fmlookup (entries (cleanup_scan clk i ks c)) k = None)"
proof (induction clk i ks oldest c rule: evict_scan.induct)
  case (1 clk i oldest c)
  then show ?case by simp
next
  case (2 clk i key keys oldest c)
  then show ?case
    using cleanup_scan_other [of key keys]
    by (cases oldest) (auto split: option.splits if_splits)
qed

end
