(* ===== verification/CacheCorrect.thy ===== *)
theory CacheCorrect
  imports Cache
begin

text \<open>
  What the cache promises: its invariant and that every operation keeps it, the round trip of
  \<^verbatim>\<open>Set\<close> and \<^verbatim>\<open>Get\<close>, which entries eviction and clean-up remove, the bounds of the time-to-live
  values, and the statistics. The contract the resolver and the persistence layer use is the
  locale \<open>answer_store\<close>.
\<close>

section \<open>Keys\<close>

lemma cacheKey_nonempty [simp]: "cacheKey L name qtype qclass \<noteq> []"
  by (simp add: cacheKey_def)

lemma cacheKey_case: "names_ok L \<Longrightarrow> cacheKey L (ToLower name) = cacheKey L name"
  by (simp add: cacheKey_def fun_eq_iff)

section \<open>Clean-up and eviction\<close>

lemma cleanup_frame [cache_frame]:
  "maxSize (cleanup ord clk c) = maxSize c" "minTTL (cleanup ord clk c) = minTTL c"
  "maxTTL (cleanup ord clk c) = maxTTL c" "negativeTTL (cleanup ord clk c) = negativeTTL c"
  "prefetchRatio (cleanup ord clk c) = prefetchRatio c"
  "hits (cleanup ord clk c) = hits c" "misses (cleanup ord clk c) = misses c"
  by (simp_all add: cleanup_def cache_frame)

lemma evictOldest_cases:
  obtains "evictOldest ord clk c = cleanup ord clk c"
      "maxSize c \<le> int (mlen (entries (cleanup ord clk c))) \<longrightarrow>
        fst (evict_scan clk 0 (ord (fmdom (entries c))) None c) = None \<or>
        (\<exists>t. fst (evict_scan clk 0 (ord (fmdom (entries c))) None c) = Some ([], t))"
  | k t where "fst (evict_scan clk 0 (ord (fmdom (entries c))) None c) = Some (k, t)"
      "k \<noteq> []" "maxSize c \<le> int (mlen (entries (cleanup ord clk c)))"
      "evictOldest ord clk c =
         (let c' = cleanup ord clk c in
          c'\<lparr>entries := fmdrop k (entries c'), evictions := evictions c' + 1\<rparr>)"
proof (cases "evict_scan clk 0 (ord (fmdom (entries c))) None c")
  case (Pair oldest c')
  then have c': "c' = cleanup ord clk c"
    using evict_scan_cleanup [of clk 0 "ord (fmdom (entries c))" None c] by (simp add: cleanup_def)
  show thesis
  proof (cases oldest)
    case None
    with Pair c' that(1) show thesis by (simp add: evictOldest_def)
  next
    case (Some kt)
    then obtain k t where kt: "oldest = Some (k, t)" by (cases kt) auto
    have m: "maxSize (cleanup ord clk c) = maxSize c" by (simp add: cache_frame)
    show thesis
    proof (cases "k \<noteq> [] \<and> maxSize c \<le> int (mlen (entries (cleanup ord clk c)))")
      case True
      with Pair c' kt m show thesis by (intro that(2) [of k t]) (simp_all add: evictOldest_def Let_def)
    next
      case False
      with Pair c' kt m show thesis by (intro that(1)) (auto simp: evictOldest_def)
    qed
  qed
qed

lemma evictOldest_frame [cache_frame]:
  "maxSize (evictOldest ord clk c) = maxSize c" "minTTL (evictOldest ord clk c) = minTTL c"
  "maxTTL (evictOldest ord clk c) = maxTTL c" "negativeTTL (evictOldest ord clk c) = negativeTTL c"
  "prefetchRatio (evictOldest ord clk c) = prefetchRatio c"
  "hits (evictOldest ord clk c) = hits c" "misses (evictOldest ord clk c) = misses c"
  by (rule evictOldest_cases [of ord clk c]; simp add: Let_def cache_frame)+

lemma cleanup_sub:
  "fmlookup (entries (cleanup ord clk c)) k = Some e \<Longrightarrow> fmlookup (entries c) k = Some e"
  by (auto simp: cleanup_def dest: cleanup_scan_sub)

lemma evictOldest_sub:
  "fmlookup (entries (evictOldest ord clk c)) k = Some e \<Longrightarrow> fmlookup (entries c) k = Some e"
  by (rule evictOldest_cases [of ord clk c]) (auto simp: Let_def dest: cleanup_sub split: if_splits)

lemma cleanup_mlen: "mlen (entries (cleanup ord clk c)) \<le> mlen (entries c)"
  by (simp add: cleanup_def cleanup_scan_mlen)

lemma cleanup_live:
  assumes "mono clk" and "enumerates ord" and "fmlookup (entries (cleanup ord clk c)) k = Some e"
  shows "clk 0 \<le> ExpiresAt e"
proof -
  have "k \<in> set (ord (fmdom (entries c)))"
    using assms(2) cleanup_sub [OF assms(3)] by (simp add: enumerates_set) (metis fmdomI)
  with assms show ?thesis
    by (metis cleanup_def cleanup_scan_live enumerates_distinct)
qed

lemma cleanup_keep:
  assumes "mono clk" and "enumerates ord" and "fmlookup (entries c) k = Some e"
    and "clk (mlen (entries c)) \<le> ExpiresAt e"
  shows "fmlookup (entries (cleanup ord clk c)) k = Some e"
  using assms cleanup_scan_keep [of clk c k e 0 "ord (fmdom (entries c))"]
  by (simp add: cleanup_def enumerates_length)

lemma evictOldest_room:
  assumes ord: "enumerates ord" and key: "[] |\<notin>| fmdom (entries c)"
    and max: "1 \<le> maxSize c" and len: "int (mlen (entries c)) \<le> maxSize c"
  shows "int (mlen (entries (evictOldest ord clk c))) < maxSize c"
proof (cases rule: evictOldest_cases [of ord clk c])
  case 1
  let ?c = "cleanup ord clk c"
  let ?ks = "ord (fmdom (entries c))"
  have "int (mlen (entries ?c)) < maxSize c"
  proof (rule ccontr)
    assume full: "\<not> int (mlen (entries ?c)) < maxSize c"
    with max have "0 < mlen (entries ?c)" by simp
    then obtain k e where ke: "fmlookup (entries ?c) k = Some e" by (rule mlen_posE)
    then have kin: "k \<in> set ?ks"
      using ord cleanup_sub [OF ke] by (simp add: enumerates_set) (metis fmdomI)
    from 1(2) full have "fst (evict_scan clk 0 ?ks None c) = None \<or>
        (\<exists>t. fst (evict_scan clk 0 ?ks None c) = Some ([], t))" by simp
    then show False
    proof
      assume "fst (evict_scan clk 0 ?ks None c) = None"
      from evict_scan_none [OF this] ord kin ke show False
        by (simp add: cleanup_def enumerates_distinct)
    next
      assume "\<exists>t. fst (evict_scan clk 0 ?ks None c) = Some ([], t)"
      then obtain t where "fst (evict_scan clk 0 ?ks None c) = Some ([], t)" ..
      from evict_scan_oldest [OF enumerates_distinct [OF ord] this] ord key show False
        by (auto simp: enumerates_set)
    qed
  qed
  with 1 show ?thesis by simp
next
  case (2 k t)
  let ?c = "cleanup ord clk c"
  from evict_scan_oldest [OF enumerates_distinct [OF ord] 2(1)]
  have "\<exists>e. fmlookup (entries ?c) k = Some e" by (auto simp: cleanup_def)
  then have "k |\<in>| fmdom (entries ?c)" by (auto intro: fmdomI)
  then have "fcard (fmdom (entries ?c) |-| {|k|}) < mlen (entries ?c)" by (rule fcard_fminus1_less)
  with 2(4) len cleanup_mlen [of ord clk c] show ?thesis by (simp add: Let_def)
qed

section \<open>The invariant\<close>

definition entry_ok :: "cache \<Rightarrow> entry \<Rightarrow> bool" where
  "entry_ok c e \<longleftrightarrow>
     Negative e = is_negative (eMsg e) \<and> eTTL e = entryTTL c (eMsg e) \<and>
     CreatedAt e + eTTL e \<le> ExpiresAt e"

definition cache_inv :: "cache \<Rightarrow> bool" where
  "cache_inv c \<longleftrightarrow>
     1 \<le> maxSize c \<and> int (mlen (entries c)) \<le> maxSize c \<and>
     (\<forall>k e. fmlookup (entries c) k = Some e \<longrightarrow> k \<noteq> [] \<and> entry_ok c e)"

lemma entry_ok_cong:
  assumes "minTTL c' = minTTL c" "maxTTL c' = maxTTL c" "negativeTTL c' = negativeTTL c"
  shows "entry_ok c' e = entry_ok c e"
  using assms by (simp add: entry_ok_def entryTTL_def clampTTL_def Let_def)

lemma cache_inv_key: "cache_inv c \<Longrightarrow> [] |\<notin>| fmdom (entries c)"
  by (metis cache_inv_def fmlookup_dom_iff)

text \<open>An operation that only removes entries and keeps the configuration keeps the invariant.\<close>

lemma cache_inv_shrink:
  assumes "cache_inv c"
    and "\<And>k e. fmlookup (entries c') k = Some e \<Longrightarrow> fmlookup (entries c) k = Some e"
    and "mlen (entries c') \<le> mlen (entries c)" and "maxSize c' = maxSize c"
    and "minTTL c' = minTTL c" "maxTTL c' = maxTTL c" "negativeTTL c' = negativeTTL c"
  shows "cache_inv c'"
  using assms entry_ok_cong [OF assms(5-7)] unfolding cache_inv_def by force

lemma New_cache_inv: "1 \<le> msize \<Longrightarrow> cache_inv (New_cache msize mn mx neg ratio)"
  by (simp add: cache_inv_def New_cache_def fcard_fempty)

lemma cleanup_inv: "cache_inv c \<Longrightarrow> cache_inv (cleanup ord clk c)"
  by (rule cache_inv_shrink) (auto simp: cache_frame cleanup_mlen dest: cleanup_sub)

lemma evictOldest_inv:
  assumes "cache_inv c" and "enumerates ord"
  shows "cache_inv (evictOldest ord clk c)"
proof -
  have "int (mlen (entries (evictOldest ord clk c))) < maxSize c"
    using assms by (intro evictOldest_room cache_inv_key) (auto simp: cache_inv_def)
  with assms(1) show ?thesis
    using entry_ok_cong [of "evictOldest ord clk c" c]
    unfolding cache_inv_def by (auto simp: cache_frame dest!: evictOldest_sub)
qed

lemma cache_inv_touch:
  assumes "cache_inv c" and "fmlookup (entries c) key = Some e"
  shows "cache_inv (c\<lparr>entries := fmupd key (e\<lparr>HitCount := n\<rparr>) (entries c), hits := h\<rparr>)"
    (is "cache_inv ?c")
proof -
  have same: "entry_ok ?c e' = entry_ok c e'" for e' by (rule entry_ok_cong) simp_all
  have "entry_ok c (e\<lparr>HitCount := n\<rparr>) = entry_ok c e" by (simp add: entry_ok_def)
  moreover have "mlen (entries ?c) = mlen (entries c)"
    using fmdomI [OF assms(2)] by (simp add: finsert_absorb)
  ultimately show ?thesis
    using assms same unfolding cache_inv_def by simp
qed

lemma Get_inv:
  assumes "cache_inv c"
  shows "cache_inv (snd (Get L clk name qtype qclass c))"
proof (cases "fmlookup (entries c) (cacheKey L name qtype qclass)")
  case None
  then show ?thesis
    by (intro cache_inv_shrink [OF assms]) (simp_all add: Get_def Let_def)
next
  case (Some e)
  show ?thesis
  proof (cases "IsExpired (clk 0) e")
    case True
    with Some show ?thesis
      by (intro cache_inv_shrink [OF assms])
        (auto simp: Get_def Let_def fcard_fminus1_le split: if_splits)
  next
    case False
    with Some cache_inv_touch [OF assms Some] show ?thesis by (simp add: Get_def Let_def)
  qed
qed

text \<open>The cache an insertion starts from once it has made room.\<close>

definition made_room :: "(string fset \<Rightarrow> string list) \<Rightarrow> clock \<Rightarrow> cache \<Rightarrow> cache" where
  "made_room ord clk c =
     (if maxSize c \<le> int (mlen (entries c)) then evictOldest ord clk c else c)"

lemma made_room_frame [cache_frame]:
  "maxSize (made_room ord clk c) = maxSize c" "minTTL (made_room ord clk c) = minTTL c"
  "maxTTL (made_room ord clk c) = maxTTL c" "negativeTTL (made_room ord clk c) = negativeTTL c"
  "prefetchRatio (made_room ord clk c) = prefetchRatio c"
  "hits (made_room ord clk c) = hits c" "misses (made_room ord clk c) = misses c"
  by (simp_all add: made_room_def cache_frame)

lemma made_room_inv:
  "cache_inv c \<Longrightarrow> enumerates ord \<Longrightarrow>
     cache_inv (made_room ord clk c) \<and> int (mlen (entries (made_room ord clk c))) < maxSize c"
  using evictOldest_inv [of c ord clk] evictOldest_room [of ord c clk] cache_inv_key [of c]
  by (simp add: made_room_def) (simp add: cache_inv_def)

text \<open>\<^verbatim>\<open>Set\<close> stores one entry into the cache with room; the number of clock readings before it.\<close>

definition scan_reads :: "cache \<Rightarrow> nat" where
  "scan_reads c = (if maxSize c \<le> int (mlen (entries c)) then mlen (entries c) else 0)"

definition stored_entry :: "clock \<Rightarrow> cache \<Rightarrow> msg \<Rightarrow> entry" where
  "stored_entry clk c m =
     \<lparr>eMsg = m, CreatedAt = clk (scan_reads c), ExpiresAt = clk (Suc (scan_reads c)) + entryTTL c m,
      eTTL = entryTTL c m, HitCount = 0, Negative = is_negative m\<rparr>"

lemma Set_Some:
  "Set L ord clk name qtype qclass (Some m) c =
     (made_room ord clk c)\<lparr>entries :=
        fmupd (cacheKey L name qtype qclass) (stored_entry clk c m)
          (entries (made_room ord clk c))\<rparr>"
  by (simp add: Set_def Let_def made_room_def stored_entry_def scan_reads_def)

lemma Set_None [simp]: "Set L ord clk name qtype qclass None c = c"
  by (simp add: Set_def)

lemma Set_frame [cache_frame]:
  "maxSize (Set L ord clk name qtype qclass mo c) = maxSize c"
  "hits (Set L ord clk name qtype qclass mo c) = hits c"
  "misses (Set L ord clk name qtype qclass mo c) = misses c"
  "prefetchRatio (Set L ord clk name qtype qclass mo c) = prefetchRatio c"
  by (cases mo; simp add: Set_Some cache_frame)+

lemma Set_inv:
  assumes inv: "cache_inv c" and ord: "enumerates ord" and clk: "mono clk"
  shows "cache_inv (Set L ord clk name qtype qclass mo c)"
proof (cases mo)
  case None
  with inv show ?thesis by simp
next
  case (Some m)
  let ?r = "made_room ord clk c"
  let ?s = "Set L ord clk name qtype qclass (Some m) c"
  have r: "cache_inv ?r" "int (mlen (entries ?r)) < maxSize c"
    using made_room_inv [OF inv ord] by auto
  have "clk (scan_reads c) \<le> clk (Suc (scan_reads c))" using clk by (simp add: monoD)
  then have st: "entry_ok ?r (stored_entry clk c m)"
    by (simp add: entry_ok_def stored_entry_def entryTTL_def clampTTL_def Let_def cache_frame)
  have same: "entry_ok ?s e = entry_ok ?r e" for e
    by (rule entry_ok_cong) (simp_all add: Set_Some)
  have "int (mlen (entries ?s)) \<le> maxSize ?s"
    using r(2) by (auto simp: Set_Some cache_frame fcard_finsert_if)
  moreover have "1 \<le> maxSize ?s" using inv by (simp add: cache_frame cache_inv_def)
  ultimately show ?thesis
    using r(1) st same unfolding cache_inv_def Some by (auto simp: Set_Some)
qed

section \<open>Runs of calls\<close>

datatype cache_call =
    is_Call_Get: Call_Get string u16 u16
  | Call_Set string u16 u16 "msg option"
  | Call_cleanup

text \<open>One call, with the iteration order and the clock readings it meets.\<close>

fun cache_step :: "dns_lib \<Rightarrow> (string fset \<Rightarrow> string list) \<times> clock \<times> cache_call \<Rightarrow> cache \<Rightarrow> cache" where
  "cache_step L (ord, clk, Call_Get n t q) c = snd (Get L clk n t q c)"
| "cache_step L (ord, clk, Call_Set n t q mo) c = Set L ord clk n t q mo c"
| "cache_step L (ord, clk, Call_cleanup) c = cleanup ord clk c"

definition call_ok :: "(string fset \<Rightarrow> string list) \<times> clock \<times> cache_call \<Rightarrow> bool" where
  "call_ok x = (case x of (ord, clk, call) \<Rightarrow> enumerates ord \<and> mono clk)"

lemma cache_step_inv: "cache_inv c \<Longrightarrow> call_ok x \<Longrightarrow> cache_inv (cache_step L x c)"
  by (cases "(L, x, c)" rule: cache_step.cases)
    (auto simp: call_ok_def Get_inv Set_inv cleanup_inv)

lemma Get_maxSize [cache_frame]: "maxSize (snd (Get L clk n t q c)) = maxSize c"
  by (simp add: Get_def Let_def split: option.split)

lemma cache_step_maxSize: "maxSize (cache_step L x c) = maxSize c"
  by (cases "(L, x, c)" rule: cache_step.cases) (auto simp: cache_frame)

interpretation cache_table: bounded_table cache_inv "\<lambda>c. mlen (entries c)" "\<lambda>c. nat (maxSize c)"
  call_ok "cache_step L" for L
proof unfold_locales
  fix s x
  assume "cache_inv s" and "call_ok x"
  then show inv: "cache_inv (cache_step L x s)" by (rule cache_step_inv)
  show "mlen (entries (cache_step L x s)) \<le> nat (maxSize s)"
    using inv by (simp add: cache_inv_def cache_step_maxSize le_nat_iff)
next
  fix x s
  show "nat (maxSize (cache_step L x s)) = nat (maxSize s)" by (simp add: cache_step_maxSize)
qed

section \<open>Lemmas for the properties\<close>

lemma cleanup_scan_noop:
  assumes "mono clk"
    and "\<forall>k \<in> set ks. \<forall>e. fmlookup (entries c) k = Some e \<longrightarrow> clk (i + length ks) \<le> ExpiresAt e"
  shows "cleanup_scan clk i ks c = c"
  using assms
proof (induction clk i ks c rule: cleanup_scan.induct)
  case (1 clk i c)
  then show ?case by simp
next
  case (2 clk i key keys c)
  have le: "clk j \<le> clk (Suc (i + length keys))" if "j \<le> Suc (i + length keys)" for j
    using 2(3) that by (rule monoD)
  have tail: "clk (i + length keys) \<le> ExpiresAt e" if "k \<in> set keys" "fmlookup (entries c) k = Some e"
    for k e using 2(4) that le [of "i + length keys"] by fastforce
  have "\<not> IsExpired (clk i) e" if "fmlookup (entries c) key = Some e" for e
    using 2(4) that le [of i] by (force simp: IsExpired_def)
  with 2 tail show ?case by (auto split: option.splits)
qed

lemma cleanup_noop:
  assumes "mono clk" and "enumerates ord"
    and "\<And>k e. fmlookup (entries c) k = Some e \<Longrightarrow> clk (mlen (entries c)) \<le> ExpiresAt e"
  shows "cleanup ord clk c = c"
  using assms by (auto simp: cleanup_def enumerates_length intro!: cleanup_scan_noop)

lemma cleanup_drops:
  assumes "mono clk" and "enumerates ord" and "fmlookup (entries c) k = Some e" and "ExpiresAt e < clk 0"
  shows "fmlookup (entries (cleanup ord clk c)) k = None"
proof (rule ccontr)
  assume "fmlookup (entries (cleanup ord clk c)) k \<noteq> None"
  then obtain e' where e': "fmlookup (entries (cleanup ord clk c)) k = Some e'" by blast
  from cleanup_sub [OF e'] cleanup_live [OF assms(1,2) e'] assms(3,4) show False by simp
qed

lemma cleanup_shrinks:
  assumes "fmlookup (entries c) k = Some e" and "fmlookup (entries (cleanup ord clk c)) k = None"
  shows "mlen (entries (cleanup ord clk c)) < mlen (entries c)"
proof (rule pfsubset_fcard_mono)
  have "fmdom (entries (cleanup ord clk c)) |\<subseteq>| fmdom (entries c)"
    by (meson cleanup_sub fmlookup_dom_iff fsubsetI)
  moreover have "k |\<in>| fmdom (entries c)" "k |\<notin>| fmdom (entries (cleanup ord clk c))"
    using assms by (auto intro: fmdomI fmdom_notI)
  ultimately show "fmdom (entries (cleanup ord clk c)) |\<subset>| fmdom (entries c)" by blast
qed

lemma min_ttl_simps [simp]:
  "min_ttl s [] = s"
  "min_ttl s (r # rrs) = min_ttl (if ttl_of r < s then ttl_of r else s) rrs"
  by (simp_all add: min_ttl_def)

lemma min_ttl_bounds: "min_ttl s rrs \<le> s \<and> (\<forall>r \<in> set rrs. min_ttl s rrs \<le> ttl_of r)"
proof (induction rrs arbitrary: s)
  case Nil
  then show ?case by simp
next
  case (Cons r rrs)
  show ?case using Cons.IH [of "if ttl_of r < s then ttl_of r else s"]
    by (auto simp: not_less split: if_splits)
qed

lemma min_ttl_cases: "min_ttl s rrs = s \<or> (\<exists>r \<in> set rrs. min_ttl s rrs = ttl_of r)"
proof (induction rrs arbitrary: s)
  case Nil
  then show ?case by simp
next
  case (Cons r rrs)
  show ?case using Cons.IH [of "if ttl_of r < s then ttl_of r else s"] by auto
qed

lemma min_ttl_pos: "0 < s \<Longrightarrow> \<forall>r \<in> set rrs. 0 < ttl_of r \<Longrightarrow> 0 < min_ttl s rrs"
  using min_ttl_cases [of s rrs] by auto

lemma extractTTL_le:
  assumes r: "r \<in> set (Answer m) \<union> set (Ns m)" and pos: "\<forall>r \<in> set (Answer m) \<union> set (Ns m). 0 < ttl_of r"
  shows "extractTTL m \<le> uint (ttl_of r) * second"
proof -
  let ?t = "min_ttl (min_ttl 3600 (Answer m)) (Ns m)"
  have "?t \<le> ttl_of r"
    using r min_ttl_bounds [of 3600 "Answer m"] min_ttl_bounds [of "min_ttl 3600 (Answer m)" "Ns m"]
    by (auto intro: order_trans)
  moreover have "?t \<noteq> 0"
    using pos min_ttl_pos [of 3600 "Answer m"] min_ttl_pos [of "min_ttl 3600 (Answer m)" "Ns m"]
    by simp
  ultimately show ?thesis by (simp add: extractTTL_def Let_def word_le_def)
qed

lemma served_ttl_bounds:
  assumes "now \<le> ExpiresAt e"
  shows "1 \<le> served_ttl now e" and "uint (served_ttl now e) * second \<le> max second (ExpiresAt e - now)"
proof -
  let ?n = "RemainingTTL now e div second"
  have d: "RemainingTTL now e = ExpiresAt e - now" "0 \<le> ?n"
    using assms by (simp_all add: RemainingTTL_def)
  have "uint (word_of_int ?n :: u32) \<le> ?n"
    using d(2) by (simp add: uint_word_of_int zmod_le_nonneg_dividend)
  moreover have "?n * second \<le> ExpiresAt e - now" using d(1) by simp
  ultimately have "uint (whole_seconds (RemainingTTL now e)) * second \<le> ExpiresAt e - now"
    unfolding whole_seconds_def by linarith
  then show "uint (served_ttl now e) * second \<le> max second (ExpiresAt e - now)"
    by (auto simp: served_ttl_def Let_def)
  show "1 \<le> served_ttl now e"
    by (auto simp: served_ttl_def Let_def word_le_def word_neq_0_conv word_less_def)
qed

section \<open>Properties\<close>

definition sample_answer :: "u32 \<Rightarrow> msg" where
  "sample_answer t = new_msg\<lparr>Question := [\<lparr>qName = ''a.'', qType = TypeA, qClass = ClassINET\<rparr>],
     Answer := [RR_A \<lparr>hName = ''a.'', hRrtype = TypeA, hClass = ClassINET, hTtl = t\<rparr> [1, 2, 3, 4]]\<rparr>"

definition sample_cache :: "int \<Rightarrow> cache" where
  "sample_cache n = New_cache n (30 * second) (24 * hour) (5 * minute) (1 / 10)"

lemma mono_int [simp]: "mono int"
  by (simp add: mono_def)

text \<open>A full cache of one live entry, and a cache of one dead and one live entry.\<close>

definition one_entry :: cache where
  "one_entry = Set sample_lib sorted_list_of_fset int ''a.'' TypeA ClassINET
     (Some (sample_answer 60)) (sample_cache 1)"

definition sample_entry :: "time \<Rightarrow> entry" where
  "sample_entry t = \<lparr>eMsg = sample_answer 60, CreatedAt = t, ExpiresAt = t + 60 * second,
     eTTL = 60 * second, HitCount = 0, Negative = False\<rparr>"

definition dead_and_live :: cache where
  "dead_and_live = (sample_cache 2)\<lparr>entries :=
     fmupd ''d'' (sample_entry 0) (fmupd ''l'' (sample_entry (60 * second)) fmempty)\<rparr>"

lemma sample_cache_inv [simp]: "1 \<le> n \<Longrightarrow> cache_inv (sample_cache n)"
  by (simp add: sample_cache_def New_cache_inv)

lemma one_entry_lookup:
  "fmlookup (entries one_entry) k =
     (if k = cacheKey sample_lib ''a.'' TypeA ClassINET
      then Some (stored_entry int (sample_cache 1) (sample_answer 60)) else None)"
  "mlen (entries one_entry) = 1" "maxSize one_entry = 1"
  by (simp_all add: one_entry_def Set_Some made_room_def sample_cache_def New_cache_def
      fcard_fempty fcard_finsert_if)

lemma one_entry_inv: "cache_inv one_entry"
  by (simp add: one_entry_def Set_inv)

lemma sample_expiry: "60 * second \<le> ExpiresAt (stored_entry int (sample_cache 1) (sample_answer 60))"
  by code_simp



text \<open>
  C11: what was stored under a name is found under every name with the same canonical form, until
  the entry expires: the answer is the stored message with rewritten time-to-live values.
\<close>
theorem Get_after_Set:
  assumes same: "CanonicalName L name' = CanonicalName L name"
    and live: "clk' 0 \<le> clk (Suc (scan_reads c)) + entryTTL c m"
  shows "fst (Get L clk' name' qtype qclass (Set L ord clk name qtype qclass (Some m) c)) =
    (Some (adjustTTLs (served_ttl (clk' 1) (stored_entry clk c m)) m), True,
     ShouldPrefetch (clk' 2) (prefetchRatio c) (stored_entry clk c m))"
proof -
  have key: "cacheKey L name' qtype qclass = cacheKey L name qtype qclass"
    using same by (simp add: cacheKey_def)
  have "\<not> IsExpired (clk' 0) (stored_entry clk c m)" "eMsg (stored_entry clk c m) = m"
    using live by (simp_all add: IsExpired_def stored_entry_def)
  then show ?thesis by (simp add: Get_def Let_def Set_Some key cache_frame)
qed

theorem Get_after_Set_witness:
  "fst (snd (fst (Get sample_lib int ''A'' TypeA ClassINET
     (Set sample_lib sorted_list_of_fset int ''a.'' TypeA ClassINET (Some (sample_answer 60))
       (sample_cache 2)))))"
proof -
  have "CanonicalName sample_lib ''A'' = CanonicalName sample_lib ''a.''" by code_simp
  moreover have "int 0 \<le> int (Suc (scan_reads (sample_cache 2))) + entryTTL (sample_cache 2) (sample_answer 60)"
    by code_simp
  ultimately show ?thesis
    using Get_after_Set [of sample_lib "''A''" "''a.''" int int "sample_cache 2" "sample_answer 60"]
    by simp
qed



text \<open>
  With a full cache and nothing expired, making room removes exactly one entry, one that was
  created no later than any other.
\<close>
theorem evictOldest_removes_oldest:
  assumes inv: "cache_inv c" and ord: "enumerates ord" and clk: "mono clk"
    and full: "int (mlen (entries c)) = maxSize c"
    and live: "\<forall>k e. fmlookup (entries c) k = Some e \<longrightarrow> clk (mlen (entries c)) \<le> ExpiresAt e"
  shows "\<exists>k e. fmlookup (entries c) k = Some e \<and>
    (\<forall>k' e'. fmlookup (entries c) k' = Some e' \<longrightarrow> CreatedAt e \<le> CreatedAt e') \<and>
    evictOldest ord clk c = c\<lparr>entries := fmdrop k (entries c), evictions := evictions c + 1\<rparr>"
proof -
  have noop: "cleanup ord clk c = c" using cleanup_noop [OF clk ord] live by blast
  have keys: "set (ord (fmdom (entries c))) = {k. fmlookup (entries c) k \<noteq> None}"
    using ord by (auto simp: enumerates_set fmlookup_dom_iff)
  show ?thesis
  proof (cases rule: evictOldest_cases [of ord clk c])
    case 1
    with noop have "evictOldest ord clk c = c" by simp
    moreover have "int (mlen (entries (evictOldest ord clk c))) < maxSize c"
      using inv full by (intro evictOldest_room [OF ord cache_inv_key]) (auto simp: cache_inv_def)
    ultimately show ?thesis using full by simp
  next
    case (2 k t)
    have scan: "cleanup_scan clk 0 (ord (fmdom (entries c))) c = c" using noop by (simp add: cleanup_def)
    from evict_scan_oldest [OF enumerates_distinct [OF ord] 2(1)]
    obtain e where e: "fmlookup (entries c) k = Some e" "CreatedAt e = t"
      and least: "\<And>k' e'. fmlookup (entries c) k' = Some e' \<Longrightarrow> t \<le> CreatedAt e'"
      unfolding scan keys by auto
    with 2(4) noop show ?thesis by (intro exI [of _ k] exI [of _ e]) (auto simp: Let_def)
  qed
qed

theorem evictOldest_removes_oldest_witness:
  "\<exists>k. evictOldest sorted_list_of_fset int one_entry =
     one_entry\<lparr>entries := fmdrop k (entries one_entry), evictions := evictions one_entry + 1\<rparr>"
proof -
  have "int (mlen (entries one_entry)) = maxSize one_entry" by (simp add: one_entry_lookup)
  moreover have "\<forall>k e. fmlookup (entries one_entry) k = Some e \<longrightarrow>
      int (mlen (entries one_entry)) \<le> ExpiresAt e"
    using sample_expiry by (simp add: one_entry_lookup)
  ultimately show ?thesis
    using evictOldest_removes_oldest [OF one_entry_inv enumerates_sorted mono_int] by blast
qed

text \<open>
  As long as something in a cache within its bound has expired, making room costs no live
  entry: every entry that is alive when the scan ends is still there.
\<close>
theorem evictOldest_spares_live:
  assumes len: "int (mlen (entries c)) \<le> maxSize c" and ord: "enumerates ord" and clk: "mono clk"
    and dead: "fmlookup (entries c) k0 = Some e0" "ExpiresAt e0 < clk 0"
    and live: "fmlookup (entries c) k = Some e" "clk (mlen (entries c)) \<le> ExpiresAt e"
  shows "fmlookup (entries (evictOldest ord clk c)) k = Some e"
proof -
  have "mlen (entries (cleanup ord clk c)) < mlen (entries c)"
    using dead(1) cleanup_drops [OF clk ord dead] by (rule cleanup_shrinks)
  then have "evictOldest ord clk c = cleanup ord clk c"
    using len by (cases rule: evictOldest_cases [of ord clk c]) auto
  with cleanup_keep [OF clk ord live] show ?thesis by simp
qed

theorem evictOldest_spares_live_witness:
  "fmlookup (entries (evictOldest sorted_list_of_fset (\<lambda>n. 61 * second + int n) dead_and_live)) ''l''
     = Some (sample_entry (60 * second))"
  by (rule evictOldest_spares_live [of _ _ _ "''d''" "sample_entry 0"])
    (simp_all add: dead_and_live_def sample_cache_def New_cache_def sample_entry_def mono_def
      fcard_finsert_if fcard_fempty)

text \<open>
  A clean-up keeps every entry that is alive when it ends, leaves none that had expired when
  it began, changes no entry it keeps, and counts every removal.
\<close>
theorem cleanup_exact:
  assumes ord: "enumerates ord" and clk: "mono clk"
  shows "(\<forall>k e. fmlookup (entries (cleanup ord clk c)) k = Some e \<longrightarrow>
       fmlookup (entries c) k = Some e \<and> clk 0 \<le> ExpiresAt e) \<and>
    (\<forall>k e. fmlookup (entries c) k = Some e \<and> clk (mlen (entries c)) \<le> ExpiresAt e \<longrightarrow>
       fmlookup (entries (cleanup ord clk c)) k = Some e) \<and>
    evictions (cleanup ord clk c) =
      evictions c + of_nat (mlen (entries c)) - of_nat (mlen (entries (cleanup ord clk c)))"
proof -
  have "evictions (cleanup ord clk c) + of_nat (mlen (entries (cleanup ord clk c)))
      = evictions c + of_nat (mlen (entries c))"
    unfolding cleanup_def by (rule cleanup_scan_count)
  then have count: "evictions (cleanup ord clk c) =
      evictions c + of_nat (mlen (entries c)) - of_nat (mlen (entries (cleanup ord clk c)))"
    by (simp only: eq_diff_eq)
  show ?thesis
    by (intro conjI allI impI count)
      (auto dest: cleanup_sub cleanup_live [OF clk ord] intro: cleanup_keep [OF clk ord])
qed

theorem cleanup_exact_witness:
  "fmlookup (entries (cleanup sorted_list_of_fset (\<lambda>n. 61 * second + int n) dead_and_live)) ''l''
     = Some (sample_entry (60 * second))"
  using cleanup_exact [of sorted_list_of_fset "\<lambda>n. 61 * second + int n" dead_and_live]
  by (simp add: dead_and_live_def sample_cache_def New_cache_def sample_entry_def mono_def
      fcard_finsert_if fcard_fempty)

text \<open>
  The time-to-live of a positive entry lies between the configured bounds and, unless the
  lower bound forces it up, does not exceed that of any record of the answer and authority
  sections, provided none of them is zero; a negative entry gets the negative time-to-live.
\<close>
theorem entryTTL_bounds:
  assumes "minTTL c \<le> maxTTL c"
  shows "(is_negative m \<longrightarrow> entryTTL c m = negativeTTL c) \<and>
    (\<not> is_negative m \<longrightarrow> minTTL c \<le> entryTTL c m \<and> entryTTL c m \<le> maxTTL c \<and>
       ((\<forall>r \<in> set (Answer m) \<union> set (Ns m). 0 < ttl_of r) \<longrightarrow>
        (\<forall>r \<in> set (Answer m) \<union> set (Ns m).
           entryTTL c m \<le> max (minTTL c) (uint (ttl_of r) * second))))"
proof -
  have clamp: "minTTL c \<le> clampTTL c t \<and> clampTTL c t \<le> maxTTL c \<and> clampTTL c t \<le> max (minTTL c) t" for t
    using assms by (auto simp: clampTTL_def Let_def)
  have "clampTTL c (extractTTL m) \<le> max (minTTL c) (uint (ttl_of r) * second)"
    if "\<forall>r \<in> set (Answer m) \<union> set (Ns m). 0 < ttl_of r" "r \<in> set (Answer m) \<union> set (Ns m)" for r
    using extractTTL_le [OF that(2,1)] clamp [of "extractTTL m"] by linarith
  with clamp [of "extractTTL m"] show ?thesis unfolding entryTTL_def by simp
qed

theorem entryTTL_bounds_witness:
  "30 * second \<le> entryTTL (sample_cache 2) (sample_answer 60)
     \<and> entryTTL (sample_cache 2) (sample_answer 60) \<le> 60 * second"
proof -
  have "minTTL (sample_cache 2) \<le> maxTTL (sample_cache 2)" by code_simp
  moreover have "\<not> is_negative (sample_answer 60)" by code_simp
  moreover have "minTTL (sample_cache 2) = 30 * second" by code_simp
  ultimately show ?thesis
    using entryTTL_bounds [of "sample_cache 2" "sample_answer 60"] by (auto simp: sample_answer_def new_msg_def)
qed

text \<open>
  A failure other than a name error that carries no records, a refusal for instance, is not
  a negative answer for the cache: it is kept as long as an answer with a one-hour time-to-live.
\<close>
theorem refusals_cached_for_an_hour:
  assumes "Rcode m \<noteq> RcodeSuccess" and "Rcode m \<noteq> RcodeNameError" and "Answer m = []" and "Ns m = []"
  shows "entryTTL c m = clampTTL c hour \<and>
    Negative (stored_entry clk c m) = False \<and>
    ExpiresAt (stored_entry clk c m) = clk (Suc (scan_reads c)) + clampTTL c hour"
  using assms by (simp add: entryTTL_def is_negative_def extractTTL_def stored_entry_def)

theorem refusals_cached_for_an_hour_witness:
  "entryTTL (sample_cache 2) (new_msg\<lparr>Rcode := RcodeRefused\<rparr>) = hour"
proof -
  have "clampTTL (sample_cache 2) hour = hour" by code_simp
  then show ?thesis
    using refusals_cached_for_an_hour [of "new_msg\<lparr>Rcode := RcodeRefused\<rparr>" "sample_cache 2"]
    by (simp add: new_msg_def)
qed

text \<open>
  Every \<open>Get\<close> counts as exactly one hit or one miss, and nothing else changes the two
  counters.
\<close>
theorem hits_and_misses_count_Gets:
  "hits (fold (cache_step L) calls c) + misses (fold (cache_step L) calls c) =
     hits c + misses c + of_nat (length (filter (\<lambda>(ord, clk, x). is_Call_Get x) calls))"
proof (induction calls arbitrary: c)
  case Nil
  then show ?case by simp
next
  case (Cons x calls)
  have "hits (cache_step L x c) + misses (cache_step L x c) =
      hits c + misses c + (if (\<lambda>(ord, clk, x). is_Call_Get x) x then 1 else 0)"
    by (cases "(L, x, c)" rule: cache_step.cases)
      (auto simp: Get_def Let_def cache_frame split: option.split)
  with Cons.IH [of "cache_step L x c"] show ?case
    by (cases x) (simp add: add.assoc)
qed

end
