(* ===== verification/RateLimit.thy ===== *)
theory RateLimit
  imports Prelude
begin

text \<open>
  The per-address token bucket, \<^verbatim>\<open>internal/ratelimit/ratelimit.go\<close>. The interface the server
  relies on is the locale \<open>token_source\<close>: from three laws about the tokens a client has
  available follows the bound on the number of requests it is granted in any period.
\<close>

section \<open>State and operations\<close>

record bucket =
  tokens :: rat
  lastTime :: time
  blocked :: int

record limiter =
  buckets :: "(string, bucket) fmap"
  rate :: int
  burst :: int
  cleanupEvery :: duration

definition New_limiter :: "int \<Rightarrow> int \<Rightarrow> duration \<Rightarrow> limiter" where
  "New_limiter requestsPerSec burstSize cleanupInterval =
     \<lparr>buckets = fmempty, rate = requestsPerSec, burst = burstSize, cleanupEvery = cleanupInterval\<rparr>"

definition to_seconds :: "duration \<Rightarrow> rat" where
  "to_seconds d = of_int d / of_int second"

text \<open>Refilling: the tokens gained since the last request, at most \<open>burst\<close> in all.\<close>

definition refill :: "limiter \<Rightarrow> time \<Rightarrow> bucket \<Rightarrow> rat" where
  "refill l now b =
     (let t = tokens b + to_seconds (now - lastTime b) * of_int (rate l) in
      if of_int (burst l) < t then of_int (burst l) else t)"

definition Allow :: "time \<Rightarrow> string \<Rightarrow> limiter \<Rightarrow> bool \<times> limiter" where
  "Allow now ip l =
     (let b = (case fmlookup (buckets l) ip of
                 Some b \<Rightarrow> b
               | None \<Rightarrow> \<lparr>tokens = of_int (burst l), lastTime = now, blocked = 0\<rparr>);
          b = b\<lparr>tokens := refill l now b, lastTime := now\<rparr>
      in if 1 \<le> tokens b
         then (True, l\<lparr>buckets := fmupd ip (b\<lparr>tokens := tokens b - 1\<rparr>) (buckets l)\<rparr>)
         else (False, l\<lparr>buckets := fmupd ip (b\<lparr>blocked := blocked b + 1\<rparr>) (buckets l)\<rparr>))"

definition GetStats :: "string \<Rightarrow> limiter \<Rightarrow> int \<times> rat" where
  "GetStats ip l =
     (case fmlookup (buckets l) ip of Some b \<Rightarrow> (blocked b, tokens b) | None \<Rightarrow> (0, 0))"

text \<open>
  \<^verbatim>\<open>cleanupStale\<close> deletes the buckets last used before the threshold; the clock is read once,
  so the iteration order does not matter.
\<close>

definition stale :: "limiter \<Rightarrow> time \<Rightarrow> bucket \<Rightarrow> bool" where
  "stale l now b \<longleftrightarrow> lastTime b < now + (- cleanupEvery l * 2)"

definition cleanupStale :: "time \<Rightarrow> limiter \<Rightarrow> limiter" where
  "cleanupStale now l =
     l\<lparr>buckets := fmfilter
        (\<lambda>ip. case fmlookup (buckets l) ip of Some b \<Rightarrow> \<not> stale l now b | None \<Rightarrow> False)
        (buckets l)\<rparr>"

definition ActiveClients :: "limiter \<Rightarrow> nat" where
  "ActiveClients l = mlen (buckets l)"

record client_rate_stat =
  rsIP :: string
  rsBlocked :: int
  rsTokens :: rat

definition GetAllStats :: "(string fset \<Rightarrow> string list) \<Rightarrow> limiter \<Rightarrow> client_rate_stat list" where
  "GetAllStats ord l =
     concat (map (\<lambda>ip. case fmlookup (buckets l) ip of
          Some b \<Rightarrow> if 0 < blocked b
                    then [\<lparr>rsIP = ip, rsBlocked = blocked b, rsTokens = tokens b\<rparr>] else []
        | None \<Rightarrow> []) (ord (fmdom (buckets l))))"

section \<open>Interface: a source of tokens\<close>

text \<open>
  \<open>avail s k t\<close> are the tokens client \<open>k\<close> has at time \<open>t\<close>. They grow by at most \<open>rt s\<close> per
  second, and every step takes one from the client it grants a request to and gives none to
  anybody. \<open>step t e s\<close> says who was granted a request, if anybody was.
\<close>

locale token_source =
  fixes wf :: "time \<Rightarrow> 's \<Rightarrow> bool"
    and avail :: "'s \<Rightarrow> 'k \<Rightarrow> time \<Rightarrow> rat"
    and rt :: "'s \<Rightarrow> rat"
    and step :: "time \<Rightarrow> 'e \<Rightarrow> 's \<Rightarrow> 'k option \<times> 's"
  assumes avail_nonneg: "wf t s \<Longrightarrow> 0 \<le> avail s k t"
    and wf_later: "wf t s \<Longrightarrow> t \<le> t' \<Longrightarrow> wf t' s"
    and avail_later: "wf t s \<Longrightarrow> t \<le> t' \<Longrightarrow> avail s k t' \<le> avail s k t + to_seconds (t' - t) * rt s"
    and wf_step: "wf t s \<Longrightarrow> wf t (snd (step t e s))"
    and rt_step: "rt (snd (step t e s)) = rt s"
    and step_pays: "wf t s \<Longrightarrow>
      avail (snd (step t e s)) k t + (if fst (step t e s) = Some k then 1 else 0) \<le> avail s k t"
begin

text \<open>The number of requests of \<open>k\<close> granted along a list of timed events.\<close>

fun granted :: "'k \<Rightarrow> 's \<Rightarrow> (time \<times> 'e) list \<Rightarrow> nat" where
  "granted k s [] = 0"
| "granted k s ((t, e) # es) =
     (if fst (step t e s) = Some k then 1 else 0) + granted k (snd (step t e s)) es"

lemma granted_bound:
  assumes "wf t0 s" and "sorted (map fst es)" and "\<forall>x \<in> set es. t0 \<le> fst x \<and> fst x \<le> t1" and "t0 \<le> t1"
  shows "of_nat (granted k s es) \<le> avail s k t0 + to_seconds (t1 - t0) * rt s"
  using assms
proof (induction es arbitrary: s t0)
  case Nil
  have "0 \<le> avail s k t1" using Nil.prems(1,4) by (blast intro: avail_nonneg wf_later)
  also have "\<dots> \<le> avail s k t0 + to_seconds (t1 - t0) * rt s"
    using Nil.prems(1,4) by (rule avail_later)
  finally show ?case by simp
next
  case (Cons x es)
  obtain t e where x: "x = (t, e)" by (cases x)
  let ?s = "snd (step t e s)"
  have t: "t0 \<le> t" "t \<le> t1" using Cons.prems(3) x by auto
  have wt: "wf t s" using Cons.prems(1) t(1) by (rule wf_later)
  have rest: "of_nat (granted k ?s es) \<le> avail ?s k t + to_seconds (t1 - t) * rt s"
    using Cons.IH [of t ?s] wf_step [OF wt, of e] Cons.prems(2,3) t(2) x by (simp add: rt_step)
  have pay: "avail ?s k t + (if fst (step t e s) = Some k then 1 else 0) \<le> avail s k t"
    using wt by (rule step_pays)
  have grow: "avail s k t \<le> avail s k t0 + to_seconds (t - t0) * rt s"
    using Cons.prems(1) t(1) by (rule avail_later)
  have "to_seconds (t - t0) * rt s + to_seconds (t1 - t) * rt s = to_seconds (t1 - t0) * rt s"
    by (simp add: to_seconds_def field_simps)
  with rest pay grow show ?case unfolding x by (auto split: if_splits)
qed

end

section \<open>The limiter is a source of tokens\<close>

datatype limit_event = Request string | Cleanup

definition limit_step :: "time \<Rightarrow> limit_event \<Rightarrow> limiter \<Rightarrow> string option \<times> limiter" where
  "limit_step now e l =
     (case e of
        Request ip \<Rightarrow> (let (ok, l') = Allow now ip l in (if ok then Some ip else None, l'))
      | Cleanup \<Rightarrow> (None, cleanupStale now l))"

text \<open>The tokens a client could use at a time: a full bucket if it has none.\<close>

definition available :: "limiter \<Rightarrow> string \<Rightarrow> time \<Rightarrow> rat" where
  "available l ip now =
     (case fmlookup (buckets l) ip of Some b \<Rightarrow> refill l now b | None \<Rightarrow> of_int (burst l))"

text \<open>
  The limiter's state at a time. The last conjunct is about the configuration: a bucket that is
  deleted as stale would be full again.
\<close>

definition limiter_ok :: "time \<Rightarrow> limiter \<Rightarrow> bool" where
  "limiter_ok t l \<longleftrightarrow>
     0 \<le> rate l \<and> 0 \<le> burst l \<and>
     (\<forall>ip b. fmlookup (buckets l) ip = Some b \<longrightarrow> 0 \<le> tokens b \<and> lastTime b \<le> t) \<and>
     of_int (burst l) \<le> to_seconds (2 * cleanupEvery l) * of_int (rate l)"

lemma to_seconds_mono: "a \<le> b \<Longrightarrow> to_seconds a \<le> to_seconds b"
  by (simp add: to_seconds_def divide_right_mono)

lemma to_seconds_nonneg: "0 \<le> a \<Longrightarrow> 0 \<le> to_seconds a"
  by (simp add: to_seconds_def)

lemma refill_min: "refill l now b =
    min (of_int (burst l)) (tokens b + to_seconds (now - lastTime b) * of_int (rate l))"
  by (simp add: refill_def Let_def min_def not_less)

lemma refill_le_burst: "refill l now b \<le> of_int (burst l)"
  by (simp add: refill_def Let_def)

lemma refill_nonneg:
  "0 \<le> tokens b \<Longrightarrow> lastTime b \<le> now \<Longrightarrow> 0 \<le> rate l \<Longrightarrow> 0 \<le> burst l \<Longrightarrow> 0 \<le> refill l now b"
  by (simp add: refill_def Let_def to_seconds_nonneg)

lemma refill_later:
  assumes "t \<le> t'" and "0 \<le> rate l"
  shows "refill l t' b \<le> refill l t b + to_seconds (t' - t) * of_int (rate l)"
proof -
  have "to_seconds (t' - lastTime b) * of_int (rate l) =
      to_seconds (t - lastTime b) * of_int (rate l) + to_seconds (t' - t) * of_int (rate l)"
    by (simp add: to_seconds_def field_simps)
  moreover have "0 \<le> to_seconds (t' - t) * (of_int (rate l) :: rat)"
    using assms by (intro mult_nonneg_nonneg to_seconds_nonneg) simp_all
  ultimately show ?thesis by (simp add: refill_def Let_def)
qed

lemma refill_fresh: "0 \<le> burst l \<Longrightarrow>
  refill l now \<lparr>tokens = of_int (burst l), lastTime = now, blocked = n\<rparr> = of_int (burst l)"
  by (simp add: refill_def to_seconds_def)

lemma Allow_fst: "0 \<le> burst l \<Longrightarrow> fst (Allow now ip l) = (1 \<le> available l ip now)"
  by (simp add: Allow_def available_def Let_def refill_fresh split: option.split)

lemma Allow_frame [simp]:
  "rate (snd (Allow now ip l)) = rate l" "burst (snd (Allow now ip l)) = burst l"
  "cleanupEvery (snd (Allow now ip l)) = cleanupEvery l"
  by (simp_all add: Allow_def Let_def)

lemma refill_now: "tokens b \<le> of_int (burst l) \<Longrightarrow> lastTime b = now \<Longrightarrow> refill l now b = tokens b"
  by (simp add: refill_def to_seconds_def)

lemma refill_cong: "rate l' = rate l \<Longrightarrow> burst l' = burst l \<Longrightarrow> refill l' now b = refill l now b"
  by (simp add: refill_def Let_def)

lemma refill_Allow [simp]: "refill (snd (Allow t ip l)) now b = refill l now b"
  by (rule refill_cong) simp_all

lemma Allow_lookup_other: "k \<noteq> ip \<Longrightarrow>
  fmlookup (buckets (snd (Allow now ip l))) k = fmlookup (buckets l) k"
  by (simp add: Allow_def Let_def)

lemma Allow_bucket:
  assumes "0 \<le> burst l"
  shows "\<exists>b. fmlookup (buckets (snd (Allow now ip l))) ip = Some b \<and> lastTime b = now \<and>
    tokens b = available l ip now - (if fst (Allow now ip l) then 1 else 0)"
  using assms
  by (auto simp: Allow_def available_def Let_def refill_fresh split: option.split)

lemma available_le_burst: "available l ip now \<le> of_int (burst l)"
  by (simp add: available_def refill_le_burst split: option.split)

lemma Allow_available:
  assumes "0 \<le> burst l"
  shows "available (snd (Allow now ip l)) k now =
    available l k now - (if k = ip \<and> fst (Allow now ip l) then 1 else 0)"
proof (cases "k = ip")
  case True
  obtain b where b: "fmlookup (buckets (snd (Allow now ip l))) ip = Some b" "lastTime b = now"
    "tokens b = available l ip now - (if fst (Allow now ip l) then 1 else 0)"
    using Allow_bucket [OF assms] by blast
  have "tokens b \<le> of_int (burst l)" using b(3) available_le_burst [of l ip now] by simp
  from this b(2) have "refill l now b = tokens b" by (rule refill_now)
  then have "available (snd (Allow now ip l)) ip now = tokens b"
    by (simp add: available_def [of "snd (Allow now ip l)"] b(1))
  with b(3) True show ?thesis by simp
next
  case False
  then show ?thesis
    by (simp add: available_def Allow_lookup_other split: option.split)
qed

lemma cleanupStale_lookup:
  "fmlookup (buckets (cleanupStale now l)) ip =
     (case fmlookup (buckets l) ip of None \<Rightarrow> None | Some b \<Rightarrow> if stale l now b then None else Some b)"
  by (simp add: cleanupStale_def split: option.split)

lemma cleanupStale_frame [simp]:
  "rate (cleanupStale now l) = rate l" "burst (cleanupStale now l) = burst l"
  "cleanupEvery (cleanupStale now l) = cleanupEvery l"
  by (simp_all add: cleanupStale_def)

lemma refill_cleanup [simp]: "refill (cleanupStale t l) now b = refill l now b"
  by (rule refill_cong) simp_all

text \<open>A stale bucket has filled up, so deleting it changes nothing for its client.\<close>

lemma cleanupStale_available:
  assumes "limiter_ok now l" and "now \<le> t"
  shows "available (cleanupStale now l) ip t = available l ip t"
proof (cases "fmlookup (buckets l) ip")
  case None
  then show ?thesis by (simp add: available_def cleanupStale_lookup)
next
  case (Some b)
  show ?thesis
  proof (cases "stale l now b")
    case False
    with Some show ?thesis by (simp add: available_def cleanupStale_lookup)
  next
    case True
    have "to_seconds (2 * cleanupEvery l) * of_int (rate l)
        \<le> to_seconds (t - lastTime b) * (of_int (rate l) :: rat)"
      using assms True
      by (intro mult_right_mono to_seconds_mono) (auto simp: stale_def limiter_ok_def)
    moreover have "0 \<le> tokens b" "of_int (burst l) \<le> to_seconds (2 * cleanupEvery l) * of_int (rate l)"
      using assms(1) Some by (auto simp: limiter_ok_def)
    ultimately have "refill l t b = of_int (burst l)"
      by (simp add: refill_def Let_def)
    with Some True show ?thesis by (simp add: available_def cleanupStale_lookup)
  qed
qed

lemma limiter_ok_step:
  assumes "limiter_ok t l"
  shows "limiter_ok t (snd (limit_step t e l))"
proof (cases e)
  case Cleanup
  with assms show ?thesis
    by (auto simp: limiter_ok_def limit_step_def cleanupStale_lookup split: option.splits if_splits)
next
  case (Request ip)
  have pos: "0 \<le> available l ip t"
    using assms by (auto simp: limiter_ok_def available_def intro: refill_nonneg split: option.split)
  have b0: "0 \<le> burst l" using assms by (simp add: limiter_ok_def)
  have "0 \<le> tokens b \<and> lastTime b \<le> t" if "fmlookup (buckets (snd (Allow t ip l))) k = Some b" for k b
  proof (cases "k = ip")
    case True
    with that Allow_bucket [OF b0, of t ip] Allow_fst [OF b0, of t ip] pos show ?thesis
      by (auto split: if_splits)
  next
    case False
    with that assms show ?thesis by (auto simp: Allow_lookup_other limiter_ok_def)
  qed
  with assms Request show ?thesis
    by (auto simp: limiter_ok_def limit_step_def Let_def split: prod.split)
      (metis Allow_frame snd_conv)+
qed

lemma available_nonneg:
  "limiter_ok t l \<Longrightarrow> t \<le> t' \<Longrightarrow> 0 \<le> available l ip t'"
  by (auto simp: limiter_ok_def available_def intro!: refill_nonneg split: option.split)
    (meson order_trans)

lemma available_later:
  assumes "limiter_ok t l" and "t \<le> t'"
  shows "available l ip t' \<le> available l ip t + to_seconds (t' - t) * of_int (rate l)"
proof (cases "fmlookup (buckets l) ip")
  case None
  have "0 \<le> to_seconds (t' - t) * (of_int (rate l) :: rat)"
    using assms by (intro mult_nonneg_nonneg to_seconds_nonneg) (simp_all add: limiter_ok_def)
  with None show ?thesis by (simp add: available_def)
next
  case (Some b)
  with assms show ?thesis by (simp add: available_def refill_later limiter_ok_def)
qed

lemma limit_step_Request:
  "limit_step t (Request ip) l =
     (if fst (Allow t ip l) then Some ip else None, snd (Allow t ip l))"
  by (simp add: limit_step_def split: prod.split)

lemma limit_step_available:
  assumes "limiter_ok t l"
  shows "available (snd (limit_step t e l)) k t
      + (if fst (limit_step t e l) = Some k then 1 else 0) = available l k t"
proof (cases e)
  case Cleanup
  with cleanupStale_available [OF assms order_refl, of k] show ?thesis
    by (simp add: limit_step_def)
next
  case (Request ip)
  have "0 \<le> burst l" using assms by (simp add: limiter_ok_def)
  from Allow_available [OF this, of t ip k] Request show ?thesis
    by (auto simp: limit_step_Request split: if_splits)
qed

lemma limit_step_rate [simp]:
  "rate (snd (limit_step t e l)) = rate l" "burst (snd (limit_step t e l)) = burst l"
  "cleanupEvery (snd (limit_step t e l)) = cleanupEvery l"
  by (cases e; simp add: limit_step_def split: prod.split; metis Allow_frame snd_conv)+

lemma limiter_ok_later: "limiter_ok t l \<Longrightarrow> t \<le> t' \<Longrightarrow> limiter_ok t' l"
  by (fastforce simp: limiter_ok_def)

interpretation limits: token_source limiter_ok available "\<lambda>l. of_int (rate l)" limit_step
proof unfold_locales
  show "limiter_ok t s \<Longrightarrow> 0 \<le> available s k t" for t s k
    using available_nonneg [of t s t k] by simp
  show "limiter_ok t s \<Longrightarrow> available (snd (limit_step t e s)) k t
      + (if fst (limit_step t e s) = Some k then 1 else 0) \<le> available s k t" for t s e k
    by (simp add: limit_step_available)
  show "limiter_ok t s \<Longrightarrow> t \<le> t' \<Longrightarrow> limiter_ok t' s" for t t' s
    by (rule limiter_ok_later)
qed (simp_all add: available_later limiter_ok_step)


section \<open>Decisions along a run\<close>

text \<open>The answers client \<open>ip\<close> gets to its requests, in order.\<close>

fun decisions :: "string \<Rightarrow> limiter \<Rightarrow> (time \<times> limit_event) list \<Rightarrow> bool list" where
  "decisions ip l [] = []"
| "decisions ip l ((t, Cleanup) # es) = decisions ip (cleanupStale t l) es"
| "decisions ip l ((t, Request k) # es) =
     (let (ok, l') = Allow t k l
      in if k = ip then ok # decisions ip l' es else decisions ip l' es)"

lemma limit_step_Cleanup: "limit_step t Cleanup l = (None, cleanupStale t l)"
  by (simp add: limit_step_def)

lemma count_decisions: "limits.granted ip l es = count_list (decisions ip l es) True"
  by (induction ip l es rule: decisions.induct)
    (simp_all add: limit_step_Request limit_step_Cleanup split: prod.split)

text \<open>Events whose times do not decrease, none before \<open>t0\<close>.\<close>

definition timed :: "time \<Rightarrow> (time \<times> 'e) list \<Rightarrow> bool" where
  "timed t0 es \<longleftrightarrow> sorted (map fst es) \<and> (\<forall>x \<in> set es. t0 \<le> fst x)"

lemma timed_Cons: "timed t0 ((t, e) # es) \<longleftrightarrow> t0 \<le> t \<and> timed t es"
  by (auto simp: timed_def)

lemma timed_Nil [simp]: "timed t0 []"
  by (simp add: timed_def)

text \<open>At most the burst and what the rate gives over the period.\<close>

text \<open>
  C4: in any period a client is granted at most its burst plus what the rate yields over the
  period, whatever the order of its requests, those of other clients and the clean-ups.
\<close>
theorem grants_bounded:
  assumes "limiter_ok t0 l" and "timed t0 es" and "\<forall>x \<in> set es. fst x \<le> t1" and "t0 \<le> t1"
  shows "of_nat (count_list (decisions ip l es) True)
    \<le> of_int (burst l) + to_seconds (t1 - t0) * of_int (rate l)"
proof -
  have "of_nat (limits.granted ip l es) \<le> available l ip t0 + to_seconds (t1 - t0) * of_int (rate l)"
    using assms by (intro limits.granted_bound) (auto simp: timed_def)
  also have "available l ip t0 \<le> of_int (burst l)" by (rule available_le_burst)
  finally show ?thesis by (simp add: count_decisions)
qed

text \<open>One client sends three requests at once and two more after half a second.\<close>

definition sample_requests :: "(time \<times> limit_event) list" where
  "sample_requests =
     [(0, Request ''10.0.0.1''), (0, Request ''10.0.0.1''), (0, Request ''10.0.0.2''),
      (0, Request ''10.0.0.1''), (1, Cleanup),
      (500 * millisecond, Request ''10.0.0.1''), (500 * millisecond, Request ''10.0.0.1'')]"

lemma limiter_ok_New:
  "0 \<le> r \<Longrightarrow> 0 \<le> b \<Longrightarrow> of_int b \<le> to_seconds (2 * c) * of_int r \<Longrightarrow> limiter_ok t (New_limiter r b c)"
  by (simp add: limiter_ok_def New_limiter_def)

lemma sample_limiter_ok: "limiter_ok 0 (New_limiter 2 2 (5 * minute))"
  by (rule limiter_ok_New) (simp_all add: to_seconds_def)

theorem grants_bounded_witness:
  "of_nat (count_list (decisions ''10.0.0.1'' (New_limiter 2 2 (5 * minute)) sample_requests) True)
     \<le> of_int (burst (New_limiter 2 2 (5 * minute)))
        + to_seconds (second - 0) * of_int (rate (New_limiter 2 2 (5 * minute)))
   \<and> decisions ''10.0.0.1'' (New_limiter 2 2 (5 * minute)) sample_requests
     = [True, True, False, True, False]"
proof
  show "of_nat (count_list (decisions ''10.0.0.1'' (New_limiter 2 2 (5 * minute)) sample_requests) True)
     \<le> of_int (burst (New_limiter 2 2 (5 * minute)))
        + to_seconds (second - 0) * of_int (rate (New_limiter 2 2 (5 * minute)))"
    by (rule grants_bounded [OF sample_limiter_ok]) (simp_all add: sample_requests_def timed_def)
  show "decisions ''10.0.0.1'' (New_limiter 2 2 (5 * minute)) sample_requests
     = [True, True, False, True, False]"
    by code_simp
qed

section \<open>A client's answers depend on its own requests only\<close>

text \<open>Two limiters that will always give every client the same number of tokens.\<close>

definition alike :: "string \<Rightarrow> time \<Rightarrow> limiter \<Rightarrow> limiter \<Rightarrow> bool" where
  "alike ip t l l' \<longleftrightarrow> limiter_ok t l \<and> limiter_ok t l' \<and>
     rate l = rate l' \<and> burst l = burst l' \<and> (\<forall>u \<ge> t. available l ip u = available l' ip u)"

lemma available_after:
  assumes "0 \<le> burst l" and "t \<le> u"
  shows "available (snd (Allow t ip l)) ip u =
    min (of_int (burst l)) (available (snd (Allow t ip l)) ip t + to_seconds (u - t) * of_int (rate l))"
proof -
  obtain b where b: "fmlookup (buckets (snd (Allow t ip l))) ip = Some b" "lastTime b = t"
    "tokens b = available l ip t - (if fst (Allow t ip l) then 1 else 0)"
    using Allow_bucket [OF assms(1)] by blast
  have "tokens b \<le> of_int (burst l)" using b(3) available_le_burst [of l ip t] by simp
  from this b(2) have "refill l t b = tokens b" by (rule refill_now)
  then have now: "available (snd (Allow t ip l)) ip t = tokens b"
    by (simp add: available_def [of "snd (Allow t ip l)"] b(1))
  have "available (snd (Allow t ip l)) ip u = refill l u b"
    by (simp add: available_def [of "snd (Allow t ip l)"] b(1))
  also have "refill l u b = min (of_int (burst l)) (tokens b + to_seconds (u - t) * of_int (rate l))"
    unfolding refill_min b(2) ..
  finally show ?thesis unfolding now .
qed

lemma alike_later: "alike ip t l l' \<Longrightarrow> t \<le> u \<Longrightarrow> alike ip u l l'"
  using limiter_ok_later by (auto simp: alike_def)

lemma alike_cleanup: "alike ip t l l' \<Longrightarrow> alike ip t (cleanupStale t l) l'"
  using limiter_ok_step [of t l Cleanup]
  by (simp add: alike_def limit_step_def cleanupStale_available)

lemma limiter_ok_Allow: "limiter_ok t l \<Longrightarrow> limiter_ok t (snd (Allow t ip l))"
  using limiter_ok_step [of t l "Request ip"] by (simp add: limit_step_Request)

lemma alike_other: "alike ip t l l' \<Longrightarrow> k \<noteq> ip \<Longrightarrow> alike ip t (snd (Allow t k l)) l'"
  using limiter_ok_Allow [of t l k]
  by (auto simp: alike_def available_def Allow_lookup_other split: option.split)

lemma alike_same:
  assumes "alike ip t l l'"
  shows "fst (Allow t ip l) = fst (Allow t ip l')"
    and "alike ip t (snd (Allow t ip l)) (snd (Allow t ip l'))"
proof -
  have b: "0 \<le> burst l" "burst l' = burst l" "rate l' = rate l" "available l ip t = available l' ip t"
    using assms by (auto simp: alike_def limiter_ok_def)
  then show eq: "fst (Allow t ip l) = fst (Allow t ip l')" by (simp add: Allow_fst)
  have "available (snd (Allow t ip l)) ip u = available (snd (Allow t ip l')) ip u" if "t \<le> u" for u
    using available_after [of l t u ip] available_after [of l' t u ip] Allow_available [of l t ip ip]
      Allow_available [of l' t ip ip] b eq that
    by simp
  with assms show "alike ip t (snd (Allow t ip l)) (snd (Allow t ip l'))"
    by (simp add: alike_def limiter_ok_Allow)
qed

definition own_request :: "string \<Rightarrow> time \<times> limit_event \<Rightarrow> bool" where
  "own_request ip x \<longleftrightarrow> snd x = Request ip"

lemma decisions_alike:
  assumes "alike ip t0 l l'" and "timed t0 es"
  shows "decisions ip l es = decisions ip l' (filter (own_request ip) es)"
  using assms
proof (induction ip l es arbitrary: t0 l' rule: decisions.induct)
  case (1 ip l)
  then show ?case by simp
next
  case (2 ip l t es)
  then have "alike ip t l l'" by (auto simp: timed_Cons intro: alike_later)
  then have "alike ip t (cleanupStale t l) l'" by (rule alike_cleanup)
  with 2 show ?case by (simp add: timed_Cons own_request_def)
next
  case (3 ip l t k es)
  obtain ok l1 where a: "Allow t k l = (ok, l1)" by (cases "Allow t k l")
  have al: "alike ip t l l'" using 3 by (auto simp: timed_Cons intro: alike_later)
  show ?case
  proof (cases "k = ip")
    case False
    with al a have "alike ip t l1 l'" using alike_other [OF al, of k] by simp
    with 3 a False show ?thesis by (simp add: timed_Cons own_request_def)
  next
    case True
    obtain ok' l2 where a': "Allow t ip l' = (ok', l2)" by (cases "Allow t ip l'")
    from alike_same [OF al] a a' True have "ok' = ok" "alike ip t l1 l2" by simp_all
    with 3 a a' True show ?thesis by (simp add: timed_Cons own_request_def)
  qed
qed

text \<open>
  C21: the answers a client gets depend on its own requests only: leaving out the requests of all
  other clients and every clean-up changes none of them.
\<close>
theorem decisions_isolated:
  assumes "limiter_ok t0 l" and "timed t0 es"
  shows "decisions ip l es = decisions ip l (filter (own_request ip) es)"
  using assms by (intro decisions_alike [where ?t0.0 = t0]) (simp_all add: alike_def)

theorem decisions_isolated_witness:
  "decisions ''10.0.0.1'' (New_limiter 2 2 (5 * minute)) sample_requests =
     decisions ''10.0.0.1'' (New_limiter 2 2 (5 * minute))
       (filter (own_request ''10.0.0.1'') sample_requests)
   \<and> length (filter (own_request ''10.0.0.1'') sample_requests) < length sample_requests"
proof
  show "decisions ''10.0.0.1'' (New_limiter 2 2 (5 * minute)) sample_requests =
     decisions ''10.0.0.1'' (New_limiter 2 2 (5 * minute))
       (filter (own_request ''10.0.0.1'') sample_requests)"
    by (rule decisions_isolated [OF sample_limiter_ok]) (simp add: sample_requests_def timed_def)
  show "length (filter (own_request ''10.0.0.1'') sample_requests) < length sample_requests"
    by (simp add: sample_requests_def own_request_def)
qed

section \<open>A client within its rate is never refused\<close>

text \<open>Consecutive requests of \<open>ip\<close> are far enough apart for one token each.\<close>

fun spaced :: "string \<Rightarrow> int \<Rightarrow> time option \<Rightarrow> (time \<times> limit_event) list \<Rightarrow> bool" where
  "spaced ip r prev [] = True"
| "spaced ip r prev ((t, e) # es) =
     (if e = Request ip
      then (case prev of None \<Rightarrow> True | Some u \<Rightarrow> 1 \<le> to_seconds (t - u) * of_int r)
           \<and> spaced ip r (Some t) es
      else spaced ip r prev es)"

lemma own_decisions_all_granted:
  assumes "limiter_ok t0 l" and "timed t0 es" and "\<forall>x \<in> set es. snd x = Request ip"
    and "spaced ip (rate l) prev es" and "1 \<le> burst l"
    and "\<forall>t \<ge> t0. (case prev of None \<Rightarrow> True | Some u \<Rightarrow> 1 \<le> to_seconds (t - u) * of_int (rate l))
            \<longrightarrow> 1 \<le> available l ip t"
  shows "set (decisions ip l es) \<subseteq> {True}"
  using assms
proof (induction es arbitrary: l prev t0)
  case Nil
  then show ?case by simp
next
  case (Cons x es)
  then obtain t where x: "x = (t, Request ip)" by (cases x) auto
  let ?l = "snd (Allow t ip l)"
  have b: "0 \<le> burst l" using Cons.prems(5) by simp
  have t: "t0 \<le> t" "timed t es" using Cons.prems(2) x by (simp_all add: timed_Cons)
  have sp: "case prev of None \<Rightarrow> True | Some u \<Rightarrow> 1 \<le> to_seconds (t - u) * of_int (rate l)"
      "spaced ip (rate l) (Some t) es"
    using Cons.prems(4) x by simp_all
  have ok: "limiter_ok t l" using Cons.prems(1) t(1) by (rule limiter_ok_later)
  have av: "1 \<le> available l ip t" using Cons.prems(6) t(1) sp(1) by blast
  then have yes: "fst (Allow t ip l)" by (simp add: Allow_fst [OF b])
  have later: "1 \<le> available ?l ip u" if "t \<le> u" "1 \<le> to_seconds (u - t) * of_int (rate l)" for u
  proof -
    have "0 \<le> available ?l ip t" using av by (simp add: Allow_available [OF b])
    with that Cons.prems(5) show ?thesis by (simp add: available_after [OF b that(1)])
  qed
  have "set (decisions ip ?l es) \<subseteq> {True}"
    by (rule Cons.IH [of t _ "Some t"])
      (use Cons.prems(3,5) t(2) sp(2) limiter_ok_Allow [OF ok] in \<open>simp_all add: later\<close>)
  with yes show ?case unfolding x by (cases "Allow t ip l") simp
qed

text \<open>
  C22: a client that keeps its requests one token apart is never refused, whatever the other
  clients do: no flood from elsewhere and no clean-up costs it an answer.
\<close>
theorem polite_client_never_refused:
  assumes "limiter_ok t0 l" and "timed t0 es" and "1 \<le> burst l" and "fmlookup (buckets l) ip = None"
    and "spaced ip (rate l) None es"
  shows "set (decisions ip l es) \<subseteq> {True}"
proof -
  have sp: "spaced ip r prev es \<Longrightarrow> spaced ip r prev (filter (own_request ip) es)" for r prev
    by (induction ip r prev es rule: spaced.induct) (auto simp: own_request_def)
  have "timed t0 (filter (own_request ip) es)"
    using assms(2) by (auto simp: timed_def intro: sorted_filter)
  with assms sp show ?thesis
    unfolding decisions_alike [of ip t0 l l es, simplified alike_def, simplified, OF assms(1,2)]
    by (intro own_decisions_all_granted [of t0 _ _ _ None])
      (auto simp: own_request_def available_def)
qed

definition polite_and_flood :: "(time \<times> limit_event) list" where
  "polite_and_flood =
     [(0, Request ''10.0.0.1''), (0, Request ''10.0.0.2''), (0, Request ''10.0.0.2''),
      (0, Request ''10.0.0.2''), (500 * millisecond, Request ''10.0.0.1''),
      (600 * millisecond, Cleanup), (second, Request ''10.0.0.1'')]"

theorem polite_client_never_refused_witness:
  "set (decisions ''10.0.0.1'' (New_limiter 2 2 (5 * minute)) polite_and_flood) \<subseteq> {True}
   \<and> False \<in> set (decisions ''10.0.0.2'' (New_limiter 2 2 (5 * minute)) polite_and_flood)"
proof
  show "set (decisions ''10.0.0.1'' (New_limiter 2 2 (5 * minute)) polite_and_flood) \<subseteq> {True}"
    by (rule polite_client_never_refused [OF sample_limiter_ok])
      (simp_all add: polite_and_flood_def timed_def New_limiter_def to_seconds_def)
  show "False \<in> set (decisions ''10.0.0.2'' (New_limiter 2 2 (5 * minute)) polite_and_flood)"
    by code_simp
qed

section \<open>What the dashboard reads\<close>

text \<open>The list shown is one line for each client refused since its bucket was made.\<close>

lemma GetAllStats_lists_refused:
  assumes "enumerates ord"
  shows "rsIP ` set (GetAllStats ord l) = {ip. 0 < fst (GetStats ip l)}"
  using assms
  by (force simp: GetAllStats_def GetStats_def enumerates_set fmlookup_dom_iff
      split: option.splits if_splits)

lemma refusals_counted: "0 \<le> burst l \<Longrightarrow>
  fst (GetStats ip (snd (Allow now ip l))) =
    fst (GetStats ip l) + (if fst (Allow now ip l) then 0 else 1)"
  by (simp add: GetStats_def Allow_def Let_def split: option.split)

end
