(* ===== verification/BlockFilter.thy ===== *)
theory BlockFilter
  imports DnsMsg
begin

text \<open>
  The blocklist filter, \<^verbatim>\<open>internal/filter/filter.go\<close>: the verdict on a name with its statistics,
  the parser of hosts files, loading of all sources, the manual lists, and the on/off switch.
  A goroutine started with \<^verbatim>\<open>go f.LoadBlocklists()\<close> is counted in \<open>loads_started\<close>; its effect is
  the operation \<open>LoadBlocklists\<close>.
\<close>

section \<open>State\<close>

record blocked_stat =
  bsDomain :: string
  bsCount :: u64

record filter_config =
  fcEnabled :: bool
  fcBlocklistDir :: string
  fcSources :: "string list"
  fcWhitelistFile :: string
  fcBlacklistFile :: string
  fcUpdateInterval :: duration
  fcBlockResponse :: string

record dns_filter =
  blocked_names :: "string fset"
  whitelist :: "string fset"
  blacklist :: "string fset"
  blocklistDir :: string
  sources :: "string list"
  enabled :: bool
  updateInterval :: duration
  TotalBlocked :: u64
  TotalAllowed :: u64
  BlocklistSize :: int
  blockedCounts :: "(string, u64) fmap"
  autoUpdateRunning :: bool
  loads_started :: nat

definition DefaultBlocklistURLs :: "string list" where
  "DefaultBlocklistURLs =
     [''https://raw.githubusercontent.com/StevenBlack/hosts/master/hosts'',
      ''https://adaway.org/hosts.txt'',
      ''https://pgl.yoyo.org/adservers/serverlist.php?hostformat=hosts&showintro=0'',
      ''https://raw.githubusercontent.com/hagezi/dns-blocklists/main/hosts/pro.txt'']"

definition DefaultFilterConfig :: filter_config where
  "DefaultFilterConfig = \<lparr>fcEnabled = True, fcBlocklistDir = ''/var/lib/dns-server/blocklists'',
     fcSources = DefaultBlocklistURLs, fcWhitelistFile = [], fcBlacklistFile = [],
     fcUpdateInterval = 24 * hour, fcBlockResponse = ''zero''\<rparr>"

text \<open>
  What the filter reads from outside: the status and body of a download, the contents of a file,
  the entries of a directory (name, whether a directory). A body cut off by an error is the part
  that arrived.
\<close>

record filter_world =
  http_get :: "string \<Rightarrow> go_error + (int \<times> string)"
  read_file :: "string \<Rightarrow> go_error + string"
  read_dir :: "string \<Rightarrow> go_error + (string \<times> bool) list"

section \<open>The verdict on a name\<close>

definition max_blocked_counts :: nat where "max_blocked_counts = 10000"

definition recordBlocked :: "(string fset \<Rightarrow> string list) \<Rightarrow> string \<Rightarrow> dns_filter \<Rightarrow> dns_filter" where
  "recordBlocked ord domain f =
     (let n = (case fmlookup (blockedCounts f) domain of Some v \<Rightarrow> v | None \<Rightarrow> 0);
          m = fmupd domain (n + 1) (blockedCounts f)
      in f\<lparr>blockedCounts := if max_blocked_counts < mlen m then evict_min id ord m else m\<rparr>)"

definition parent_blocked :: "dns_filter \<Rightarrow> string \<Rightarrow> bool" where
  "parent_blocked f domain =
     (let parts = Split (TrimSuffix domain dot) CHR ''.'' in
      list_ex (\<lambda>i. Join (drop i parts) dot @ dot |\<in>| blocked_names f) [1..<length parts])"

definition IsBlocked :: "dns_lib \<Rightarrow> (string fset \<Rightarrow> string list) \<Rightarrow> string \<Rightarrow> dns_filter
    \<Rightarrow> bool \<times> dns_filter" where
  "IsBlocked L ord name f =
     (if \<not> enabled f then (False, f)
      else let domain = ToLower (CanonicalName L name);
               allow = (False, f\<lparr>TotalAllowed := TotalAllowed f + 1\<rparr>);
               block = (True, recordBlocked ord domain (f\<lparr>TotalBlocked := TotalBlocked f + 1\<rparr>))
           in if domain |\<in>| whitelist f then allow
              else if domain |\<in>| blacklist f then block
              else if domain |\<in>| blocked_names f then block
              else if parent_blocked f domain then block
              else allow)"

definition BlockedCount :: "dns_filter \<Rightarrow> nat" where "BlockedCount f = fcard (blocked_names f)"

definition BlacklistCount :: "dns_filter \<Rightarrow> nat" where "BlacklistCount f = fcard (blacklist f)"

text \<open>\<^verbatim>\<open>make\<close> panics on a negative capacity (\<open>None\<close>); the length is tested after the append.\<close>

definition SampleBlocked :: "(string fset \<Rightarrow> string list) \<Rightarrow> int \<Rightarrow> dns_filter \<Rightarrow> string list option" where
  "SampleBlocked ord n f =
     (if n < 0 then None else Some (take (max 1 (nat n)) (ord (blocked_names f))))"

definition filter_Stats :: "dns_filter \<Rightarrow> u64 \<times> u64 \<times> int" where
  "filter_Stats f = (TotalBlocked f, TotalAllowed f, BlocklistSize f)"

text \<open>
  The sort is not stable and the map is visited in any order; a stable sort of any enumeration
  has the same possible results. Slicing with a negative limit panics.
\<close>

definition GetTopBlocked :: "(string fset \<Rightarrow> string list) \<Rightarrow> int \<Rightarrow> dns_filter
    \<Rightarrow> blocked_stat list option" where
  "GetTopBlocked ord limit f =
     (let stats = sort_key (\<lambda>s. - uint (bsCount s))
            (map (\<lambda>d. \<lparr>bsDomain = d, bsCount = the (fmlookup (blockedCounts f) d)\<rparr>)
              (ord (fmdom (blockedCounts f))));
          limit = (if int (length stats) < limit then int (length stats) else limit)
      in if limit < 0 then None else Some (take (nat limit) stats))"

section \<open>The answer for a blocked name\<close>

definition BlockedResponse :: "dns_lib \<Rightarrow> msg \<Rightarrow> string \<Rightarrow> msg" where
  "BlockedResponse L r blockType =
     (let resp = (SetReply L new_msg r)\<lparr>RecursionAvailable := True\<rparr> in
      if blockType = ''nxdomain'' then resp\<lparr>Rcode := RcodeNameError\<rparr>
      else if blockType = ''refused'' then resp\<lparr>Rcode := RcodeRefused\<rparr>
      else let resp = resp\<lparr>Rcode := RcodeSuccess\<rparr> in
        (case Question r of
           [] \<Rightarrow> resp
         | q # _ \<Rightarrow>
             let h = \<lparr>hName = qName q, hRrtype = qType q, hClass = ClassINET, hTtl = 300\<rparr> in
             if qType q = TypeA
             then resp\<lparr>Answer := Answer resp @ [RR_A h (the (ParseIP ''0.0.0.0''))]\<rparr>
             else if qType q = TypeAAAA
             then resp\<lparr>Answer := Answer resp @ [RR_AAAA h (the (ParseIP ''::''))]\<rparr>
             else resp))"

section \<open>Hosts files\<close>

text \<open>
  The domain a line contributes, \<open>None\<close> where the loop continues with the next line.
\<close>

definition line_domain :: "string \<Rightarrow> string option" where
  "line_domain text =
     (let line = TrimSpace text in
      if line = [] \<or> HasPrefix line ''#'' \<or> HasPrefix line ''!'' then None
      else let fields = Fields line;
               field =
                 (if 2 \<le> length fields \<and> (fields ! 0 = ''0.0.0.0'' \<or> fields ! 0 = ''127.0.0.1'')
                  then Some (fields ! 1)
                  else if length fields = 1 then Some (fields ! 0) else None)
           in case field of
                None \<Rightarrow> None
              | Some d \<Rightarrow>
                  let domain = ToLower (TrimSpace d) in
                  if domain = [] \<or> domain = ''localhost'' \<or> domain = ''localhost.localdomain''
                  then None
                  else if ParseIP domain \<noteq> None then None
                  else Some (if HasSuffix domain dot then domain else domain @ dot))"

fun parse_lines :: "string list \<Rightarrow> nat \<Rightarrow> string fset \<Rightarrow> nat \<times> string fset" where
  "parse_lines [] cnt bl = (cnt, bl)"
| "parse_lines (l # ls) cnt bl =
     (case line_domain l of
        None \<Rightarrow> parse_lines ls cnt bl
      | Some d \<Rightarrow> parse_lines ls (Suc cnt) (finsert d bl))"

definition parseHostsFile :: "string \<Rightarrow> string fset \<Rightarrow> nat \<times> string fset" where
  "parseHostsFile contents bl = parse_lines (scan_lines max_scan_token contents) 0 bl"

section \<open>Loading the sources\<close>

definition loadSource :: "filter_world \<Rightarrow> string \<Rightarrow> string fset \<Rightarrow> (go_error + nat) \<times> string fset" where
  "loadSource w source bl =
     (if HasPrefix source ''http://'' \<or> HasPrefix source ''https://'' then
        (case http_get w source of
           Inl err \<Rightarrow> (Inl (''download failed: '' @ err), bl)
         | Inr (status, body) \<Rightarrow>
             if status \<noteq> 200 then (Inl (''HTTP '' @ Itoa status), bl)
             else (let (cnt, bl') = parseHostsFile body bl in (Inr cnt, bl')))
      else
        (case read_file w source of
           Inl err \<Rightarrow> (Inl err, bl)
         | Inr contents \<Rightarrow> (let (cnt, bl') = parseHostsFile contents bl in (Inr cnt, bl'))))"

fun load_sources :: "filter_world \<Rightarrow> string list \<Rightarrow> nat \<Rightarrow> string fset \<Rightarrow> nat \<times> string fset" where
  "load_sources w [] sum_all bl = (sum_all, bl)"
| "load_sources w (src # srcs) sum_all bl =
     (case loadSource w src bl of
        (Inl err, bl') \<Rightarrow> load_sources w srcs sum_all bl'
      | (Inr cnt, bl') \<Rightarrow> load_sources w srcs (sum_all + cnt) bl')"

text \<open>\<^verbatim>\<open>filepath.Join\<close> of a directory and a name without separators.\<close>

definition path_join :: "string \<Rightarrow> string \<Rightarrow> string" where
  "path_join dir nm = (if dir = [] then nm else dir @ ''/'' @ nm)"

fun load_entries :: "filter_world \<Rightarrow> string \<Rightarrow> (string \<times> bool) list \<Rightarrow> nat \<Rightarrow> string fset
    \<Rightarrow> nat \<times> string fset" where
  "load_entries w dir [] cnt bl = (cnt, bl)"
| "load_entries w dir ((nm, is_dir) # es) cnt bl =
     (if is_dir \<or> HasPrefix nm dot then load_entries w dir es cnt bl
      else case read_file w (path_join dir nm) of
             Inl err \<Rightarrow> load_entries w dir es cnt bl
           | Inr contents \<Rightarrow>
               (let (c, bl') = parseHostsFile contents bl
                in load_entries w dir es (cnt + c) bl'))"

definition loadLocalFiles :: "filter_world \<Rightarrow> dns_filter \<Rightarrow> string fset \<Rightarrow> nat \<times> string fset" where
  "loadLocalFiles w f bl =
     (case read_dir w (blocklistDir f) of
        Inl err \<Rightarrow> (0, bl)
      | Inr es \<Rightarrow> load_entries w (blocklistDir f) es 0 bl)"

definition LoadBlocklists :: "filter_world \<Rightarrow> dns_filter \<Rightarrow> dns_filter" where
  "LoadBlocklists w f =
     (let (sum_all, bl) = load_sources w (sources f) 0 {||};
          (local_count, bl) = loadLocalFiles w f bl
      in f\<lparr>blocked_names := bl, BlocklistSize := int (sum_all + local_count)\<rparr>)"

section \<open>The manual lists\<close>

fun list_lines :: "string list \<Rightarrow> string fset \<Rightarrow> string fset" where
  "list_lines [] names = names"
| "list_lines (l # ls) names =
     (let line = TrimSpace l in
      if line = [] \<or> HasPrefix line ''#'' then list_lines ls names
      else let domain = ToLower line in
        list_lines ls (finsert (if HasSuffix domain dot then domain else domain @ dot) names))"

definition loadListFile :: "filter_world \<Rightarrow> string \<Rightarrow> string fset \<Rightarrow> string fset" where
  "loadListFile w path names =
     (case read_file w path of
        Inl err \<Rightarrow> names
      | Inr contents \<Rightarrow> list_lines (scan_lines max_scan_token contents) names)"

definition AddToWhitelist :: "dns_lib \<Rightarrow> string \<Rightarrow> dns_filter \<Rightarrow> dns_filter" where
  "AddToWhitelist L domain f = f\<lparr>whitelist := finsert (ToLower (CanonicalName L domain)) (whitelist f)\<rparr>"

definition RemoveFromWhitelist :: "dns_lib \<Rightarrow> string \<Rightarrow> dns_filter \<Rightarrow> dns_filter" where
  "RemoveFromWhitelist L domain f = f\<lparr>whitelist := whitelist f |-| {|ToLower (CanonicalName L domain)|}\<rparr>"

definition AddToBlacklist :: "dns_lib \<Rightarrow> string \<Rightarrow> dns_filter \<Rightarrow> dns_filter" where
  "AddToBlacklist L domain f = f\<lparr>blacklist := finsert (ToLower (CanonicalName L domain)) (blacklist f)\<rparr>"

definition RemoveFromBlacklist :: "dns_lib \<Rightarrow> string \<Rightarrow> dns_filter \<Rightarrow> dns_filter" where
  "RemoveFromBlacklist L domain f = f\<lparr>blacklist := blacklist f |-| {|ToLower (CanonicalName L domain)|}\<rparr>"

definition GetWhitelist :: "(string fset \<Rightarrow> string list) \<Rightarrow> dns_filter \<Rightarrow> string list" where
  "GetWhitelist ord f = ord (whitelist f)"

definition GetBlacklist :: "(string fset \<Rightarrow> string list) \<Rightarrow> dns_filter \<Rightarrow> string list" where
  "GetBlacklist ord f = ord (blacklist f)"

section \<open>Switching and starting\<close>

text \<open>The goroutine runs until \<^verbatim>\<open>Stop\<close>, so a second one is never started.\<close>

definition startAutoUpdate :: "dns_filter \<Rightarrow> dns_filter" where
  "startAutoUpdate f = (if autoUpdateRunning f then f else f\<lparr>autoUpdateRunning := True\<rparr>)"

text \<open>One tick of the update goroutine, and its end.\<close>

definition autoUpdate_tick :: "filter_world \<Rightarrow> dns_filter \<Rightarrow> dns_filter" where
  "autoUpdate_tick w f = (if enabled f then LoadBlocklists w f else f)"

definition autoUpdate_stop :: "dns_filter \<Rightarrow> dns_filter" where
  "autoUpdate_stop f = f\<lparr>autoUpdateRunning := False\<rparr>"

definition start_load :: "dns_filter \<Rightarrow> dns_filter" where
  "start_load f = f\<lparr>loads_started := Suc (loads_started f)\<rparr>"

definition ReloadIfNeeded :: "dns_filter \<Rightarrow> dns_filter" where
  "ReloadIfNeeded f =
     (if fcard (blocked_names f) = 0 \<and> 0 < length (sources f) then start_load f else f)"

definition SetEnabled :: "bool \<Rightarrow> dns_filter \<Rightarrow> dns_filter" where
  "SetEnabled on f =
     (let wasEnabled = enabled f; f = f\<lparr>enabled := on\<rparr> in
      if on \<and> \<not> wasEnabled then
        let f = (if fcard (blocked_names f) = 0 \<and> 0 < length (sources f) then start_load f else f)
        in if 0 < updateInterval f then startAutoUpdate f else f
      else f)"

definition SetSources :: "string list \<Rightarrow> dns_filter \<Rightarrow> dns_filter" where
  "SetSources srcs f = f\<lparr>sources := srcs\<rparr>"

definition New_filter :: "filter_world \<Rightarrow> filter_config \<Rightarrow> dns_filter" where
  "New_filter w cfg =
     (let f = \<lparr>blocked_names = {||}, whitelist = {||}, blacklist = {||},
            blocklistDir = fcBlocklistDir cfg, sources = fcSources cfg, enabled = fcEnabled cfg,
            updateInterval = fcUpdateInterval cfg, TotalBlocked = 0, TotalAllowed = 0,
            BlocklistSize = 0, blockedCounts = fmempty, autoUpdateRunning = False,
            loads_started = 0\<rparr>;
          f = (if fcWhitelistFile cfg \<noteq> []
               then f\<lparr>whitelist := loadListFile w (fcWhitelistFile cfg) (whitelist f)\<rparr> else f);
          f = (if fcBlacklistFile cfg \<noteq> []
               then f\<lparr>blacklist := loadListFile w (fcBlacklistFile cfg) (blacklist f)\<rparr> else f);
          f = (if enabled f \<and> 0 < length (sources f) then start_load f else f)
      in if enabled f \<and> 0 < fcUpdateInterval cfg then startAutoUpdate f else f)"

end
