(* ===== verification/FilterCorrect.thy ===== *)
theory FilterCorrect
  imports BlockFilter
begin

text \<open>
  What the filter promises: the verdict in terms of names and suffixes, the parser against hosts
  files written line by line, loading as a union over the sources that could be read, the bound
  on the statistics table, and the invariant of all operations.
\<close>

section \<open>Parents of a name\<close>

definition dotted :: "string fset \<Rightarrow> bool" where
  "dotted F \<longleftrightarrow> fBall F (\<lambda>n. HasSuffix n dot)"

lemma parent_blocked_suffix:
  assumes "dotted (blocked_names f)" and "HasSuffix n dot"
  shows "parent_blocked f n \<longleftrightarrow> (\<exists>b. b |\<in>| blocked_names f \<and> suffix (CHR ''.'' # b) n)"
proof -
  obtain m where n: "n = m @ dot" using assms(2) by (auto simp: HasSuffix_def suffix_def)
  let ?p = "\<lambda>i. Join (drop i (Split m CHR ''.'')) dot"
  have "parent_blocked f n \<longleftrightarrow>
      (\<exists>i. 0 < i \<and> i < length (Split m CHR ''.'') \<and> ?p i @ dot |\<in>| blocked_names f)"
    by (auto simp: parent_blocked_def n list_ex_iff Suc_le_eq Let_def)
  also have "\<dots> \<longleftrightarrow> (\<exists>q. suffix (CHR ''.'' # q) m \<and> q @ dot |\<in>| blocked_names f)"
    using Split_drop [of _ m "CHR ''.''"] Split_suffix_ex [of "CHR ''.''" _ m] by metis
  also have "\<dots> \<longleftrightarrow> (\<exists>b. b |\<in>| blocked_names f \<and> suffix (CHR ''.'' # b) n)"
  proof
    assume "\<exists>q. suffix (CHR ''.'' # q) m \<and> q @ dot |\<in>| blocked_names f"
    then show "\<exists>b. b |\<in>| blocked_names f \<and> suffix (CHR ''.'' # b) n"
      unfolding n by (metis append_Cons same_suffix_suffix suffix_def append_assoc)
  next
    assume "\<exists>b. b |\<in>| blocked_names f \<and> suffix (CHR ''.'' # b) n"
    then obtain b p where b: "b |\<in>| blocked_names f" "n = p @ CHR ''.'' # b"
      by (auto simp: suffix_def)
    then obtain q where "b = q @ dot"
      using assms(1) by (auto simp: dotted_def HasSuffix_def suffix_def)
    with b n show "\<exists>q. suffix (CHR ''.'' # q) m \<and> q @ dot |\<in>| blocked_names f"
      by (auto simp: suffix_def)
  qed
  finally show ?thesis .
qed

section \<open>The verdict\<close>

text \<open>The specification: on the whitelist, or on one of the other lists itself or by a parent.\<close>

definition should_block :: "dns_filter \<Rightarrow> string \<Rightarrow> bool" where
  "should_block f n \<longleftrightarrow>
     enabled f \<and> n |\<notin>| whitelist f \<and>
     (n |\<in>| blacklist f \<or> n |\<in>| blocked_names f
      \<or> (\<exists>b. b |\<in>| blocked_names f \<and> suffix (CHR ''.'' # b) n))"

lemma canonical_dot: "names_ok L \<Longrightarrow> HasSuffix (ToLower (CanonicalName L d)) dot"
  by (simp add: names_ok_dot)

text \<open>
  C5: a query is blocked exactly when the filter is on, the name is not on the whitelist, and the
  name is on the blacklist, on the blocklist, or below a name of the blocklist.
\<close>
theorem IsBlocked_iff_should_block:
  assumes "names_ok L" and "dotted (blocked_names f)"
  shows "fst (IsBlocked L ord d f) \<longleftrightarrow> should_block f (ToLower (CanonicalName L d))"
  unfolding IsBlocked_def should_block_def Let_def
    parent_blocked_suffix [OF assms(2) canonical_dot [OF assms(1)], symmetric]
  by simp

definition sample_filter :: dns_filter where
  "sample_filter = \<lparr>blocked_names = {|''ads.example.'', ''tracker.net.''|},
     whitelist = {|''good.ads.example.''|}, blacklist = {|''bad.org.''|}, blocklistDir = ''/lists'',
     sources = [''http://a/'', ''/b''], enabled = True, updateInterval = hour, TotalBlocked = 0,
     TotalAllowed = 0, BlocklistSize = 2, blockedCounts = fmempty, autoUpdateRunning = False,
     loads_started = 0\<rparr>"

theorem IsBlocked_iff_should_block_witness:
  "(fst (IsBlocked sample_lib sorted_list_of_fset ''X.Ads.Example'' sample_filter) \<longleftrightarrow>
      should_block sample_filter (ToLower (CanonicalName sample_lib ''X.Ads.Example'')))
   \<and> fst (IsBlocked sample_lib sorted_list_of_fset ''X.Ads.Example'' sample_filter)
   \<and> \<not> fst (IsBlocked sample_lib sorted_list_of_fset ''badads.example'' sample_filter)
   \<and> \<not> fst (IsBlocked sample_lib sorted_list_of_fset ''Good.ads.example.'' sample_filter)"
proof (intro conjI)
  show "fst (IsBlocked sample_lib sorted_list_of_fset ''X.Ads.Example'' sample_filter) \<longleftrightarrow>
      should_block sample_filter (ToLower (CanonicalName sample_lib ''X.Ads.Example''))"
    by (rule IsBlocked_iff_should_block [OF sample_lib_names])
      (simp add: sample_filter_def dotted_def HasSuffix_def suffix_def)
  show "fst (IsBlocked sample_lib sorted_list_of_fset ''X.Ads.Example'' sample_filter)" by code_simp
  show "\<not> fst (IsBlocked sample_lib sorted_list_of_fset ''badads.example'' sample_filter)" by code_simp
  show "\<not> fst (IsBlocked sample_lib sorted_list_of_fset ''Good.ads.example.'' sample_filter)" by code_simp
qed

text \<open>Whitelisting a name protects that name only.\<close>

lemma whitelist_wins:
  assumes "names_ok L" and "ToLower d = ToLower d'"
  shows "\<not> fst (IsBlocked L ord d (AddToWhitelist L d' f))"
proof -
  have "CanonicalName L d = CanonicalName L d'" using assms by (metis names_ok_case)
  then show ?thesis by (simp add: IsBlocked_def AddToWhitelist_def Let_def)
qed

lemma whitelist_spares_no_subdomain:
  "fst (IsBlocked sample_lib sorted_list_of_fset ''x.ads.example''
     (AddToWhitelist sample_lib ''ads.example'' sample_filter))"
  by code_simp

section \<open>Hosts files\<close>

definition file_domains :: "string \<Rightarrow> string list" where
  "file_domains contents = List.map_filter line_domain (scan_lines max_scan_token contents)"

lemma parse_lines_eq:
  "parse_lines ls n bl = (n + length (List.map_filter line_domain ls),
     bl |\<union>| fset_of_list (List.map_filter line_domain ls))"
  by (induction ls n bl rule: parse_lines.induct)
    (auto simp: List.map_filter_simps split: option.splits)

lemma parseHostsFile_eq:
  "parseHostsFile contents bl =
     (length (file_domains contents), bl |\<union>| fset_of_list (file_domains contents))"
  by (simp add: parseHostsFile_def parse_lines_eq file_domains_def)

text \<open>A domain written the way hosts files have it.\<close>

definition plain_domain :: "string \<Rightarrow> bool" where
  "plain_domain d \<longleftrightarrow> d \<noteq> [] \<and> (\<forall>c \<in> set d. \<not> is_space c) \<and> ToLower d = d \<and>
     d \<noteq> ''localhost'' \<and> d \<noteq> ''localhost.localdomain'' \<and> ParseIP d = None \<and> length d < 65000"

definition hosts_line :: "string \<Rightarrow> string" where
  "hosts_line d = ''0.0.0.0 '' @ d"

definition fqdn :: "string \<Rightarrow> string" where
  "fqdn d = (if HasSuffix d dot then d else d @ dot)"

lemma hosts_line_domain:
  assumes "plain_domain d"
  shows "line_domain (hosts_line d) = Some (fqdn d)"
proof -
  have d: "d \<noteq> []" "\<forall>c \<in> set d. \<not> is_space c" "ToLower d = d" "d \<noteq> ''localhost''"
    "d \<noteq> ''localhost.localdomain''" "ParseIP d = None"
    using assms by (auto simp: plain_domain_def)
  have sp: "\<forall>c \<in> set ''0.0.0.0''. \<not> is_space c" "is_space CHR '' ''"
    by (simp_all add: is_space_def)
  have t: "TrimSpace (hosts_line d) = hosts_line d"
    by (rule TrimSpace_id) (use d in \<open>simp_all add: hosts_line_def is_space_def last_in_set\<close>)
  have td: "TrimSpace d = d" by (rule TrimSpace_id) (use d in \<open>simp_all add: last_in_set\<close>)
  have "Fields (''0.0.0.0'' @ CHR '' '' # d) = [''0.0.0.0'', d]"
    by (rule Fields_two) (use d sp in auto)
  then have f: "Fields (hosts_line d) = [''0.0.0.0'', d]" by (simp add: hosts_line_def)
  have c: "\<not> HasPrefix (hosts_line d) ''#''" "\<not> HasPrefix (hosts_line d) ''!''" "hosts_line d \<noteq> []"
    by (simp_all add: hosts_line_def HasPrefix_def)
  show ?thesis using d c by (simp add: line_domain_def t td f fqdn_def)
qed

lemma hosts_line_scans:
  "plain_domain d \<Longrightarrow> CHR 0x0A \<notin> set (hosts_line d) \<and> CHR 0x0D \<notin> set (hosts_line d)
     \<and> length (hosts_line d) < max_scan_token"
  by (auto simp: plain_domain_def hosts_line_def max_scan_token_def is_space_def)

lemma map_filter_hosts_lines:
  "\<forall>d \<in> set ds. plain_domain d \<Longrightarrow> List.map_filter line_domain (map hosts_line ds) = map fqdn ds"
  by (induction ds) (simp_all add: List.map_filter_simps hosts_line_domain)

text \<open>
  A hosts file with one line \<^verbatim>\<open>0.0.0.0 domain\<close> for each domain of a list parses to exactly the
  fully qualified names of that list, and the count is the number of lines.
\<close>
theorem parseHostsFile_roundtrip:
  assumes "\<forall>d \<in> set ds. plain_domain d"
  shows "parseHostsFile (unlines (map hosts_line ds)) bl =
    (length ds, bl |\<union>| fset_of_list (map fqdn ds))"
proof -
  have "scan_lines max_scan_token (unlines (map hosts_line ds)) = map hosts_line ds"
    using assms by (intro scan_lines_unlines) (auto simp: hosts_line_scans)
  with assms show ?thesis
    by (simp add: parseHostsFile_eq file_domains_def map_filter_hosts_lines)
qed

lemma sample_plain: "plain_domain ''ads.example''" "plain_domain ''tracker.net.''"
  by (simp_all add: plain_domain_def is_space_def ToLower_def lower_char_def less_eq_char_def
      ParseIP_def parseIPv4_def)

theorem parseHostsFile_roundtrip_witness:
  "parseHostsFile (unlines (map hosts_line [''ads.example'', ''tracker.net.''])) {||} =
     (length [''ads.example'', ''tracker.net.''],
      {||} |\<union>| fset_of_list (map fqdn [''ads.example'', ''tracker.net.'']))
   \<and> map fqdn [''ads.example'', ''tracker.net.''] = [''ads.example.'', ''tracker.net.'']"
proof
  show "parseHostsFile (unlines (map hosts_line [''ads.example'', ''tracker.net.''])) {||} =
     (length [''ads.example'', ''tracker.net.''],
      {||} |\<union>| fset_of_list (map fqdn [''ads.example'', ''tracker.net.'']))"
    by (rule parseHostsFile_roundtrip) (simp add: sample_plain)
  show "map fqdn [''ads.example'', ''tracker.net.''] = [''ads.example.'', ''tracker.net.'']"
    by code_simp
qed

text \<open>
  A line of 64 KiB ends the parse without an error: the domains on the lines after it are
  silently missing from the blocklist.
\<close>
theorem parseHostsFile_stops_at_long_line:
  assumes "\<forall>d \<in> set ds. plain_domain d"
    and "CHR 0x0A \<notin> set long" and "max_scan_token \<le> length long"
  shows "parseHostsFile (unlines (map hosts_line ds) @ long @ CHR 0x0A # rest) bl =
    (length ds, bl |\<union>| fset_of_list (map fqdn ds))"
proof -
  have "scan_lines max_scan_token (unlines (map hosts_line ds) @ long @ CHR 0x0A # rest)
      = map hosts_line ds"
    using assms by (intro scan_lines_stops) (auto simp: hosts_line_scans)
  with assms show ?thesis
    by (simp add: parseHostsFile_eq file_domains_def map_filter_hosts_lines)
qed

theorem parseHostsFile_stops_at_long_line_witness:
  "parseHostsFile (unlines (map hosts_line [''ads.example'']) @ replicate 65536 CHR ''x'' @ CHR 0x0A #
       unlines (map hosts_line [''tracker.net.''])) {||} =
     (length [''ads.example''], {||} |\<union>| fset_of_list (map fqdn [''ads.example'']))"
  by (rule parseHostsFile_stops_at_long_line)
    (simp_all add: sample_plain max_scan_token_def in_set_replicate)

section \<open>Loading\<close>

text \<open>What a source yields, if it can be read; and the readable files of the local directory.\<close>

definition source_contents :: "filter_world \<Rightarrow> string \<Rightarrow> string option" where
  "source_contents w src =
     (if HasPrefix src ''http://'' \<or> HasPrefix src ''https://''
      then (case http_get w src of Inl _ \<Rightarrow> None | Inr (st, body) \<Rightarrow> if st = 200 then Some body else None)
      else (case read_file w src of Inl _ \<Rightarrow> None | Inr contents \<Rightarrow> Some contents))"

definition local_contents :: "filter_world \<Rightarrow> string \<Rightarrow> string list" where
  "local_contents w dir =
     (case read_dir w dir of
        Inl _ \<Rightarrow> []
      | Inr es \<Rightarrow> List.map_filter
          (\<lambda>(nm, is_dir). if is_dir \<or> HasPrefix nm dot then None
             else case read_file w (path_join dir nm) of Inl _ \<Rightarrow> None | Inr c \<Rightarrow> Some c) es)"

lemma loadSource_eq:
  "loadSource w src bl =
     (case source_contents w src of
        None \<Rightarrow> (Inl (projl (fst (loadSource w src bl))), bl)
      | Some c \<Rightarrow> (Inr (length (file_domains c)), bl |\<union>| fset_of_list (file_domains c)))"
  by (auto simp: loadSource_def source_contents_def parseHostsFile_eq split: sum.split prod.split)

lemma load_sources_eq:
  "load_sources w srcs n bl =
     (let ds = concat (map file_domains (List.map_filter (source_contents w) srcs))
      in (n + length ds, bl |\<union>| fset_of_list ds))"
proof (induction srcs arbitrary: n bl)
  case Nil
  then show ?case by (simp add: List.map_filter_simps)
next
  case (Cons src srcs)
  then show ?case
    by (subst load_sources.simps, subst loadSource_eq)
      (simp add: List.map_filter_simps Let_def funion_assoc split: option.split)
qed

lemma load_entries_eq:
  "load_entries w dir es n bl =
     (let ds = concat (map file_domains (List.map_filter
          (\<lambda>(nm, is_dir). if is_dir \<or> HasPrefix nm dot then None
             else case read_file w (path_join dir nm) of Inl _ \<Rightarrow> None | Inr c \<Rightarrow> Some c) es))
      in (n + length ds, bl |\<union>| fset_of_list ds))"
  by (induction w dir es n bl rule: load_entries.induct)
    (auto simp: List.map_filter_simps Let_def parseHostsFile_eq funion_assoc split: sum.split)

lemma loadLocalFiles_eq:
  "loadLocalFiles w f bl =
     (let ds = concat (map file_domains (local_contents w (blocklistDir f)))
      in (length ds, bl |\<union>| fset_of_list ds))"
  by (auto simp: loadLocalFiles_def local_contents_def load_entries_eq Let_def
      List.map_filter_simps split: sum.split)

text \<open>All domains named by what can be read.\<close>

definition available_domains :: "filter_world \<Rightarrow> dns_filter \<Rightarrow> string list" where
  "available_domains w f =
     concat (map file_domains
       (List.map_filter (source_contents w) (sources f) @ local_contents w (blocklistDir f)))"

text \<open>
  C24: loading replaces the blocklist by exactly the domains of the sources and local files that
  could be read; a source that fails takes nothing from the others. The size shown counts lines.
\<close>
theorem LoadBlocklists_union:
  "blocked_names (LoadBlocklists w f) = fset_of_list (available_domains w f)
   \<and> BlocklistSize (LoadBlocklists w f) = int (length (available_domains w f))
   \<and> whitelist (LoadBlocklists w f) = whitelist f \<and> blacklist (LoadBlocklists w f) = blacklist f
   \<and> enabled (LoadBlocklists w f) = enabled f \<and> sources (LoadBlocklists w f) = sources f"
  by (simp add: LoadBlocklists_def load_sources_eq loadLocalFiles_eq available_domains_def Let_def
      fset_of_list_append)

section \<open>The table of blocked names is bounded\<close>

definition lower_dotted :: "string fset \<Rightarrow> bool" where
  "lower_dotted F \<longleftrightarrow> fBall F (\<lambda>n. HasSuffix n dot \<and> ToLower n = n)"

definition filter_ok :: "dns_filter \<Rightarrow> bool" where
  "filter_ok f \<longleftrightarrow> lower_dotted (blocked_names f) \<and> lower_dotted (whitelist f)
     \<and> lower_dotted (blacklist f) \<and> lower_dotted (fmdom (blockedCounts f))"

lemma lower_dotted_dotted: "lower_dotted F \<Longrightarrow> dotted F"
  by (auto simp: lower_dotted_def dotted_def)

lemma lower_dotted_no_empty: "lower_dotted F \<Longrightarrow> [] |\<notin>| F"
  by (auto simp: lower_dotted_def HasSuffix_def)

lemma lower_dotted_finsert [simp]:
  "lower_dotted (finsert n F) \<longleftrightarrow> HasSuffix n dot \<and> ToLower n = n \<and> lower_dotted F"
  by (auto simp: lower_dotted_def)

lemma lower_dotted_subset: "lower_dotted F \<Longrightarrow> G |\<subseteq>| F \<Longrightarrow> lower_dotted G"
  by (auto simp: lower_dotted_def)

lemma recordBlocked_frame [simp]:
  "blocked_names (recordBlocked ord n f) = blocked_names f"
  "whitelist (recordBlocked ord n f) = whitelist f"
  "blacklist (recordBlocked ord n f) = blacklist f"
  "TotalBlocked (recordBlocked ord n f) = TotalBlocked f"
  "TotalAllowed (recordBlocked ord n f) = TotalAllowed f"
  "enabled (recordBlocked ord n f) = enabled f"
  "sources (recordBlocked ord n f) = sources f"
  by (simp_all add: recordBlocked_def Let_def)

lemma recordBlocked_ok:
  assumes "filter_ok f" and "HasSuffix n dot" and "ToLower n = n"
  shows "filter_ok (recordBlocked ord n f)"
proof -
  have "lower_dotted (fmdom (fmupd n v (blockedCounts f)))" for v
    using assms by (simp add: filter_ok_def)
  moreover from this have "lower_dotted (fmdom (evict_min id ord (fmupd n v (blockedCounts f))))" for v
    by (rule lower_dotted_subset [OF _ evict_min_dom])
  ultimately show ?thesis using assms(1)
    by (auto simp: filter_ok_def recordBlocked_def Let_def)
qed

lemma recordBlocked_bounded:
  assumes "filter_ok f" and "HasSuffix n dot" and "ToLower n = n" and "enumerates ord"
    and "mlen (blockedCounts f) \<le> max_blocked_counts"
  shows "mlen (blockedCounts (recordBlocked ord n f)) \<le> max_blocked_counts"
proof -
  have "lower_dotted (fmdom (fmupd n v (blockedCounts f)))" for v
    using assms by (simp add: filter_ok_def)
  then have "mlen (evict_min id ord (fmupd n v (blockedCounts f)))
      = mlen (fmupd n v (blockedCounts f)) - 1" for v
    using assms(4) by (intro evict_min_mlen lower_dotted_no_empty)
  moreover have "mlen (fmupd n v (blockedCounts f)) \<le> Suc max_blocked_counts" for v
    using mlen_fmupd_le [of n v "blockedCounts f"] assms(5) by simp
  ultimately have "mlen (evict_min id ord (fmupd n v (blockedCounts f))) \<le> max_blocked_counts" for v
    by (metis diff_Suc_1 diff_le_mono)
  then show ?thesis
    by (simp add: recordBlocked_def Let_def del: fmdom_fmupd)
qed

lemma IsBlocked_snd:
  obtains "snd (IsBlocked L ord d f) = f"
  | "snd (IsBlocked L ord d f) = f\<lparr>TotalAllowed := TotalAllowed f + 1\<rparr>"
  | "snd (IsBlocked L ord d f) =
      recordBlocked ord (ToLower (CanonicalName L d)) (f\<lparr>TotalBlocked := TotalBlocked f + 1\<rparr>)"
proof -
  have "snd (IsBlocked L ord d f) = f
      \<or> snd (IsBlocked L ord d f) = f\<lparr>TotalAllowed := TotalAllowed f + 1\<rparr>
      \<or> snd (IsBlocked L ord d f) =
          recordBlocked ord (ToLower (CanonicalName L d)) (f\<lparr>TotalBlocked := TotalBlocked f + 1\<rparr>)"
    by (simp add: IsBlocked_def Let_def)
  with that show thesis by blast
qed

lemma filter_ok_counters [simp]:
  "filter_ok (f\<lparr>TotalAllowed := a\<rparr>) = filter_ok f" "filter_ok (f\<lparr>TotalBlocked := b\<rparr>) = filter_ok f"
  "filter_ok (f\<lparr>loads_started := k\<rparr>) = filter_ok f" "filter_ok (f\<lparr>autoUpdateRunning := r\<rparr>) = filter_ok f"
  "filter_ok (f\<lparr>enabled := e\<rparr>) = filter_ok f" "filter_ok (f\<lparr>sources := ss\<rparr>) = filter_ok f"
  by (simp_all add: filter_ok_def)

text \<open>A query, as the statistics table sees it.\<close>

definition ask :: "dns_lib \<times> (string fset \<Rightarrow> string list) \<times> string \<Rightarrow> dns_filter \<Rightarrow> dns_filter" where
  "ask x f = (case x of (L, ord, d) \<Rightarrow> snd (IsBlocked L ord d f))"

definition askable :: "dns_lib \<times> (string fset \<Rightarrow> string list) \<times> string \<Rightarrow> bool" where
  "askable x \<longleftrightarrow> (case x of (L, ord, d) \<Rightarrow> names_ok L \<and> enumerates ord)"

lemma ask_ok: "filter_ok f \<Longrightarrow> askable x \<Longrightarrow> filter_ok (ask x f)"
  by (cases x; cases rule: IsBlocked_snd [of "fst x" "fst (snd x)" "snd (snd x)" f])
    (auto simp: ask_def askable_def names_ok_dot intro!: recordBlocked_ok)

lemma ask_bounded:
  "filter_ok f \<Longrightarrow> askable x \<Longrightarrow> mlen (blockedCounts f) \<le> max_blocked_counts \<Longrightarrow>
    mlen (blockedCounts (ask x f)) \<le> max_blocked_counts"
  by (cases x; cases rule: IsBlocked_snd [of "fst x" "fst (snd x)" "snd (snd x)" f])
    (auto simp: ask_def askable_def names_ok_dot intro!: recordBlocked_bounded)

interpretation blocked_table: bounded_table filter_ok "\<lambda>f. mlen (blockedCounts f)"
    "\<lambda>f. max_blocked_counts" askable ask
  by unfold_locales (simp_all add: ask_ok ask_bounded)

text \<open>The other operations.\<close>

lemma line_domain_lower: "line_domain l = Some d \<Longrightarrow> HasSuffix d dot \<and> ToLower d = d"
  by (auto simp: line_domain_def Let_def split: option.splits if_splits)
    (simp_all add: HasSuffix_def)

lemma file_domains_lower: "d \<in> set (file_domains c) \<Longrightarrow> HasSuffix d dot \<and> ToLower d = d"
  using line_domain_lower by (auto simp: file_domains_def List.map_filter_def)

lemma available_domains_lower: "lower_dotted (fset_of_list (available_domains w f))"
  by (auto simp: lower_dotted_def available_domains_def fset_of_list_elem file_domains_lower)

lemma list_lines_lower: "lower_dotted F \<Longrightarrow> lower_dotted (list_lines ls F)"
  by (induction ls F rule: list_lines.induct)
    (auto simp: Let_def HasSuffix_def HasSuffix_dot_ToLower)

lemma loadListFile_lower: "lower_dotted F \<Longrightarrow> lower_dotted (loadListFile w p F)"
  by (auto simp: loadListFile_def intro: list_lines_lower split: sum.split)

datatype filter_op =
    Query string
  | Whitelist_add string | Whitelist_remove string | Blacklist_add string | Blacklist_remove string
  | Load filter_world | Tick filter_world | Enable bool | Set_sources "string list" | Reload

definition filter_step :: "dns_lib \<Rightarrow> (string fset \<Rightarrow> string list) \<Rightarrow> filter_op \<Rightarrow> dns_filter
    \<Rightarrow> dns_filter" where
  "filter_step L ord e f =
     (case e of
        Query d \<Rightarrow> snd (IsBlocked L ord d f)
      | Whitelist_add d \<Rightarrow> AddToWhitelist L d f
      | Whitelist_remove d \<Rightarrow> RemoveFromWhitelist L d f
      | Blacklist_add d \<Rightarrow> AddToBlacklist L d f
      | Blacklist_remove d \<Rightarrow> RemoveFromBlacklist L d f
      | Load w \<Rightarrow> LoadBlocklists w f
      | Tick w \<Rightarrow> autoUpdate_tick w f
      | Enable on \<Rightarrow> SetEnabled on f
      | Set_sources ss \<Rightarrow> SetSources ss f
      | Reload \<Rightarrow> ReloadIfNeeded f)"

lemma filter_step_ok:
  assumes "names_ok L" and "enumerates ord" and "filter_ok f" and "mlen (blockedCounts f) \<le> max_blocked_counts"
  shows "filter_ok (filter_step L ord e f) \<and> mlen (blockedCounts (filter_step L ord e f)) \<le> max_blocked_counts"
proof (cases e)
  case (Query d)
  have "filter_step L ord e f = fold ask [(L, ord, d)] f"
    by (simp add: Query filter_step_def ask_def)
  then show ?thesis
    using blocked_table.run_bounded [of f "[(L, ord, d)]"] assms by (simp add: askable_def)
next
  case (Load w)
  with assms show ?thesis
    by (auto simp: filter_step_def LoadBlocklists_def load_sources_eq loadLocalFiles_eq Let_def
        filter_ok_def available_domains_lower [unfolded available_domains_def, of w f, simplified])
next
  case (Tick w)
  with assms show ?thesis
    by (auto simp: filter_step_def autoUpdate_tick_def LoadBlocklists_def load_sources_eq
        loadLocalFiles_eq Let_def
        filter_ok_def available_domains_lower [unfolded available_domains_def, of w f, simplified])
next
  case (Enable on)
  with assms show ?thesis
    by (simp add: filter_step_def SetEnabled_def startAutoUpdate_def start_load_def Let_def)
next
  case Reload
  with assms show ?thesis
    by (simp add: filter_step_def ReloadIfNeeded_def start_load_def)
next
  case (Set_sources ss)
  with assms show ?thesis by (simp add: filter_step_def SetSources_def)
qed (use assms in \<open>auto simp: filter_step_def filter_ok_def AddToWhitelist_def
    RemoveFromWhitelist_def AddToBlacklist_def RemoveFromBlacklist_def names_ok_dot
    intro: lower_dotted_subset\<close>)

lemma New_filter_ok:
  "filter_ok (New_filter w cfg)" "mlen (blockedCounts (New_filter w cfg)) \<le> max_blocked_counts"
  by (auto simp: New_filter_def Let_def startAutoUpdate_def start_load_def filter_ok_def
      lower_dotted_def [of "{||}"] fcard_fempty intro!: loadListFile_lower)

lemma filter_steps_ok:
  assumes "names_ok L" and "enumerates ord" and "filter_ok f" and "mlen (blockedCounts f) \<le> max_blocked_counts"
  shows "filter_ok (fold (filter_step L ord) es f)
    \<and> mlen (blockedCounts (fold (filter_step L ord) es f)) \<le> max_blocked_counts"
  using assms(3,4) by (induction es arbitrary: f) (simp_all add: filter_step_ok assms(1,2))

text \<open>
  C23: every run of queries, list edits, loads, switches and reloads of a filter just made keeps the
  lists in lower-case fully qualified form (so that the verdict is the one specified) and the
  table of blocked names within 10,000 entries.
\<close>
theorem filter_runs_keep_invariant:
  assumes "names_ok L" and "enumerates ord"
  shows "filter_ok (fold (filter_step L ord) es (New_filter w cfg))
    \<and> mlen (blockedCounts (fold (filter_step L ord) es (New_filter w cfg))) \<le> max_blocked_counts"
  using assms New_filter_ok by (rule filter_steps_ok)

definition sample_world :: filter_world where
  "sample_world = \<lparr>http_get = (\<lambda>u. if u = ''http://a/''
       then Inr (200, ''0.0.0.0 ads.example'' @ [CHR 0x0A]) else Inl ''timeout''),
     read_file = (\<lambda>p. Inl ''no such file''), read_dir = (\<lambda>d. Inl ''no such directory'')\<rparr>"

theorem filter_runs_keep_invariant_witness:
  "filter_ok (fold (filter_step sample_lib sorted_list_of_fset)
       [Load sample_world, Query ''a.ADS.example'', Whitelist_add ''ads.example'', Query ''a.ads.example'']
       (New_filter sample_world (DefaultFilterConfig\<lparr>fcSources := [''http://b/'', ''http://a/'']\<rparr>)))
   \<and> mlen (blockedCounts (fold (filter_step sample_lib sorted_list_of_fset)
       [Load sample_world, Query ''a.ADS.example'', Whitelist_add ''ads.example'', Query ''a.ads.example'']
       (New_filter sample_world (DefaultFilterConfig\<lparr>fcSources := [''http://b/'', ''http://a/'']\<rparr>))))
     \<le> max_blocked_counts"
  by (rule filter_runs_keep_invariant [OF sample_lib_names enumerates_sorted])

section \<open>Statistics\<close>

text \<open>
  Every query of an enabled filter counts as exactly one blocked or one allowed query,
  according to the verdict; a disabled filter counts nothing.
\<close>
theorem IsBlocked_counts:
  "TotalBlocked (snd (IsBlocked L ord d f)) =
     TotalBlocked f + (if enabled f \<and> fst (IsBlocked L ord d f) then 1 else 0)
   \<and> TotalAllowed (snd (IsBlocked L ord d f)) =
     TotalAllowed f + (if enabled f \<and> \<not> fst (IsBlocked L ord d f) then 1 else 0)"
  by (simp add: IsBlocked_def Let_def)

text \<open>
  The list of the most blocked names: true counts in falling order, and nobody left out was
  blocked more often than anybody on it.
\<close>

lemma GetTopBlocked_top:
  assumes "enumerates ord" and "GetTopBlocked ord limit f = Some best"
  shows "length best = min (nat limit) (mlen (blockedCounts f))"
    and "sorted (map (\<lambda>s. - uint (bsCount s)) best)"
    and "s \<in> set best \<Longrightarrow> fmlookup (blockedCounts f) (bsDomain s) = Some (bsCount s)"
    and "fmlookup (blockedCounts f) d = Some n \<Longrightarrow> d \<notin> bsDomain ` set best \<Longrightarrow> s \<in> set best \<Longrightarrow>
      n \<le> bsCount s"
proof -
  define all where "all = map (\<lambda>d. \<lparr>bsDomain = d, bsCount = the (fmlookup (blockedCounts f) d)\<rparr>)
      (ord (fmdom (blockedCounts f)))"
  have len: "length all = mlen (blockedCounts f)"
    using assms(1) by (simp add: all_def enumerates_length)
  have mem: "s \<in> set all \<longleftrightarrow> fmlookup (blockedCounts f) (bsDomain s) = Some (bsCount s)" for s
    using assms(1)
    by (cases s) (auto simp: all_def enumerates_set fmlookup_dom_iff image_iff)
  have best: "best = take (nat limit) (sort_key (\<lambda>s. - uint (bsCount s)) all)"
    using assms(2)
    by (auto simp: GetTopBlocked_def Let_def all_def [symmetric] split: if_splits)
  show "length best = min (nat limit) (mlen (blockedCounts f))" by (simp add: best len)
  show "sorted (map (\<lambda>s. - uint (bsCount s)) best)" unfolding best by (rule sorted_take_sort_key)
  show "s \<in> set best \<Longrightarrow> fmlookup (blockedCounts f) (bsDomain s) = Some (bsCount s)"
    unfolding best mem [symmetric] by (drule in_set_takeD) simp
  assume d: "fmlookup (blockedCounts f) d = Some n" "d \<notin> bsDomain ` set best" and s: "s \<in> set best"
  have "\<lparr>bsDomain = d, bsCount = n\<rparr> \<in> set all" using d(1) by (simp add: mem)
  moreover have "\<lparr>bsDomain = d, bsCount = n\<rparr> \<notin> set best" using d(2) by force
  ultimately have "- uint (bsCount s) \<le> - uint (bsCount \<lparr>bsDomain = d, bsCount = n\<rparr>)"
    using s unfolding best by (intro take_sort_key_least)
  then show "n \<le> bsCount s" by (simp add: word_le_def)
qed

text \<open>
  Once the table of blocked names is full and every name in it was blocked at least twice, no
  other name can enter it: the new name is the one evicted, however often it is blocked.
\<close>
theorem recordBlocked_starves:
  assumes "enumerates ord" and "mlen (blockedCounts f) = max_blocked_counts"
    and "\<forall>k v. fmlookup (blockedCounts f) k = Some v \<longrightarrow> k \<noteq> [] \<and> 2 \<le> v"
    and "fmlookup (blockedCounts f) n = None" and "n \<noteq> []"
  shows "recordBlocked ord n f = f"
proof -
  let ?m = "fmupd n 1 (blockedCounts f)"
  have new: "n |\<notin>| fmdom (blockedCounts f)" using assms(4) by (simp add: fmdom_notI)
  have "[] |\<notin>| fmdom (blockedCounts f)" using assms(3) by (metis fmlookup_dom_iff)
  with assms(5) have "[] |\<notin>| fmdom ?m" by simp
  moreover have "fmlookup ?m n = Some 1" by simp
  ultimately obtain k v where k: "fmlookup ?m k = Some v" "evict_min id ord ?m = fmdrop k ?m"
    "\<And>k' v'. fmlookup ?m k' = Some v' \<Longrightarrow> id v \<le> id v'"
    using evict_min_cases [OF assms(1)] by metis
  have "v \<le> 1" using k(3) [of n 1] by simp
  have "k = n"
  proof (rule ccontr)
    assume "k \<noteq> n"
    with k(1) have "2 \<le> v" using assms(3) by simp
    from order_trans [OF this \<open>v \<le> 1\<close>] show False by (simp add: word_le_nat_alt)
  qed
  with k(2) new have "evict_min id ord ?m = blockedCounts f"
    by (simp add: fmap_ext fmdom_notD)
  moreover have "mlen ?m = Suc max_blocked_counts" using new assms(2) by (simp only: mlen_fmupd if_False)
  ultimately show ?thesis
    using assms(4) by (simp add: recordBlocked_def Let_def del: fmdom_fmupd)
qed


text \<open>A full table: the names \<open>a\<close>, \<open>aa\<close>, \<open>aaa\<close> and so on, each blocked twice.\<close>

definition full_table :: "(string, u64) fmap" where
  "full_table = fmap_of_list (map (\<lambda>i. (replicate (Suc i) CHR ''a'', 2)) [0..<max_blocked_counts])"

lemma full_table_dom: "fset (fmdom full_table) = (\<lambda>i. replicate (Suc i) CHR ''a'') ` {0..<max_blocked_counts}"
  by (simp add: full_table_def fset_of_list.rep_eq image_image comp_def)

lemma full_table_mlen: "mlen full_table = max_blocked_counts"
proof -
  have "inj_on (\<lambda>i. replicate (Suc i) CHR ''a'') {0..<max_blocked_counts}"
    by (rule inj_onI) (metis Suc_inject length_replicate)
  then show ?thesis by (simp only: fcard.rep_eq full_table_dom card_image) simp
qed

lemma full_table_lookup:
  assumes "fmlookup full_table k = Some v"
  shows "k \<noteq> [] \<and> 2 \<le> v"
proof -
  have "(k, v) \<in> set (map (\<lambda>i. (replicate (Suc i) CHR ''a'', 2)) [0..<max_blocked_counts])"
    using assms unfolding full_table_def fmlookup_of_list by (rule map_of_SomeD)
  then show ?thesis by auto
qed

lemma full_table_new: "fmlookup full_table ''b.'' = None"
proof -
  have "''b.'' |\<notin>| fmdom full_table" unfolding full_table_dom by auto
  then show ?thesis by (simp add: fmdom_notD)
qed

theorem recordBlocked_starves_witness:
  "recordBlocked sorted_list_of_fset ''b.'' (sample_filter\<lparr>blockedCounts := full_table\<rparr>)
     = sample_filter\<lparr>blockedCounts := full_table\<rparr>"
  by (rule recordBlocked_starves [OF enumerates_sorted])
    (simp_all add: full_table_mlen full_table_new full_table_lookup)

section \<open>The answer for a blocked name\<close>

lemma ParseIP_zero: "ParseIP ''0.0.0.0'' = Some (v4_prefix @ [0, 0, 0, 0])"
  by code_simp

text \<open>
  The answer for a blocked query repeats its identifier and question, and its code and records
  are those of the configured kind: NXDOMAIN, REFUSED, or a null address of the asked family.
\<close>
theorem BlockedResponse_kinds:
  assumes "replies_ok L" and "Question r = q # qs"
  shows "MsgId (BlockedResponse L r kind) = MsgId r
    \<and> Question (BlockedResponse L r kind) = [q]
    \<and> Response (BlockedResponse L r kind) \<and> RecursionAvailable (BlockedResponse L r kind)
    \<and> Rcode (BlockedResponse L r kind) =
        (if kind = ''nxdomain'' then RcodeNameError else if kind = ''refused'' then RcodeRefused
         else RcodeSuccess)
    \<and> Answer (BlockedResponse L r kind) =
        (if kind = ''nxdomain'' \<or> kind = ''refused'' then []
         else if qType q = TypeA
           then [RR_A \<lparr>hName = qName q, hRrtype = TypeA, hClass = ClassINET, hTtl = 300\<rparr> (v4_prefix @ [0, 0, 0, 0])]
         else if qType q = TypeAAAA
           then [RR_AAAA \<lparr>hName = qName q, hRrtype = TypeAAAA, hClass = ClassINET, hTtl = 300\<rparr> (replicate 16 0)]
         else [])"
proof -
  have six: "ParseIP ''::'' = Some (replicate 16 0)" by code_simp
  have r: "MsgId (SetReply L new_msg r) = MsgId r" "Question (SetReply L new_msg r) = [q]"
    "Response (SetReply L new_msg r)" "Answer (SetReply L new_msg r) = []"
    using assms by (simp_all add: replies_ok_def new_msg_def)
  show ?thesis
    by (simp add: BlockedResponse_def Let_def assms(2) r ParseIP_zero six)
qed

theorem BlockedResponse_kinds_witness:
  "let r = SetQuestion sample_lib new_msg ''ads.example.'' TypeA;
       q = \<lparr>qName = ''ads.example.'', qType = TypeA, qClass = ClassINET\<rparr>
   in Answer (BlockedResponse sample_lib r ''zero'') =
        [RR_A \<lparr>hName = ''ads.example.'', hRrtype = TypeA, hClass = ClassINET, hTtl = 300\<rparr>
          (v4_prefix @ [0, 0, 0, 0])]
     \<and> Rcode (BlockedResponse sample_lib r ''nxdomain'') = RcodeNameError"
proof -
  let ?r = "SetQuestion sample_lib new_msg ''ads.example.'' TypeA"
  have q: "Question ?r = [\<lparr>qName = ''ads.example.'', qType = TypeA, qClass = ClassINET\<rparr>]"
    by (simp add: sample_lib_def)
  show ?thesis
    using BlockedResponse_kinds [OF sample_lib_replies q, of "''zero''"]
      BlockedResponse_kinds [OF sample_lib_replies q, of "''nxdomain''"]
    by (simp add: Let_def)
qed

end
