(* ===== verification/LocalRecords.thy ===== *)
theory LocalRecords
  imports DnsMsg
begin

text \<open>
  The administrator's own records, \<^verbatim>\<open>internal/localrecords/localrecords.go\<close>: insertion with
  validation by type, removal, and the lookup that answers before the cache and the resolver do.
\<close>

section \<open>State and operations\<close>

record local_record =
  lrName :: string
  lrType :: string
  lrValue :: string
  lrTTL :: u32

record local_config =
  lcEnabled :: bool
  lcRecords :: "local_record list"

record local_records =
  records :: "(string, rr list) fmap"
  lrEnabled :: bool

definition DefaultLocalRecordsConfig :: local_config where
  "DefaultLocalRecordsConfig = \<lparr>lcEnabled = True, lcRecords = []\<rparr>"

text \<open>The lookup: an answer for the type, else a CNAME when an address is asked for.\<close>

definition Lookup :: "dns_lib \<Rightarrow> string \<Rightarrow> u16 \<Rightarrow> local_records \<Rightarrow> msg option" where
  "Lookup L name qtype lr =
     (if \<not> lrEnabled lr then None
      else let name = CanonicalName L name;
               found = fmlookup (records lr) (name @ ''/'' @ TypeToString L qtype);
               found = (if found = None \<or> found = Some []
                        then if qtype = TypeA \<or> qtype = TypeAAAA
                             then (case fmlookup (records lr) (name @ ''/CNAME'') of
                                     Some rrs \<Rightarrow> Some rrs | None \<Rightarrow> found)
                             else found
                        else found)
           in case found of
                None \<Rightarrow> None
              | Some rrs \<Rightarrow> Some (new_msg\<lparr>Authoritative := True, RecursionAvailable := True, Answer := rrs\<rparr>))"

definition owner_name :: "dns_lib \<Rightarrow> string \<Rightarrow> string" where
  "owner_name L n =
     (let name = CanonicalName L (ToLower n) in if HasSuffix name dot then name else name @ dot)"

definition record_rr :: "dns_lib \<Rightarrow> local_record \<Rightarrow> go_error + rr" where
  "record_rr L r =
     (let name = owner_name L (lrName r);
          ttl = (if lrTTL r = 0 then 300 else lrTTL r);
          hdr = (\<lambda>t. \<lparr>hName = name, hRrtype = t, hClass = ClassINET, hTtl = ttl\<rparr>);
          typ = ToUpper (lrType r)
      in if typ = ''A'' then
           (case Option.bind (ParseIP (lrValue r)) To4 of
              None \<Rightarrow> Inl (''invalid IPv4 address: '' @ lrValue r)
            | Some a \<Rightarrow> Inr (RR_A (hdr TypeA) a))
         else if typ = ''AAAA'' then
           (case Option.bind (ParseIP (lrValue r)) To16 of
              None \<Rightarrow> Inl (''invalid IPv6 address: '' @ lrValue r)
            | Some a \<Rightarrow> Inr (RR_AAAA (hdr TypeAAAA) a))
         else if typ = ''CNAME'' then
           (let target = CanonicalName L (lrValue r) in
            Inr (RR_CNAME (hdr TypeCNAME) (if HasSuffix target dot then target else target @ dot)))
         else if typ = ''TXT'' then Inr (RR_TXT (hdr TypeTXT) [lrValue r])
         else if typ = ''MX'' then Inr (RR_MX (hdr TypeMX) 10 (CanonicalName L (lrValue r)))
         else Inl (''unsupported record type: '' @ lrType r))"

definition AddRecord :: "dns_lib \<Rightarrow> local_record \<Rightarrow> local_records \<Rightarrow> go_error option \<times> local_records" where
  "AddRecord L r lr =
     (case record_rr L r of
        Inl err \<Rightarrow> (Some err, lr)
      | Inr x \<Rightarrow>
          let key = owner_name L (lrName r) @ ''/'' @ ToUpper (lrType r);
              rrs = (case fmlookup (records lr) key of Some rrs \<Rightarrow> rrs | None \<Rightarrow> [])
          in (None, lr\<lparr>records := fmupd key (rrs @ [x]) (records lr)\<rparr>))"

definition RemoveRecord :: "dns_lib \<Rightarrow> string \<Rightarrow> string \<Rightarrow> local_records \<Rightarrow> local_records" where
  "RemoveRecord L name recordType lr =
     lr\<lparr>records := fmdrop (owner_name L name @ ''/'' @ ToUpper recordType) (records lr)\<rparr>"

definition New_localrecords :: "dns_lib \<Rightarrow> local_config \<Rightarrow> local_records" where
  "New_localrecords L cfg =
     fold (\<lambda>r lr. snd (AddRecord L r lr)) (lcRecords cfg) \<lparr>records = fmempty, lrEnabled = lcEnabled cfg\<rparr>"

definition rr_value :: "rr \<Rightarrow> string" where
  "rr_value x =
     (case x of
        RR_A _ a \<Rightarrow> IPString a
      | RR_AAAA _ a \<Rightarrow> IPString a
      | RR_CNAME _ t \<Rightarrow> t
      | RR_TXT _ ts \<Rightarrow> Join ts '' ''
      | RR_MX _ _ m \<Rightarrow> m
      | _ \<Rightarrow> [])"

definition GetAllRecords :: "dns_lib \<Rightarrow> (string fset \<Rightarrow> string list) \<Rightarrow> local_records
    \<Rightarrow> local_record list" where
  "GetAllRecords L ord lr =
     concat (map (\<lambda>key. map (\<lambda>x. \<lparr>lrName = hName (Header x), lrType = TypeToString L (rrtype_of x),
          lrValue = rr_value x, lrTTL = ttl_of x\<rparr>) (the (fmlookup (records lr) key)))
        (ord (fmdom (records lr))))"

section \<open>Correctness\<close>

text \<open>
  The names of the types the code writes as literals, and the shape the store keeps: under a key
  are the records of one name and one type, and never none.
\<close>

definition types_ok :: "dns_lib \<Rightarrow> bool" where
  "types_ok L \<longleftrightarrow> TypeToString L TypeA = ''A'' \<and> TypeToString L TypeAAAA = ''AAAA'' \<and>
     TypeToString L TypeCNAME = ''CNAME'' \<and> TypeToString L TypeTXT = ''TXT'' \<and>
     TypeToString L TypeMX = ''MX'' \<and> (\<forall>t. CHR ''/'' \<notin> set (TypeToString L t))"

lemma sample_lib_types [simp]: "types_ok sample_lib"
  by (simp add: types_ok_def sample_lib_def sample_type_string_def)

definition local_key :: "dns_lib \<Rightarrow> rr \<Rightarrow> string" where
  "local_key L x = hName (Header x) @ ''/'' @ TypeToString L (rrtype_of x)"

definition local_ok :: "dns_lib \<Rightarrow> local_records \<Rightarrow> bool" where
  "local_ok L lr \<longleftrightarrow>
     (\<forall>key rrs. fmlookup (records lr) key = Some rrs \<longrightarrow>
        rrs \<noteq> [] \<and> (\<forall>x \<in> set rrs. local_key L x = key \<and> 0 < ttl_of x))"

lemma owner_name_canonical: "names_ok L \<Longrightarrow> owner_name L n = CanonicalName L n"
  by (simp add: owner_name_def names_ok_dot)

lemma record_rr_header:
  assumes "record_rr L r = Inr x" and "types_ok L"
  shows "hName (Header x) = owner_name L (lrName r)"
    and "TypeToString L (rrtype_of x) = ToUpper (lrType r)"
    and "0 < ttl_of x"
  using assms
  by (auto simp: record_rr_def Let_def types_ok_def word_neq_0_conv
      split: if_splits option.splits)

lemma AddRecord_ok:
  assumes "local_ok L lr" and "types_ok L"
  shows "local_ok L (snd (AddRecord L r lr))"
proof (cases "record_rr L r")
  case (Inl err)
  with assms show ?thesis by (simp add: AddRecord_def)
next
  case (Inr x)
  have "local_key L x = owner_name L (lrName r) @ ''/'' @ ToUpper (lrType r)" "0 < ttl_of x"
    using record_rr_header [OF Inr assms(2)] by (simp_all add: local_key_def)
  with assms(1) Inr show ?thesis
    by (cases "fmlookup (records lr) (owner_name L (lrName r) @ ''/'' @ ToUpper (lrType r))")
      (auto simp: AddRecord_def local_ok_def Let_def)
qed

lemma RemoveRecord_ok: "local_ok L lr \<Longrightarrow> local_ok L (RemoveRecord L n t lr)"
  by (auto simp: local_ok_def RemoveRecord_def)

lemma AddRecord_enabled [simp]: "lrEnabled (snd (AddRecord L r lr)) = lrEnabled lr"
  by (simp add: AddRecord_def Let_def split: sum.split)

lemma RemoveRecord_enabled [simp]: "lrEnabled (RemoveRecord L n t lr) = lrEnabled lr"
  by (simp add: RemoveRecord_def)

lemma fold_AddRecord_ok:
  "local_ok L lr \<Longrightarrow> types_ok L \<Longrightarrow> local_ok L (fold (\<lambda>r lr. snd (AddRecord L r lr)) rs lr)"
  by (induction rs arbitrary: lr) (simp_all add: AddRecord_ok)

lemma New_localrecords_ok: "types_ok L \<Longrightarrow> local_ok L (New_localrecords L cfg)"
  unfolding New_localrecords_def by (rule fold_AddRecord_ok) (simp_all add: local_ok_def)

text \<open>The keys of different names or types differ.\<close>

lemma append_sep_inject:
  "sep \<notin> set t \<Longrightarrow> sep \<notin> set u \<Longrightarrow> a @ sep # t = b @ sep # u \<Longrightarrow> a = b \<and> t = u"
proof (induction a arbitrary: b)
  case Nil
  then show ?case by (cases b) auto
next
  case (Cons c a)
  then show ?case by (cases b) auto
qed

text \<open>
  C13: a record that was accepted is served: looking its name up under any spelling and its type
  gives an authoritative answer with the earlier records of that name and type and the new one.
\<close>
theorem AddRecord_then_Lookup:
  assumes "names_ok L" and "lrEnabled lr" and "AddRecord L r lr = (None, lr')"
    and "CanonicalName L n = CanonicalName L (lrName r)" and "TypeToString L t = ToUpper (lrType r)"
  shows "\<exists>m x. Lookup L n t lr' = Some m \<and> Authoritative m \<and> record_rr L r = Inr x \<and>
    Answer m = (case fmlookup (records lr) (CanonicalName L n @ ''/'' @ TypeToString L t) of
                  Some rrs \<Rightarrow> rrs | None \<Rightarrow> []) @ [x]"
proof -
  obtain x where x: "record_rr L r = Inr x"
    using assms(3) by (auto simp: AddRecord_def split: sum.splits)
  let ?key = "CanonicalName L n @ ''/'' @ TypeToString L t"
  let ?rrs = "(case fmlookup (records lr) ?key of Some rrs \<Rightarrow> rrs | None \<Rightarrow> []) @ [x]"
  have "lr' = lr\<lparr>records := fmupd ?key ?rrs (records lr)\<rparr>"
    using assms x by (auto simp: AddRecord_def Let_def owner_name_canonical)
  then have "fmlookup (records lr') ?key = Some ?rrs" "lrEnabled lr'" using assms(2) by simp_all
  moreover have "?rrs \<noteq> []" by simp
  ultimately have "Lookup L n t lr' =
      Some (new_msg\<lparr>Authoritative := True, RecursionAvailable := True, Answer := ?rrs\<rparr>)"
    by (simp only: Lookup_def Let_def) simp
  with x show ?thesis by simp
qed

definition sample_local :: local_record where
  "sample_local = \<lparr>lrName = ''NAS.home'', lrType = ''a'', lrValue = ''192.168.1.5'', lrTTL = 0\<rparr>"

lemma sample_local_added:
  "AddRecord sample_lib sample_local (New_localrecords sample_lib DefaultLocalRecordsConfig) =
     (None, \<lparr>records = fmupd ''nas.home./A''
        [RR_A \<lparr>hName = ''nas.home.'', hRrtype = TypeA, hClass = ClassINET, hTtl = 300\<rparr> [192, 168, 1, 5]] fmempty,
       lrEnabled = True\<rparr>)"
  by code_simp

theorem AddRecord_then_Lookup_witness:
  "\<exists>lr' m x. AddRecord sample_lib sample_local (New_localrecords sample_lib DefaultLocalRecordsConfig)
       = (None, lr') \<and> Lookup sample_lib ''nas.HOME.'' TypeA lr' = Some m \<and> Authoritative m
     \<and> record_rr sample_lib sample_local = Inr x \<and> Answer m = [x]"
proof -
  have n: "CanonicalName sample_lib ''nas.HOME.'' = CanonicalName sample_lib (lrName sample_local)"
    by code_simp
  have t: "TypeToString sample_lib TypeA = ToUpper (lrType sample_local)" by code_simp
  have e: "lrEnabled (New_localrecords sample_lib DefaultLocalRecordsConfig)" by code_simp
  have none: "fmlookup (records (New_localrecords sample_lib DefaultLocalRecordsConfig))
      (CanonicalName sample_lib ''nas.HOME.'' @ ''/'' @ TypeToString sample_lib TypeA) = None"
    by code_simp
  from AddRecord_then_Lookup [OF sample_lib_names e sample_local_added n t] sample_local_added none
  show ?thesis by auto
qed

text \<open>An administrator's edits.\<close>

datatype local_edit = Add local_record | Remove string string

definition local_step :: "dns_lib \<Rightarrow> local_edit \<Rightarrow> local_records \<Rightarrow> local_records" where
  "local_step L e lr =
     (case e of Add r \<Rightarrow> snd (AddRecord L r lr) | Remove n t \<Rightarrow> RemoveRecord L n t lr)"

lemma local_run_ok:
  "types_ok L \<Longrightarrow> local_ok L lr \<Longrightarrow> local_ok L (fold (local_step L) es lr)"
  by (induction es arbitrary: lr)
    (auto simp: local_step_def AddRecord_ok RemoveRecord_ok split: local_edit.split)

lemma Lookup_SomeD:
  assumes "Lookup L n t lr = Some m" and "local_ok L lr" and "types_ok L"
  shows "\<exists>ty. Answer m \<noteq> [] \<and>
    (ty = TypeToString L t \<or> ty = ''CNAME'' \<and> (t = TypeA \<or> t = TypeAAAA)) \<and>
    fmlookup (records lr) (CanonicalName L n @ ''/'' @ ty) = Some (Answer m)"
  using assms
  by (auto simp: Lookup_def Let_def local_ok_def new_msg_def split: if_splits option.splits)

text \<open>
  C25: after any edits, an answer from the local records is never empty, and every record in it has
  the canonical form of the name asked for, a positive TTL, and the type asked for, or is the
  CNAME of a name without records of the asked address type.
\<close>
theorem Lookup_answers_question:
  assumes "types_ok L" and "lr = fold (local_step L) es (New_localrecords L cfg)"
    and "Lookup L n t lr = Some m"
  shows "Answer m \<noteq> [] \<and> (\<forall>x \<in> set (Answer m).
     hName (Header x) = CanonicalName L n \<and> 0 < ttl_of x \<and>
     (TypeToString L (rrtype_of x) = TypeToString L t
      \<or> (t = TypeA \<or> t = TypeAAAA) \<and> TypeToString L (rrtype_of x) = ''CNAME''))"
proof -
  have ok: "local_ok L lr" unfolding assms(2)
    by (intro local_run_ok New_localrecords_ok assms(1))
  from Lookup_SomeD [OF assms(3) ok assms(1)] obtain ty where ty: "Answer m \<noteq> []"
    "ty = TypeToString L t \<or> ty = ''CNAME'' \<and> (t = TypeA \<or> t = TypeAAAA)"
    "fmlookup (records lr) (CanonicalName L n @ ''/'' @ ty) = Some (Answer m)" by auto
  have noslash: "CHR ''/'' \<notin> set ty" using ty(2) assms(1) by (auto simp: types_ok_def)
  have "hName (Header x) = CanonicalName L n \<and> TypeToString L (rrtype_of x) = ty \<and> 0 < ttl_of x"
    if "x \<in> set (Answer m)" for x
  proof -
    from ok ty(3) that have k: "local_key L x = CanonicalName L n @ ''/'' @ ty" "0 < ttl_of x"
      by (auto simp: local_ok_def)
    have "CHR ''/'' \<notin> set (TypeToString L (rrtype_of x))" using assms(1) by (simp add: types_ok_def)
    from append_sep_inject [OF this noslash] k show ?thesis by (simp add: local_key_def)
  qed
  with ty(1,2) show ?thesis by metis
qed

theorem Lookup_answers_question_witness:
  "\<exists>m. Lookup sample_lib ''nas.home'' TypeA
       (fold (local_step sample_lib) [Add sample_local] (New_localrecords sample_lib DefaultLocalRecordsConfig))
       = Some m
     \<and> Answer m \<noteq> [] \<and> (\<forall>x \<in> set (Answer m). hName (Header x) = CanonicalName sample_lib ''nas.home'')"
proof -
  let ?lr = "fold (local_step sample_lib) [Add sample_local] (New_localrecords sample_lib DefaultLocalRecordsConfig)"
  have "Lookup sample_lib ''nas.home'' TypeA ?lr \<noteq> None" by code_simp
  then obtain m where m: "Lookup sample_lib ''nas.home'' TypeA ?lr = Some m" by blast
  from Lookup_answers_question [OF sample_lib_types refl m] m show ?thesis by blast
qed

text \<open>
  What the list of all records shows can be entered again: each line, added, gives the record it
  was made from. (Not stated for AAAA: it would need the parser on every printed IPv6 address.)
\<close>

definition listed :: "dns_lib \<Rightarrow> rr \<Rightarrow> local_record" where
  "listed L x = \<lparr>lrName = hName (Header x), lrType = TypeToString L (rrtype_of x),
     lrValue = rr_value x, lrTTL = ttl_of x\<rparr>"

lemma GetAllRecords_listed:
  "GetAllRecords L ord lr =
     concat (map (\<lambda>key. map (listed L) (the (fmlookup (records lr) key))) (ord (fmdom (records lr))))"
  by (simp add: GetAllRecords_def listed_def [abs_def])

text \<open>
  A record that was accepted, except an AAAA record, can be exported and entered again: the
  line the list of all records shows for it is accepted and produces the same record.
\<close>
theorem listed_record_roundtrip:
  assumes "names_ok L" and "types_ok L" and "\<forall>s. CanonicalName L (CanonicalName L s) = CanonicalName L s"
    and "record_rr L r = Inr x" and "ToUpper (lrType r) \<noteq> ''AAAA''"
  shows "record_rr L (listed L x) = Inr x"
proof -
  have idem: "owner_name L (CanonicalName L s) = CanonicalName L s" for s
    using assms(1,3) by (simp add: owner_name_canonical)
  have up: "ToUpper ''A'' = ''A''" "ToUpper ''CNAME'' = ''CNAME''" "ToUpper ''TXT'' = ''TXT''"
      "ToUpper ''MX'' = ''MX''"
    by code_simp+
  have ip: "Option.bind (ParseIP (IPString a)) To4 = Some a" if "To4 b = Some a" for a b
    using To4_length [OF that] by (auto simp: IPString_def To4_def ParseIP_v4_string)
  show ?thesis using assms(1-5)
    by (auto simp: record_rr_def [of _ r] Let_def bind_eq_Some_conv split: if_splits option.splits)
      (simp_all add: record_rr_def listed_def types_ok_def up idem owner_name_canonical rr_value_def
        ip word_neq_0_conv names_ok_dot Let_def split: option.split)
qed

lemma sample_canonical_twice: "CanonicalName sample_lib (CanonicalName sample_lib s) = CanonicalName sample_lib s"
  using names_ok_dot [OF sample_lib_names, of s]
  by (auto simp: sample_lib_def sample_canonical_def HasSuffix_dot_ToLower)

theorem listed_record_roundtrip_witness:
  "\<exists>x. record_rr sample_lib sample_local = Inr x \<and> record_rr sample_lib (listed sample_lib x) = Inr x
     \<and> lrValue (listed sample_lib x) = ''192.168.1.5''"
proof -
  let ?x = "RR_A \<lparr>hName = ''nas.home.'', hRrtype = TypeA, hClass = ClassINET, hTtl = 300\<rparr> [192, 168, 1, 5]"
  have x: "record_rr sample_lib sample_local = Inr ?x" by code_simp
  have t: "ToUpper (lrType sample_local) \<noteq> ''AAAA''" by code_simp
  have v: "lrValue (listed sample_lib ?x) = ''192.168.1.5''" by code_simp
  have c: "\<forall>s. CanonicalName sample_lib (CanonicalName sample_lib s) = CanonicalName sample_lib s"
    by (simp add: sample_canonical_twice)
  from listed_record_roundtrip [OF sample_lib_names sample_lib_types c x t] x v show ?thesis by blast
qed

end
