(* ===== verification/Failover.thy ===== *)
theory Failover
  imports DnsMsg
begin

text \<open>
  The fallback to upstream resolvers, \<^verbatim>\<open>internal/failover/failover.go\<close>: the order in which
  upstreams are tried, the retries, the health marks they leave, the periodic recovery check and
  the latency statistics.
\<close>

section \<open>State\<close>

record failover_config =
  foEnabled :: bool
  foUpstreams :: "string list"
  foTimeout :: duration
  foMaxRetries :: int

record upstream_latency =
  TotalLatencyNs :: int
  QueryCount :: int
  AvgLatencyMs :: rat
  LastLatencyMs :: rat

record failover =
  fo_cfg :: failover_config
  fo_healthy :: "(string, bool) fmap"
  lastCheck :: "(string, time) fmap"
  latencyStats :: "(string, upstream_latency) fmap"

definition DefaultFailoverConfig :: failover_config where
  "DefaultFailoverConfig = \<lparr>foEnabled = True, foUpstreams = [''8.8.8.8'', ''1.1.1.1'', ''9.9.9.9''],
     foTimeout = 3 * second, foMaxRetries = 2\<rparr>"

text \<open>Reading a map of flags: \<^verbatim>\<open>false\<close> for a key that is not there.\<close>

definition is_healthy :: "failover \<Rightarrow> string \<Rightarrow> bool" where
  "is_healthy f us = (fmlookup (fo_healthy f) us = Some True)"

definition New_failover :: "failover_config \<Rightarrow> failover" where
  "New_failover cfg =
     \<lparr>fo_cfg = cfg, fo_healthy = fold (\<lambda>us m. fmupd us True m) (foUpstreams cfg) fmempty,
      lastCheck = fmempty, latencyStats = fmempty\<rparr>"

text \<open>
  The network and the clock during one call. Exchange number \<open>i\<close> of the call gets
  \<open>up_exchange i\<close> as its answer (a response may be \<^verbatim>\<open>nil\<close>) and takes from \<open>up_start i\<close> to
  \<open>up_end i\<close>; before upstream number \<open>k\<close> the context has the error \<open>up_done k\<close>, if it is done;
  giving it up happens at \<open>up_marked k\<close>.
\<close>

record upstream_env =
  up_exchange :: "nat \<Rightarrow> msg \<Rightarrow> string \<Rightarrow> go_error + msg option"
  up_start :: "nat \<Rightarrow> time"
  up_end :: "nat \<Rightarrow> time"
  up_done :: "nat \<Rightarrow> go_error option"
  up_marked :: "nat \<Rightarrow> time"

section \<open>Operations\<close>

definition getOrderedUpstreams :: "failover \<Rightarrow> string list" where
  "getOrderedUpstreams f =
     (let (healthy, unhealthy) =
        foldl (\<lambda>(h, u) us. if is_healthy f us then (h @ [us], u) else (h, u @ [us])) ([], [])
          (foUpstreams (fo_cfg f))
      in healthy @ unhealthy)"

definition markHealthy :: "string \<Rightarrow> failover \<Rightarrow> failover" where
  "markHealthy us f = f\<lparr>fo_healthy := fmupd us True (fo_healthy f)\<rparr>"

definition markUnhealthy :: "time \<Rightarrow> string \<Rightarrow> failover \<Rightarrow> failover" where
  "markUnhealthy now us f =
     f\<lparr>fo_healthy := fmupd us False (fo_healthy f), lastCheck := fmupd us now (lastCheck f)\<rparr>"

definition recordLatency :: "string \<Rightarrow> duration \<Rightarrow> failover \<Rightarrow> failover" where
  "recordLatency us latency f =
     (let st = (case fmlookup (latencyStats f) us of
            Some st \<Rightarrow> st
          | None \<Rightarrow> \<lparr>TotalLatencyNs = 0, QueryCount = 0, AvgLatencyMs = 0, LastLatencyMs = 0\<rparr>);
          st = st\<lparr>TotalLatencyNs := TotalLatencyNs st + latency, QueryCount := QueryCount st + 1,
            LastLatencyMs := of_int (go_div latency microsecond) / 1000\<rparr>;
          st = (if 0 < QueryCount st
                then st\<lparr>AvgLatencyMs := of_int (TotalLatencyNs st) / of_int (QueryCount st) / 1000000\<rparr>
                else st)
      in f\<lparr>latencyStats := fmupd us st (latencyStats f)\<rparr>)"

text \<open>
  The attempts at one upstream: \<open>k\<close> are left, the next exchange is number \<open>i\<close>. An answer comes
  with the time it took.
\<close>

fun retry_loop :: "upstream_env \<Rightarrow> msg \<Rightarrow> string \<Rightarrow> nat \<Rightarrow> nat \<Rightarrow> (msg \<times> duration) option \<times> nat" where
  "retry_loop env q addr 0 i = (None, i)"
| "retry_loop env q addr (Suc k) i =
     (case up_exchange env i q addr of
        Inl err \<Rightarrow> retry_loop env q addr k (Suc i)
      | Inr None \<Rightarrow> retry_loop env q addr k (Suc i)
      | Inr (Some resp) \<Rightarrow>
          if Rcode resp \<noteq> RcodeServerFailure then (Some (resp, up_end env i - up_start env i), Suc i)
          else retry_loop env q addr k (Suc i))"

fun upstream_loop :: "upstream_env \<Rightarrow> msg \<Rightarrow> string list \<Rightarrow> nat \<Rightarrow> nat \<Rightarrow> failover
    \<Rightarrow> (go_error + msg option) \<times> failover" where
  "upstream_loop env q [] n i f = (Inr None, f)"
| "upstream_loop env q (us # uss) n i f =
     (case up_done env n of
        Some err \<Rightarrow> (Inl err, f)
      | None \<Rightarrow>
          (case retry_loop env q (us @ '':53'') (nat (foMaxRetries (fo_cfg f) + 1)) i of
             (Some (resp, latency), i') \<Rightarrow>
               (Inr (Some resp), recordLatency us latency (markHealthy us f))
           | (None, i') \<Rightarrow>
               upstream_loop env q uss (Suc n) i' (markUnhealthy (up_marked env n) us f)))"

definition upstream_question :: "dns_lib \<Rightarrow> string \<Rightarrow> u16 \<Rightarrow> msg" where
  "upstream_question L name qtype =
     (SetQuestion L new_msg (Fqdn L name) qtype)\<lparr>RecursionDesired := True\<rparr>"

definition Resolve_upstream :: "dns_lib \<Rightarrow> upstream_env \<Rightarrow> string \<Rightarrow> u16 \<Rightarrow> failover
    \<Rightarrow> (go_error + msg option) \<times> failover" where
  "Resolve_upstream L env name qtype f =
     (if \<not> foEnabled (fo_cfg f) then (Inr None, f)
      else upstream_loop env (upstream_question L name qtype) (getOrderedUpstreams f) 0 0 f)"

text \<open>The recovery check asks every upstream marked unhealthy, in any order, for the root's servers.\<close>

fun check_loop :: "upstream_env \<Rightarrow> msg \<Rightarrow> string list \<Rightarrow> nat \<Rightarrow> failover \<Rightarrow> failover" where
  "check_loop env q [] i f = f"
| "check_loop env q (us # uss) i f =
     check_loop env q uss (Suc i)
       (case up_exchange env i q (us @ '':53'') of
          Inr (Some resp) \<Rightarrow> if Rcode resp = RcodeSuccess then markHealthy us f else f
        | _ \<Rightarrow> f)"

definition root_probe :: "dns_lib \<Rightarrow> msg" where
  "root_probe L = (SetQuestion L new_msg dot TypeNS)\<lparr>RecursionDesired := True\<rparr>"

definition checkUnhealthy :: "dns_lib \<Rightarrow> (string fset \<Rightarrow> string list) \<Rightarrow> upstream_env \<Rightarrow> failover
    \<Rightarrow> failover" where
  "checkUnhealthy L ord env f =
     (let toCheck = filter (\<lambda>us. fmlookup (fo_healthy f) us = Some False) (ord (fmdom (fo_healthy f)))
      in check_loop env (root_probe L) toCheck 0 f)"

definition GetLatencyStats :: "failover \<Rightarrow> (string, upstream_latency) fmap" where
  "GetLatencyStats f = latencyStats f"

definition GetHealthStatus :: "failover \<Rightarrow> (string, bool) fmap" where
  "GetHealthStatus f = fo_healthy f"

section \<open>The order of the upstreams\<close>

lemma getOrderedUpstreams_filter:
  "getOrderedUpstreams f =
     filter (is_healthy f) (foUpstreams (fo_cfg f)) @
     filter (\<lambda>us. \<not> is_healthy f us) (foUpstreams (fo_cfg f))"
proof -
  have "foldl (\<lambda>(h, u) us. if is_healthy f us then (h @ [us], u) else (h, u @ [us])) (h0, u0) xs
      = (h0 @ filter (is_healthy f) xs, u0 @ filter (\<lambda>us. \<not> is_healthy f us) xs)" for h0 u0 xs
    by (induction xs arbitrary: h0 u0) simp_all
  then show ?thesis by (simp add: getOrderedUpstreams_def)
qed

lemma getOrderedUpstreams_set [simp]:
  "set (getOrderedUpstreams f) = set (foUpstreams (fo_cfg f))"
  by (auto simp: getOrderedUpstreams_filter)

lemma getOrderedUpstreams_distinct:
  "distinct (foUpstreams (fo_cfg f)) \<Longrightarrow> distinct (getOrderedUpstreams f)"
  by (auto simp: getOrderedUpstreams_filter)

section \<open>What one call does\<close>

lemma mark_frame [simp]:
  "fo_cfg (markHealthy us f) = fo_cfg f" "fo_cfg (markUnhealthy t us f) = fo_cfg f"
  "fo_cfg (recordLatency us d f) = fo_cfg f"
  "is_healthy (recordLatency us d f) = is_healthy f"
  "is_healthy (markHealthy us f) = (is_healthy f)(us := True)"
  "is_healthy (markUnhealthy t us f) = (is_healthy f)(us := False)"
  by (auto simp: markHealthy_def markUnhealthy_def recordLatency_def Let_def is_healthy_def fun_eq_iff)

text \<open>An answer the code accepts.\<close>

definition usable :: "go_error + msg option \<Rightarrow> bool" where
  "usable r \<longleftrightarrow> (case r of Inr (Some resp) \<Rightarrow> Rcode resp \<noteq> RcodeServerFailure | _ \<Rightarrow> False)"

lemma retry_loop_Some:
  "fst (retry_loop env q addr k i) = Some (resp, d) \<Longrightarrow>
     \<exists>j. up_exchange env j q addr = Inr (Some resp) \<and> Rcode resp \<noteq> RcodeServerFailure
       \<and> d = up_end env j - up_start env j"
  by (induction env q addr k i rule: retry_loop.induct)
    (auto split: sum.splits option.splits if_splits)

lemma retry_loop_None:
  "fst (retry_loop env q addr k i) = None \<Longrightarrow> i \<le> j \<Longrightarrow> j < i + k \<Longrightarrow>
     \<not> usable (up_exchange env j q addr)"
proof (induction env q addr k i rule: retry_loop.induct)
  case (1 env q addr i)
  then show ?case by simp
next
  case (2 env q addr k i)
  then show ?case
    by (cases "j = i") (auto simp: usable_def split: sum.splits option.splits if_splits)
qed

text \<open>
  The trace of a call: the upstreams given up on, the one that answered, and how the health marks
  end up.
\<close>

lemma upstream_loop_answer:
  assumes "upstream_loop env q uss n i f = (Inr (Some resp), f')"
  shows "\<exists>pre us post. uss = pre @ us # post
    \<and> (\<exists>j. up_exchange env j q (us @ '':53'') = Inr (Some resp)) \<and> Rcode resp \<noteq> RcodeServerFailure
    \<and> (\<forall>x. is_healthy f' x \<longleftrightarrow> x = us \<or> (x \<notin> set pre \<and> is_healthy f x))
    \<and> fo_cfg f' = fo_cfg f"
  using assms
proof (induction env q uss n i f rule: upstream_loop.induct)
  case (1 env q n i f)
  then show ?case by simp
next
  case (2 env q us uss n i f)
  have live: "up_done env n = None" using 2(2) by (simp split: option.splits)
  obtain r i' where r: "retry_loop env q (us @ '':53'') (nat (foMaxRetries (fo_cfg f) + 1)) i = (r, i')"
    by fastforce
  show ?case
  proof (cases r)
    case (Some p)
    obtain m d where p: "p = (m, d)" by (cases p)
    have "m = resp" "f' = recordLatency us d (markHealthy us f)"
      using 2(2) live r Some p by simp_all
    moreover from this have "\<exists>j. up_exchange env j q (us @ '':53'') = Inr (Some resp)"
        "Rcode resp \<noteq> RcodeServerFailure"
      using retry_loop_Some [of env q "us @ '':53''" _ i resp d] r Some p by (metis fst_conv)+
    ultimately show ?thesis by (intro exI [of _ "[]"] exI [of _ us] exI [of _ uss]) auto
  next
    case None
    let ?f = "markUnhealthy (up_marked env n) us f"
    have "upstream_loop env q uss (Suc n) i' ?f = (Inr (Some resp), f')"
      using 2(2) live r None by simp
    from 2(1) [OF live r [symmetric] None this] obtain pre v post where ih: "uss = pre @ v # post"
      "\<exists>j. up_exchange env j q (v @ '':53'') = Inr (Some resp)" "Rcode resp \<noteq> RcodeServerFailure"
      "\<forall>x. is_healthy f' x \<longleftrightarrow> x = v \<or> (x \<notin> set pre \<and> is_healthy ?f x)" "fo_cfg f' = fo_cfg ?f"
      by auto
    then show ?thesis
      by (intro exI [of _ "us # pre"] exI [of _ v] exI [of _ post]) auto
  qed
qed

lemma upstream_loop_exhausted:
  "upstream_loop env q uss n i f = (Inr None, f') \<Longrightarrow>
     (\<forall>x. is_healthy f' x \<longleftrightarrow> x \<notin> set uss \<and> is_healthy f x) \<and> fo_cfg f' = fo_cfg f"
  by (induction env q uss n i f rule: upstream_loop.induct)
    (auto split: option.splits prod.splits if_splits)

lemma upstream_loop_survives:
  assumes "\<exists>us \<in> set uss. \<forall>j. usable (up_exchange env j q (us @ '':53''))"
    and "\<forall>k. up_done env k = None" and "0 \<le> foMaxRetries (fo_cfg f)"
  shows "\<exists>resp f'. upstream_loop env q uss n i f = (Inr (Some resp), f')"
  using assms
proof (induction env q uss n i f rule: upstream_loop.induct)
  case (1 env q n i f)
  then show ?case by simp
next
  case (2 env q us uss n i f)
  have live: "up_done env n = None" using 2(3) by simp
  obtain r i' where r: "retry_loop env q (us @ '':53'') (nat (foMaxRetries (fo_cfg f) + 1)) i = (r, i')"
    by fastforce
  show ?case
  proof (cases r)
    case (Some p)
    with live r show ?thesis by (cases p) simp
  next
    case None
    have "\<not> usable (up_exchange env i q (us @ '':53''))"
      using retry_loop_None [of env q "us @ '':53''" "nat (foMaxRetries (fo_cfg f) + 1)" i i] r None 2(4)
      by simp
    then have "\<exists>us \<in> set uss. \<forall>j. usable (up_exchange env j q (us @ '':53''))"
      using 2(2) by auto
    from 2(1) [OF live r [symmetric] None this 2(3)] 2(4) live r None show ?thesis by simp
  qed
qed

section \<open>Properties of a call\<close>

text \<open>
  C14: an answer comes from an exchange with a configured upstream and is not a SERVFAIL; every
  upstream that precedes it in the order was given up on and is now marked unhealthy; no healthy
  upstream is passed over for an unhealthy one; the marks of all others stay.
\<close>
theorem Resolve_upstream_answer:
  assumes "Resolve_upstream L env name qtype f = (Inr (Some resp), f')"
  shows "\<exists>pre us post. getOrderedUpstreams f = pre @ us # post
    \<and> (\<exists>j. up_exchange env j (upstream_question L name qtype) (us @ '':53'') = Inr (Some resp))
    \<and> Rcode resp \<noteq> RcodeServerFailure
    \<and> (\<forall>x. is_healthy f' x \<longleftrightarrow> x = us \<or> (x \<notin> set pre \<and> is_healthy f x))
    \<and> (\<forall>h \<in> set (foUpstreams (fo_cfg f)). is_healthy f h \<longrightarrow> h \<in> set pre \<or> is_healthy f us)"
proof -
  let ?hs = "filter (is_healthy f) (foUpstreams (fo_cfg f))"
  let ?us = "filter (\<lambda>us. \<not> is_healthy f us) (foUpstreams (fo_cfg f))"
  have "upstream_loop env (upstream_question L name qtype) (getOrderedUpstreams f) 0 0 f
      = (Inr (Some resp), f')"
    using assms by (simp add: Resolve_upstream_def split: if_splits)
  from upstream_loop_answer [OF this] obtain pre us post where t: "getOrderedUpstreams f = pre @ us # post"
    "\<exists>j. up_exchange env j (upstream_question L name qtype) (us @ '':53'') = Inr (Some resp)"
    "Rcode resp \<noteq> RcodeServerFailure"
    "\<forall>x. is_healthy f' x \<longleftrightarrow> x = us \<or> (x \<notin> set pre \<and> is_healthy f x)" by auto
  have "h \<in> set pre" if h: "h \<in> set (foUpstreams (fo_cfg f))" "is_healthy f h" "\<not> is_healthy f us" for h
  proof -
    have o: "pre @ us # post = ?hs @ ?us" using t(1) by (simp add: getOrderedUpstreams_filter)
    have "\<not> length pre < length ?hs"
    proof
      assume "length pre < length ?hs"
      then have "(?hs @ ?us) ! length pre \<in> set ?hs" by (simp only: nth_append if_True nth_mem)
      then have "us \<in> set ?hs" by (simp only: o [symmetric] nth_append_length)
      with h(3) show False by simp
    qed
    then have "?hs = take (length ?hs) pre"
      using arg_cong [OF o, of "take (length ?hs)"] by (simp del: filter_append)
    moreover have "h \<in> set ?hs" using h by simp
    ultimately have "h \<in> set (take (length ?hs) pre)" by metis
    then show ?thesis by (rule in_set_takeD)
  qed
  with t show ?thesis by blast
qed

definition sample_answer :: msg where
  "sample_answer = new_msg\<lparr>Response := True\<rparr>"

text \<open>The first upstream never answers, the second does.\<close>

definition sample_env :: upstream_env where
  "sample_env = \<lparr>up_exchange = (\<lambda>i q addr. if addr = ''1.1.1.1:53'' then Inr (Some sample_answer)
       else Inl ''timeout''), up_start = (\<lambda>i. 0), up_end = (\<lambda>i. 5 * millisecond),
     up_done = (\<lambda>k. None), up_marked = (\<lambda>k. 0)\<rparr>"

lemma sample_resolve:
  "\<exists>f'. Resolve_upstream sample_lib sample_env ''example.com'' TypeA (New_failover DefaultFailoverConfig)
     = (Inr (Some sample_answer), f') \<and> \<not> is_healthy f' ''8.8.8.8'' \<and> is_healthy f' ''1.1.1.1''"
proof -
  let ?r = "Resolve_upstream sample_lib sample_env ''example.com'' TypeA (New_failover DefaultFailoverConfig)"
  have "fst ?r = Inr (Some sample_answer)" by code_simp
  moreover have "\<not> is_healthy (snd ?r) ''8.8.8.8''" by code_simp
  moreover have "is_healthy (snd ?r) ''1.1.1.1''" by code_simp
  ultimately show ?thesis by (metis prod.collapse)
qed

theorem Resolve_upstream_answer_witness:
  "\<exists>f' pre us post.
     Resolve_upstream sample_lib sample_env ''example.com'' TypeA (New_failover DefaultFailoverConfig)
       = (Inr (Some sample_answer), f')
     \<and> getOrderedUpstreams (New_failover DefaultFailoverConfig) = pre @ us # post
     \<and> (\<forall>x. is_healthy f' x \<longleftrightarrow>
          x = us \<or> (x \<notin> set pre \<and> is_healthy (New_failover DefaultFailoverConfig) x))"
proof -
  obtain f' where f': "Resolve_upstream sample_lib sample_env ''example.com'' TypeA
      (New_failover DefaultFailoverConfig) = (Inr (Some sample_answer), f')"
    using sample_resolve by blast
  from Resolve_upstream_answer [OF f'] f' show ?thesis by blast
qed

text \<open>
  One upstream that answers is enough: whatever the others do, and whatever their marks, a call
  that is not cancelled returns an answer.
\<close>
theorem Resolve_upstream_survives:
  assumes "foEnabled (fo_cfg f)" and "0 \<le> foMaxRetries (fo_cfg f)" and "\<forall>k. up_done env k = None"
    and "us \<in> set (foUpstreams (fo_cfg f))"
    and "\<forall>j. usable (up_exchange env j (upstream_question L name qtype) (us @ '':53''))"
  shows "\<exists>resp f'. Resolve_upstream L env name qtype f = (Inr (Some resp), f')"
  using assms upstream_loop_survives [of "getOrderedUpstreams f" env "upstream_question L name qtype" f 0 0]
  by (auto simp: Resolve_upstream_def)

theorem Resolve_upstream_survives_witness:
  "\<exists>resp f'. Resolve_upstream sample_lib sample_env ''example.com'' TypeA
      (New_failover DefaultFailoverConfig) = (Inr (Some resp), f')"
  by (rule Resolve_upstream_survives [where us = "''1.1.1.1''"])
    (simp_all add: New_failover_def DefaultFailoverConfig_def sample_env_def usable_def
      sample_answer_def new_msg_def)

text \<open>
  A call that finds no answer marks every upstream unhealthy, and the next call then tries them
  in the configured order again: no upstream is ever left out.
\<close>
theorem Resolve_upstream_exhausted:
  assumes "foEnabled (fo_cfg f)" and "Resolve_upstream L env name qtype f = (Inr None, f')"
  shows "(\<forall>us \<in> set (foUpstreams (fo_cfg f)). \<not> is_healthy f' us)
    \<and> getOrderedUpstreams f' = foUpstreams (fo_cfg f)"
proof -
  have "upstream_loop env (upstream_question L name qtype) (getOrderedUpstreams f) 0 0 f = (Inr None, f')"
    using assms by (simp add: Resolve_upstream_def)
  from upstream_loop_exhausted [OF this]
  have "\<forall>us \<in> set (foUpstreams (fo_cfg f)). \<not> is_healthy f' us" "fo_cfg f' = fo_cfg f" by simp_all
  then show ?thesis by (simp add: getOrderedUpstreams_filter filter_empty_conv filter_id_conv)
qed

definition dead_env :: upstream_env where
  "dead_env = sample_env\<lparr>up_exchange := (\<lambda>i q addr. Inl ''timeout'')\<rparr>"

theorem Resolve_upstream_exhausted_witness:
  "\<exists>f'. Resolve_upstream sample_lib dead_env ''example.com'' TypeA (New_failover DefaultFailoverConfig)
      = (Inr None, f') \<and> getOrderedUpstreams f' = [''8.8.8.8'', ''1.1.1.1'', ''9.9.9.9'']"
proof -
  let ?f = "New_failover DefaultFailoverConfig"
  have on: "foEnabled (fo_cfg ?f)" by code_simp
  have "fst (Resolve_upstream sample_lib dead_env ''example.com'' TypeA ?f) = Inr None" by code_simp
  then obtain f' where f': "Resolve_upstream sample_lib dead_env ''example.com'' TypeA ?f = (Inr None, f')"
    by (metis prod.collapse)
  have "foUpstreams (fo_cfg ?f) = [''8.8.8.8'', ''1.1.1.1'', ''9.9.9.9'']" by code_simp
  with Resolve_upstream_exhausted [OF on f'] f' show ?thesis by simp
qed

section \<open>Recovery\<close>

lemma check_loop_healthy:
  "is_healthy (check_loop env q uss i f) x \<longleftrightarrow>
     is_healthy f x \<or> (\<exists>k < length uss. uss ! k = x \<and>
       (\<exists>resp. up_exchange env (i + k) q (x @ '':53'') = Inr (Some resp) \<and> Rcode resp = RcodeSuccess))"
proof (induction uss arbitrary: i f)
  case Nil
  then show ?case by simp
next
  case (Cons us uss)
  let ?ok = "\<lambda>i x. \<exists>resp. up_exchange env i q (x @ '':53'') = Inr (Some resp) \<and> Rcode resp = RcodeSuccess"
  have "is_healthy (case up_exchange env i q (us @ '':53'') of
          Inr (Some resp) \<Rightarrow> if Rcode resp = RcodeSuccess then markHealthy us f else f | _ \<Rightarrow> f) x
      \<longleftrightarrow> is_healthy f x \<or> (us = x \<and> ?ok i x)"
    by (auto split: sum.split option.split)
  moreover have "(\<exists>k < length (us # uss). (us # uss) ! k = x \<and> ?ok (i + k) x) \<longleftrightarrow>
      (us = x \<and> ?ok i x) \<or> (\<exists>k < length uss. uss ! k = x \<and> ?ok (Suc i + k) x)"
    by (subst less_Suc_eq_0_disj [of _ "length uss", simplified] | simp)+
      (auto simp: less_Suc_eq_0_disj)
  ultimately show ?case by (simp only: check_loop.simps Cons.IH) blast
qed

definition probe_ok :: "dns_lib \<Rightarrow> upstream_env \<Rightarrow> string \<Rightarrow> bool" where
  "probe_ok L env us \<longleftrightarrow>
     (case up_exchange env 0 (root_probe L) (us @ '':53'') of
        Inr (Some resp) \<Rightarrow> Rcode resp = RcodeSuccess | _ \<Rightarrow> False)"

text \<open>
  While the network does not change, the recovery check gives the health mark back to exactly
  the unhealthy upstreams that answer the probe with NOERROR, takes it from nobody, and the order
  of the probes does not matter.
\<close>
theorem checkUnhealthy_recovers:
  assumes "enumerates ord" and "\<forall>j q addr. up_exchange env j q addr = up_exchange env 0 q addr"
  shows "is_healthy (checkUnhealthy L ord env f) us \<longleftrightarrow>
    is_healthy f us \<or> (fmlookup (fo_healthy f) us = Some False \<and> probe_ok L env us)"
proof -
  let ?todo = "filter (\<lambda>us. fmlookup (fo_healthy f) us = Some False) (ord (fmdom (fo_healthy f)))"
  have mem: "us \<in> set ?todo \<longleftrightarrow> fmlookup (fo_healthy f) us = Some False"
    using assms(1) by (auto simp: enumerates_set intro: fmdomI)
  have "is_healthy (check_loop env (root_probe L) ?todo 0 f) us \<longleftrightarrow>
      is_healthy f us \<or> (us \<in> set ?todo \<and> probe_ok L env us)"
    unfolding check_loop_healthy assms(2) [rule_format, of "0 + _"] in_set_conv_nth probe_ok_def
    by (auto split: sum.splits option.splits)
  then show ?thesis unfolding mem by (simp add: checkUnhealthy_def)
qed

definition one_down :: failover where
  "one_down = markUnhealthy 0 ''8.8.8.8'' (markUnhealthy 0 ''1.1.1.1'' (New_failover DefaultFailoverConfig))"

theorem checkUnhealthy_recovers_witness:
  "is_healthy (checkUnhealthy sample_lib sorted_list_of_fset sample_env one_down) ''1.1.1.1''
   \<and> \<not> is_healthy (checkUnhealthy sample_lib sorted_list_of_fset sample_env one_down) ''8.8.8.8''"
proof -
  have st: "\<forall>j q addr. up_exchange sample_env j q addr = up_exchange sample_env 0 q addr"
    by (simp add: sample_env_def)
  have h: "fmlookup (fo_healthy one_down) ''1.1.1.1'' = Some False" "\<not> is_healthy one_down ''8.8.8.8''"
      "probe_ok sample_lib sample_env ''1.1.1.1''" "\<not> probe_ok sample_lib sample_env ''8.8.8.8''"
    by code_simp+
  show ?thesis
    using checkUnhealthy_recovers [OF enumerates_sorted st, of sample_lib one_down "''1.1.1.1''"]
      checkUnhealthy_recovers [OF enumerates_sorted st, of sample_lib one_down "''8.8.8.8''"] h
    by blast
qed

section \<open>Latency statistics\<close>

text \<open>The numbers kept for an upstream are the count, the sum and the mean of what was recorded.\<close>

definition mean_ok :: "upstream_latency \<Rightarrow> bool" where
  "mean_ok st \<longleftrightarrow> 0 < QueryCount st \<and>
     AvgLatencyMs st = of_int (TotalLatencyNs st) / of_int (QueryCount st) / 1000000"

lemma recordLatency_mean:
  assumes "\<forall>us st. fmlookup (latencyStats f) us = Some st \<longrightarrow> mean_ok st"
  shows "\<forall>us st. fmlookup (latencyStats (recordLatency u d f)) us = Some st \<longrightarrow> mean_ok st"
  using assms
  by (auto simp: recordLatency_def mean_ok_def Let_def less_imp_le split: option.splits)

lemma recordLatencies_sum:
  "fmlookup (latencyStats (fold (recordLatency us) (d # ds) (f\<lparr>latencyStats := fmempty\<rparr>))) us =
     Some \<lparr>TotalLatencyNs = sum_list (d # ds), QueryCount = int (length (d # ds)),
       AvgLatencyMs = of_int (sum_list (d # ds)) / of_nat (length (d # ds)) / 1000000,
       LastLatencyMs = of_int (go_div (last (d # ds)) microsecond) / 1000\<rparr>"
proof (induction ds rule: rev_induct)
  case Nil
  then show ?case by (simp add: recordLatency_def Let_def)
next
  case (snoc x ds)
  then show ?case by (simp add: recordLatency_def Let_def add.commute add.left_commute)
qed

end
