(* ===== verification/Resolver.thy ===== *)
theory Resolver
  imports Cache
begin

text \<open>
  The recursive resolver, \<^verbatim>\<open>internal/resolver/resolver.go\<close> and \<^verbatim>\<open>root_hints.go\<close>: the iteration from
  the root servers along referrals, the queries with retries and the TCP fallback, CNAME chains,
  name server addresses from glue, cache or resolution, and the entry point with the cache in
  front. The methods call each other; \<open>resolveIterative\<close> is the recursion on the depth, and the
  methods it goes through take it as the argument \<open>rec\<close>.
\<close>

section \<open>Configuration, environment and state\<close>

record resolver_config =
  MaxDepth :: int
  MaxCNAMEChain :: int
  rcTimeout :: duration
  Retries :: int
  RootHintsFile :: string
  EnableDNSSEC :: bool

definition RootServers :: "string list" where
  "RootServers =
     [''198.41.0.4'', ''170.247.170.2'', ''192.33.4.12'', ''199.7.91.13'', ''192.203.230.10'',
      ''192.5.5.241'', ''192.112.36.4'', ''198.97.190.53'', ''192.36.148.17'', ''192.58.128.30'',
      ''193.0.14.129'', ''199.7.83.42'', ''202.12.27.33'']"

definition RootServersV6 :: "string list" where
  "RootServersV6 =
     [''2001:503:ba3e::2:30'', ''2001:500:200::b'', ''2001:500:2::c'', ''2001:500:2d::d'',
      ''2001:500:a8::e'', ''2001:500:2f::f'', ''2001:500:12::d0d'', ''2001:500:1::53'',
      ''2001:7fe::53'', ''2001:503:c27::2:30'', ''2001:7fd::1'', ''2001:500:9f::42'',
      ''2001:dc3::35'']"

datatype transport = UDP | TCP

text \<open>
  What a resolution meets outside: the answer of a server to an exchange, whether the context is
  done, the random order of a server list, the clock and the iteration order of a cache operation,
  and an identical request in flight with the result it will deliver. Everything may change from
  one tick to the next; \<open>tick\<close> counts these events.
\<close>

record resolver_env =
  exchange :: "nat \<Rightarrow> transport \<Rightarrow> string \<Rightarrow> msg \<Rightarrow> go_error + msg"
  ctx_err :: "nat \<Rightarrow> go_error option"
  shuffle :: "nat \<Rightarrow> string list \<Rightarrow> string list"
  clocks :: "nat \<Rightarrow> clock"
  orders :: "nat \<Rightarrow> string fset \<Rightarrow> string list"
  joined :: "nat \<Rightarrow> string \<Rightarrow> (msg option \<times> go_error option) option"

text \<open>\<open>prefetches\<close> lists the arguments of the goroutines started with \<^verbatim>\<open>go r.prefetch(...)\<close>.\<close>

record rstate =
  rcache :: cache
  tick :: nat
  prefetches :: "(string \<times> u16 \<times> u16) list"

type_synonym resolution = "(go_error + msg) \<times> rstate"
type_synonym resolve_call = "string \<Rightarrow> u16 \<Rightarrow> u16 \<Rightarrow> rstate \<Rightarrow> resolution"

definition tock :: "rstate \<Rightarrow> rstate" where
  "tock st = st\<lparr>tick := Suc (tick st)\<rparr>"

definition NewRootQuery :: "dns_lib \<Rightarrow> string \<Rightarrow> u16 \<Rightarrow> msg" where
  "NewRootQuery L name qtype = (SetQuestion L new_msg (Fqdn L name) qtype)\<lparr>RecursionDesired := False\<rparr>"

definition getRootServers :: "string list" where "getRootServers = RootServers"

section \<open>Querying name servers\<close>

text \<open>\<^verbatim>\<open>net.JoinHostPort\<close>: an IPv6 address is bracketed.\<close>

definition JoinHostPort :: "string \<Rightarrow> string \<Rightarrow> string" where
  "JoinHostPort host port =
     (if CHR '':'' \<in> set host \<or> CHR ''%'' \<in> set host then ''['' @ host @ '']:'' @ port
      else host @ '':'' @ port)"

text \<open>
  The attempts at one server, \<open>k\<close> of them left: a usable response, or none and the last error.
  The loop is left without an answer on SERVFAIL.
\<close>

fun ns_attempts :: "resolver_env \<Rightarrow> msg \<Rightarrow> string \<Rightarrow> nat \<Rightarrow> go_error option \<Rightarrow> rstate
    \<Rightarrow> (msg option \<times> go_error option) \<times> rstate" where
  "ns_attempts env q ns 0 lastErr st = ((None, lastErr), st)"
| "ns_attempts env q ns (Suc k) lastErr st =
     (let addr = JoinHostPort ns ''53'' in
      case exchange env (tick st) UDP addr q of
        Inl err \<Rightarrow> ns_attempts env q ns k (Some err) (tock st)
      | Inr resp \<Rightarrow>
          (let (r, st') =
             (if Truncated resp then (exchange env (tick (tock st)) TCP addr q, tock (tock st))
              else (Inr resp, tock st))
           in case r of
                Inl err \<Rightarrow> ns_attempts env q ns k (Some err) st'
              | Inr resp \<Rightarrow>
                  if Rcode resp = RcodeSuccess \<or> Rcode resp = RcodeNameError
                  then ((Some resp, lastErr), st')
                  else if Rcode resp = RcodeServerFailure
                  then ((None, Some (''SERVFAIL from '' @ ns)), st')
                  else ((Some resp, lastErr), st')))"

fun ns_loop :: "resolver_env \<Rightarrow> resolver_config \<Rightarrow> msg \<Rightarrow> string \<Rightarrow> string list \<Rightarrow> go_error option
    \<Rightarrow> rstate \<Rightarrow> resolution" where
  "ns_loop env cfg q name [] lastErr st =
     (Inl (''all nameservers failed for '' @ name @ '': '' @
        (case lastErr of None \<Rightarrow> ''<nil>'' | Some e \<Rightarrow> e)), st)"
| "ns_loop env cfg q name (ns # nss) lastErr st =
     (case ctx_err env (tick st) of
        Some e \<Rightarrow> (Inl e, tock st)
      | None \<Rightarrow>
          (case ns_attempts env q ns (nat (Retries cfg + 1)) lastErr (tock st) of
             ((Some resp, _), st') \<Rightarrow> (Inr resp, st')
           | ((None, lastErr'), st') \<Rightarrow> ns_loop env cfg q name nss lastErr' st'))"

definition queryNameservers :: "dns_lib \<Rightarrow> resolver_env \<Rightarrow> resolver_config \<Rightarrow> string \<Rightarrow> u16
    \<Rightarrow> string list \<Rightarrow> rstate \<Rightarrow> resolution" where
  "queryNameservers L env cfg name qtype nameservers st =
     ns_loop env cfg (NewRootQuery L name qtype) name (shuffle env (tick st) nameservers) None (tock st)"

section \<open>Reading a response\<close>

fun extractCNAME :: "dns_lib \<Rightarrow> string \<Rightarrow> rr list \<Rightarrow> string" where
  "extractCNAME L name [] = []"
| "extractCNAME L name (x # xs) =
     (case x of
        RR_CNAME h target \<Rightarrow>
          if CanonicalName L (hName h) = CanonicalName L name then target else extractCNAME L name xs
      | _ \<Rightarrow> extractCNAME L name xs)"

definition buildResponse :: "dns_lib \<Rightarrow> string \<Rightarrow> u16 \<Rightarrow> u16 \<Rightarrow> msg \<Rightarrow> msg" where
  "buildResponse L name qtype qclass resp =
     (SetReply L new_msg (NewRootQuery L name qtype))
       \<lparr>RecursionAvailable := True, Authoritative := False, Rcode := Rcode resp,
        Answer := Answer resp, Ns := Ns resp,
        Extra := filter (\<lambda>x. rrtype_of x \<noteq> TypeOPT) (Extra resp)\<rparr>"

definition is_cname :: "rr \<Rightarrow> bool" where
  "is_cname x = (case x of RR_CNAME _ _ \<Rightarrow> True | _ \<Rightarrow> False)"

text \<open>The addresses of the A records of a message, in text form.\<close>

definition a_addresses :: "rr list \<Rightarrow> string list" where
  "a_addresses = List.map_filter (\<lambda>x. case x of RR_A _ a \<Rightarrow> Some (IPString a) | _ \<Rightarrow> None)"

definition ns_names :: "rr list \<Rightarrow> string list" where
  "ns_names = List.map_filter (\<lambda>x. case x of RR_NS _ n \<Rightarrow> Some n | _ \<Rightarrow> None)"

fun glue_map :: "dns_lib \<Rightarrow> rr list \<Rightarrow> (string, string list) fmap \<Rightarrow> (string, string list) fmap" where
  "glue_map L [] m = m"
| "glue_map L (x # xs) m =
     glue_map L xs
       (let add = (\<lambda>h a. let n = CanonicalName L (hName h) in
              fmupd n ((case fmlookup m n of Some ips \<Rightarrow> ips | None \<Rightarrow> []) @ [IPString a]) m)
        in case x of RR_A h a \<Rightarrow> add h a | RR_AAAA h a \<Rightarrow> add h a | _ \<Rightarrow> m)"

section \<open>Referrals and aliases\<close>

text \<open>The loop over name servers without glue: the cache first, else a resolution of its own.\<close>

fun ns_addresses :: "resolve_call \<Rightarrow> dns_lib \<Rightarrow> resolver_env \<Rightarrow> resolver_config \<Rightarrow> int
    \<Rightarrow> string list \<Rightarrow> string list \<Rightarrow> rstate \<Rightarrow> string list \<times> rstate" where
  "ns_addresses rec L env cfg depth [] ips st = (ips, st)"
| "ns_addresses rec L env cfg depth (nsName # names) ips st =
     (let ((mo, found, _), c) = Get L (clocks env (tick st)) nsName TypeA ClassINET (rcache st);
          st = tock (st\<lparr>rcache := c\<rparr>)
      in if found
         then ns_addresses rec L env cfg depth names (ips @ a_addresses (Answer (the mo))) st
         else if depth < MaxDepth cfg - 5 then
           (case rec nsName TypeA ClassINET st of
              (Inl err, st) \<Rightarrow> ns_addresses rec L env cfg depth names ips st
            | (Inr nsResp, st) \<Rightarrow>
                ns_addresses rec L env cfg depth names (ips @ a_addresses (Answer nsResp))
                  (tock (st\<lparr>rcache := Set L (orders env (tick st)) (clocks env (tick st))
                     nsName TypeA ClassINET (Some nsResp) (rcache st)\<rparr>)))
         else ns_addresses rec L env cfg depth names ips st)"

definition extractReferral :: "resolve_call \<Rightarrow> dns_lib \<Rightarrow> resolver_env \<Rightarrow> resolver_config
    \<Rightarrow> msg \<Rightarrow> int \<Rightarrow> rstate \<Rightarrow> string list \<times> rstate" where
  "extractReferral rec L env cfg resp depth st =
     (let nsNames = ns_names (Ns resp) in
      if nsNames = [] then ([], st)
      else let glueMap = glue_map L (Extra resp) fmempty;
               nsIPs = concat (map (\<lambda>n. case fmlookup glueMap (CanonicalName L n) of
                                          Some ips \<Rightarrow> ips | None \<Rightarrow> []) nsNames)
           in if nsIPs = [] then ns_addresses rec L env cfg depth nsNames [] st else (nsIPs, st))"

definition followCNAME :: "resolve_call \<Rightarrow> dns_lib \<Rightarrow> resolver_config \<Rightarrow> string \<Rightarrow> string
    \<Rightarrow> u16 \<Rightarrow> u16 \<Rightarrow> msg \<Rightarrow> int \<Rightarrow> rstate \<Rightarrow> resolution" where
  "followCNAME rec L cfg originalName cname qtype qclass resp depth st =
     (if MaxCNAMEChain cfg < depth then (Inl (''CNAME chain too long for '' @ originalName), st)
      else case rec cname qtype qclass st of
             (Inl err, st) \<Rightarrow> (Inl err, st)
           | (Inr cnameResp, st) \<Rightarrow>
               (Inr ((SetReply L new_msg (NewRootQuery L originalName qtype))
                  \<lparr>Authoritative := False, RecursionAvailable := True,
                   Answer := filter is_cname (Answer resp) @ Answer cnameResp,
                   Ns := Ns cnameResp, Extra := Extra cnameResp, Rcode := Rcode cnameResp\<rparr>), st))"

section \<open>The iteration\<close>

fun resolve_loop :: "resolve_call \<Rightarrow> dns_lib \<Rightarrow> resolver_env \<Rightarrow> resolver_config \<Rightarrow> string \<Rightarrow> u16
    \<Rightarrow> u16 \<Rightarrow> int \<Rightarrow> nat \<Rightarrow> string list \<Rightarrow> rstate \<Rightarrow> resolution" where
  "resolve_loop rec L env cfg name qtype qclass depth 0 nameservers st =
     (Inl (''resolution loop exhausted for '' @ name), st)"
| "resolve_loop rec L env cfg name qtype qclass depth (Suc k) nameservers st =
     (case ctx_err env (tick st) of
        Some e \<Rightarrow> (Inl e, tock st)
      | None \<Rightarrow>
          (case queryNameservers L env cfg name qtype nameservers (tock st) of
             (Inl err, st) \<Rightarrow> (Inl err, st)
           | (Inr resp, st) \<Rightarrow>
               if Authoritative resp \<or> Rcode resp = RcodeNameError
               then (Inr (buildResponse L name qtype qclass resp), st)
               else if Answer resp \<noteq> [] then
                 (let cname = (if qtype \<noteq> TypeCNAME then extractCNAME L name (Answer resp) else [])
                  in if cname \<noteq> []
                     then followCNAME rec L cfg name cname qtype qclass resp depth st
                     else (Inr (buildResponse L name qtype qclass resp), st))
               else if Ns resp \<noteq> [] then
                 (case extractReferral rec L env cfg resp depth st of
                    ([], st) \<Rightarrow> (Inr (buildResponse L name qtype qclass resp), st)
                  | (newNS, st) \<Rightarrow>
                      resolve_loop rec L env cfg name qtype qclass depth k newNS st)
               else (Inr (buildResponse L name qtype qclass resp), st)))"

text \<open>The depth grows with every call and is bounded by \<^verbatim>\<open>MaxDepth\<close>, so the recursion ends.\<close>

function resolveIterative :: "dns_lib \<Rightarrow> resolver_env \<Rightarrow> resolver_config \<Rightarrow> int \<Rightarrow> resolve_call" where
  "resolveIterative L env cfg depth name qtype qclass st =
     (if MaxDepth cfg < depth then (Inl (''max resolution depth exceeded for '' @ name), st)
      else case ctx_err env (tick st) of
             Some e \<Rightarrow> (Inl e, tock st)
           | None \<Rightarrow>
               resolve_loop (\<lambda>n t c s. resolveIterative L env cfg (depth + 1) n t c s)
                 L env cfg name qtype qclass depth (nat (MaxDepth cfg)) getRootServers (tock st))"
  by pat_completeness auto
termination
  by (relation "measure (\<lambda>(L, env, cfg, depth, n, t, c, st). nat (MaxDepth cfg + 1 - depth))") auto

declare resolveIterative.simps [simp del]

section \<open>The entry points\<close>

definition prefetch :: "dns_lib \<Rightarrow> resolver_env \<Rightarrow> resolver_config \<Rightarrow> string \<Rightarrow> u16 \<Rightarrow> u16
    \<Rightarrow> rstate \<Rightarrow> rstate" where
  "prefetch L env cfg name qtype qclass st =
     (case resolveIterative L env cfg 0 name qtype qclass st of
        (Inl err, st) \<Rightarrow> st
      | (Inr m, st) \<Rightarrow>
          tock (st\<lparr>rcache := Set L (orders env (tick st)) (clocks env (tick st))
            name qtype qclass (Some m) (rcache st)\<rparr>))"

definition inflight_key :: "string \<Rightarrow> u16 \<Rightarrow> u16 \<Rightarrow> string" where
  "inflight_key name qtype qclass = name @ ''/'' @ Itoa (uint qtype) @ ''/'' @ Itoa (uint qclass)"

text \<open>
  \<^verbatim>\<open>Resolve\<close>: the message, whether it came from the cache, the error. How requests join one in
  flight is the subject of the theory \<open>Inflight\<close>; here \<open>joined\<close> says what came of it.
\<close>

definition Resolve :: "dns_lib \<Rightarrow> resolver_env \<Rightarrow> resolver_config \<Rightarrow> string \<Rightarrow> u16 \<Rightarrow> u16 \<Rightarrow> rstate
    \<Rightarrow> (msg option \<times> bool \<times> go_error option) \<times> rstate" where
  "Resolve L env cfg name qtype qclass st =
     (let name = Fqdn L name;
          ((mo, found, shouldPrefetch), c) = Get L (clocks env (tick st)) name qtype qclass (rcache st);
          st = tock (st\<lparr>rcache := c\<rparr>)
      in if found then
           ((mo, True, None),
            if shouldPrefetch then st\<lparr>prefetches := prefetches st @ [(name, qtype, qclass)]\<rparr> else st)
         else case joined env (tick st) (inflight_key name qtype qclass) of
                Some (m, err) \<Rightarrow> ((m, False, err), tock st)
              | None \<Rightarrow>
                  (case resolveIterative L env cfg 0 name qtype qclass (tock st) of
                     (Inl err, st) \<Rightarrow> ((None, False, Some err), st)
                   | (Inr m, st) \<Rightarrow>
                       ((Some m, False, None),
                        tock (st\<lparr>rcache := Set L (orders env (tick st)) (clocks env (tick st))
                          name qtype qclass (Some m) (rcache st)\<rparr>))))"

definition PrefetchPopular :: "resolver_env \<Rightarrow> rstate \<Rightarrow> rstate" where
  "PrefetchPopular env st =
     tock (st\<lparr>prefetches := prefetches st @
       PrefetchCandidates (orders env (tick st)) (clocks env (tick st)) (rcache st)\<rparr>)"

end
