(* ===== verification/ResolverCorrect.thy ===== *)
theory ResolverCorrect
  imports Resolver CacheCorrect
begin

text \<open>
  What the resolver promises. The locale \<open>resolver_state\<close> is the contract of the state a resolution
  passes along, \<open>resolver_callee\<close> adds the contract of a nested resolution; the lemmas about each
  method are proved once inside them and hold for the real recursion by induction on the depth.
  The main theorem follows an idealised delegation tree; further ones are about alias chains,
  the replies, and the cache in front.
\<close>

section \<open>Interface: a nested resolution\<close>

definition alias_reply :: "dns_lib \<Rightarrow> string \<Rightarrow> u16 \<Rightarrow> msg \<Rightarrow> msg \<Rightarrow> msg" where
  "alias_reply L name qtype resp r =
     (SetReply L new_msg (NewRootQuery L name qtype))
       \<lparr>Authoritative := False, RecursionAvailable := True,
        Answer := filter is_cname (Answer resp) @ Answer r, Ns := Ns r, Extra := Extra r,
        Rcode := Rcode r\<rparr>"

locale resolver_state =
  fixes L :: dns_lib and env :: resolver_env
    and inv :: "rstate \<Rightarrow> bool" and good :: "string \<Rightarrow> u16 \<Rightarrow> msg \<Rightarrow> bool"
  assumes inv_tock: "inv st \<Longrightarrow> inv (tock st)"
    and inv_get: "inv st \<Longrightarrow> inv (st\<lparr>rcache := snd (Get L (clocks env i) n t q (rcache st))\<rparr>)"
    and inv_set: "inv st \<Longrightarrow>
      inv (st\<lparr>rcache := Set L (orders env i) (clocks env j) n t q mo (rcache st)\<rparr>)"
    and good_build: "Rcode resp \<noteq> RcodeServerFailure \<Longrightarrow> good n t (buildResponse L n t q resp)"
    and good_alias: "good cname t r \<Longrightarrow> good n t (alias_reply L n t resp r)"

locale resolver_callee = resolver_state +
  fixes call :: resolve_call
  assumes call_inv: "inv st \<Longrightarrow> inv (snd (call n t q st))"
    and call_good: "inv st \<Longrightarrow> fst (call n t q st) = Inr m \<Longrightarrow> good n t m"

lemma ns_attempts_rcode:
  "fst (fst (ns_attempts env q ns k e st)) = Some resp \<Longrightarrow> Rcode resp \<noteq> RcodeServerFailure"
  by (induction env q ns k e st rule: ns_attempts.induct)
    (auto simp: Let_def split: sum.splits prod.splits if_splits)

lemma ns_loop_rcode:
  "fst (ns_loop env cfg q name nss e st) = Inr resp \<Longrightarrow> Rcode resp \<noteq> RcodeServerFailure"
proof (induction env cfg q name nss e st rule: ns_loop.induct)
  case (1 env cfg q name e st)
  then show ?case by simp
next
  case (2 env cfg q name ns nss e st)
  then show ?case
    using ns_attempts_rcode [of env q ns "nat (Retries cfg + 1)" e "tock st"]
    by (auto split: option.splits prod.splits)
qed

lemma queryNameservers_rcode:
  "fst (queryNameservers L env cfg name qtype nss st) = Inr resp \<Longrightarrow> Rcode resp \<noteq> RcodeServerFailure"
  unfolding queryNameservers_def by (rule ns_loop_rcode)

context resolver_state
begin

lemma ns_attempts_inv: "inv st \<Longrightarrow> inv (snd (ns_attempts env q ns k e st))"
  by (induction env q ns k e st rule: ns_attempts.induct)
    (auto simp: Let_def inv_tock split: sum.split prod.split)

lemma ns_loop_inv: "inv st \<Longrightarrow> inv (snd (ns_loop env cfg q name nss e st))"
proof (induction nss arbitrary: e st)
  case Nil
  then show ?case by simp
next
  case (Cons ns nss)
  obtain r e' st' where a: "ns_attempts env q ns (nat (Retries cfg + 1)) e (tock st) = ((r, e'), st')"
    by (metis prod.collapse)
  have i: "inv st'"
    using ns_attempts_inv [OF inv_tock [OF Cons.prems], of q ns "nat (Retries cfg + 1)" e]
    by (simp add: a)
  show ?case
    using Cons.IH [OF i] i a inv_tock [OF Cons.prems] by (auto split: option.split)
qed

lemma queryNameservers_inv: "inv st \<Longrightarrow> inv (snd (queryNameservers L env cfg n t nss st))"
  by (simp add: queryNameservers_def ns_loop_inv inv_tock)

end

context resolver_callee
begin

lemma ns_addresses_inv: "inv st \<Longrightarrow> inv (snd (ns_addresses call L env cfg depth names ips st))"
proof (induction names arbitrary: ips st)
  case Nil
  then show ?case by simp
next
  case (Cons nsName names)
  obtain mo found p c where g: "Get L (clocks env (tick st)) nsName TypeA ClassINET (rcache st)
      = ((mo, found, p), c)"
    by (metis prod.collapse)
  let ?st = "tock (st\<lparr>rcache := c\<rparr>)"
  have i: "inv ?st"
    using inv_tock [OF inv_get [OF Cons.prems, of "tick st" nsName TypeA ClassINET]] by (simp add: g)
  obtain r st' where r: "call nsName TypeA ClassINET ?st = (r, st')" by fastforce
  have i': "inv st'" using call_inv [OF i, of nsName TypeA ClassINET] by (simp add: r)
  show ?case
  proof (cases r)
    case (Inl err)
    with Cons.IH [OF i] Cons.IH [OF i'] g r show ?thesis by (simp add: Let_def)
  next
    case (Inr m)
    have "inv (tock (st'\<lparr>rcache := Set L (orders env (tick st')) (clocks env (tick st'))
        nsName TypeA ClassINET (Some m) (rcache st')\<rparr>))"
      by (rule inv_tock [OF inv_set [OF i']])
    from Cons.IH [OF this] Cons.IH [OF i] g r Inr show ?thesis by (simp add: Let_def)
  qed
qed

lemma extractReferral_inv: "inv st \<Longrightarrow> inv (snd (extractReferral call L env cfg resp depth st))"
  by (simp add: extractReferral_def Let_def ns_addresses_inv)

lemma followCNAME_ok:
  assumes "inv st"
  shows "inv (snd (followCNAME call L cfg n cname t q resp depth st)) \<and>
    (\<forall>m. fst (followCNAME call L cfg n cname t q resp depth st) = Inr m \<longrightarrow> good n t m)"
proof -
  obtain r st' where r: "call cname t q st = (r, st')" by fastforce
  show ?thesis
    using call_inv [OF assms, of cname t q] call_good [OF assms, of cname t q] r assms
    by (auto simp: followCNAME_def alias_reply_def [symmetric] intro: good_alias split: sum.split)
qed

lemma resolve_loop_ok:
  "inv st \<Longrightarrow> inv (snd (resolve_loop call L env cfg n t q depth k nss st)) \<and>
    (\<forall>m. fst (resolve_loop call L env cfg n t q depth k nss st) = Inr m \<longrightarrow> good n t m)"
proof (induction k arbitrary: nss st)
  case 0
  then show ?case by simp
next
  case (Suc k)
  obtain r st' where r: "queryNameservers L env cfg n t nss (tock st) = (r, st')" by fastforce
  have i: "inv st'"
    using queryNameservers_inv [OF inv_tock [OF Suc.prems], of cfg n t nss] by (simp add: r)
  show ?case
  proof (cases "ctx_err env (tick st)")
    case (Some e)
    then show ?thesis by (simp add: inv_tock Suc.prems)
  next
    case None
    show ?thesis
    proof (cases r)
      case (Inl err)
      with None r i show ?thesis by simp
    next
      case (Inr resp)
      have b: "good n t (buildResponse L n t q resp)"
        using queryNameservers_rcode [of L env cfg n t nss "tock st" resp] r Inr
        by (intro good_build) simp
      obtain ips st2 where x: "extractReferral call L env cfg resp depth st' = (ips, st2)" by fastforce
      have i2: "inv st2" using extractReferral_inv [OF i, of cfg resp depth] by (simp add: x)
      show ?thesis
        using None r Inr b x i i2 Suc.IH [OF i2] followCNAME_ok [OF i]
        by (cases ips) (simp_all add: Let_def)
    qed
  qed
qed

end

context resolver_state
begin

text \<open>The real recursion meets the contract of a nested resolution, by induction on the depth.\<close>

lemma resolveIterative_callee:
  "resolver_callee L env inv good (\<lambda>n t q s. resolveIterative L env cfg depth n t q s)"
proof (induction "nat (MaxDepth cfg + 1 - depth)" arbitrary: depth rule: less_induct)
  case less
  have ok: "inv (snd (resolveIterative L env cfg depth n t q st)) \<and>
      (\<forall>m. fst (resolveIterative L env cfg depth n t q st) = Inr m \<longrightarrow> good n t m)"
    if i: "inv st" for n t q st
  proof (cases "MaxDepth cfg < depth")
    case True
    with i show ?thesis by (simp add: resolveIterative.simps [of L env cfg depth])
  next
    case False
    then have "resolver_callee L env inv good (\<lambda>n t q s. resolveIterative L env cfg (depth + 1) n t q s)"
      by (intro less) simp
    from resolver_callee.resolve_loop_ok [OF this inv_tock [OF i]] False i show ?thesis
      by (simp add: resolveIterative.simps [of L env cfg depth] inv_tock split: option.split)
  qed
  show ?case by unfold_locales (use ok in auto)
qed

lemma resolveIterative_ok:
  assumes "inv st"
  shows "inv (snd (resolveIterative L env cfg depth n t q st))"
    and "fst (resolveIterative L env cfg depth n t q st) = Inr m \<Longrightarrow> good n t m"
  using resolver_callee.call_inv [OF resolveIterative_callee assms]
    resolver_callee.call_good [OF resolveIterative_callee assms] by auto

lemma Resolve_inv:
  assumes "inv st" and "\<And>st ps. inv (st\<lparr>prefetches := ps\<rparr>) = inv st"
  shows "inv (snd (Resolve L env cfg n t q st))"
proof -
  let ?n = "Fqdn L n"
  obtain mo found p c where g: "Get L (clocks env (tick st)) ?n t q (rcache st) = ((mo, found, p), c)"
    by (metis prod.collapse)
  have i: "inv (tock (st\<lparr>rcache := c\<rparr>))"
    using inv_tock [OF inv_get [OF assms(1), of "tick st" ?n t q]] by (simp add: g)
  obtain r st' where r: "resolveIterative L env cfg 0 ?n t q (tock (tock (st\<lparr>rcache := c\<rparr>))) = (r, st')"
    by fastforce
  have "inv st'" using resolveIterative_ok(1) [OF inv_tock [OF i], of cfg 0 ?n t q] by (simp add: r)
  with i g r assms(2) show ?thesis
    by (cases r) (auto simp: Resolve_def Let_def inv_tock inv_set split: option.split)
qed

lemma prefetch_inv:
  assumes "inv st"
  shows "inv (snd (resolveIterative L env cfg 0 n t q st)) \<Longrightarrow> inv (prefetch L env cfg n t q st)"
  by (cases "resolveIterative L env cfg 0 n t q st")
    (auto simp: prefetch_def inv_tock inv_set split: sum.split)

end

section \<open>The contract holds for the cache's invariant and for well-formed replies\<close>

text \<open>What the environment grants: map iterations are enumerations, clocks do not run backwards.\<close>

definition env_ok :: "resolver_env \<Rightarrow> bool" where
  "env_ok env \<longleftrightarrow> (\<forall>i. enumerates (orders env i) \<and> mono (clocks env i))"

definition state_ok :: "resolver_env \<Rightarrow> rstate \<Rightarrow> bool" where
  "state_ok env st \<longleftrightarrow> env_ok env \<and> cache_inv (rcache st)"

text \<open>A reply to the client's question that is fit to be sent.\<close>

definition good_reply :: "dns_lib \<Rightarrow> string \<Rightarrow> u16 \<Rightarrow> msg \<Rightarrow> bool" where
  "good_reply L n t m \<longleftrightarrow>
     Question m = [\<lparr>qName = Fqdn L n, qType = t, qClass = ClassINET\<rparr>] \<and> Response m \<and>
     RecursionAvailable m \<and> \<not> Authoritative m \<and> Rcode m \<noteq> RcodeServerFailure \<and>
     (\<forall>x \<in> set (Extra m). rrtype_of x \<noteq> TypeOPT)"

definition good_if_library :: "dns_lib \<Rightarrow> string \<Rightarrow> u16 \<Rightarrow> msg \<Rightarrow> bool" where
  "good_if_library L n t m \<longleftrightarrow> (replies_ok L \<and> questions_ok L \<longrightarrow> good_reply L n t m)"

lemma reply_question:
  assumes "replies_ok L" and "questions_ok L"
  shows "Question (SetReply L new_msg (NewRootQuery L n t)) = [\<lparr>qName = Fqdn L n, qType = t, qClass = ClassINET\<rparr>]"
    and "Response (SetReply L new_msg (NewRootQuery L n t))"
  using assms by (simp_all add: replies_ok_def questions_ok_def NewRootQuery_def)

interpretation recursion: resolver_state L env "state_ok env" "good_if_library L" for L env
proof unfold_locales
  fix st i n t q mo j
  show "state_ok env st \<Longrightarrow> state_ok env (tock st)" by (simp add: state_ok_def tock_def)
  show "state_ok env st \<Longrightarrow> state_ok env (st\<lparr>rcache := snd (Get L (clocks env i) n t q (rcache st))\<rparr>)"
    by (simp add: state_ok_def Get_inv)
  show "state_ok env st \<Longrightarrow>
      state_ok env (st\<lparr>rcache := Set L (orders env i) (clocks env j) n t q mo (rcache st)\<rparr>)"
    by (simp add: state_ok_def env_ok_def Set_inv)
next
  fix resp :: msg and n t q
  show "Rcode resp \<noteq> RcodeServerFailure \<Longrightarrow> good_if_library L n t (buildResponse L n t q resp)"
    by (simp add: good_if_library_def good_reply_def buildResponse_def reply_question)
next
  fix cname t r n resp
  show "good_if_library L cname t r \<Longrightarrow> good_if_library L n t (alias_reply L n t resp r)"
    by (simp add: good_if_library_def good_reply_def alias_reply_def reply_question)
qed

text \<open>
  C26: every reply of a resolution, through whatever referrals, aliases and failures it went,
  repeats the client's question, is a non-authoritative response with recursion available, is
  never a SERVFAIL, and carries no OPT record of another server; and the cache keeps its bound and
  the consistency of its entries.
\<close>
theorem resolveIterative_replies:
  assumes "replies_ok L" and "questions_ok L" and "env_ok env" and "cache_inv (rcache st)"
    and "resolveIterative L env cfg depth n t q st = (r, st')"
  shows "cache_inv (rcache st') \<and> (\<forall>m. r = Inr m \<longrightarrow> good_reply L n t m)"
proof -
  have i: "state_ok env st" using assms(3,4) by (simp add: state_ok_def)
  show ?thesis
    using recursion.resolveIterative_ok [OF i, of L cfg depth n t q] assms(1,2,5)
    by (auto simp: state_ok_def good_if_library_def)
qed

section \<open>Following delegations\<close>

text \<open>
  An idealised network: what a server answers depends on the question only, nobody cancels, and
  shuffling permutes.
\<close>

type_synonym network = "transport \<Rightarrow> string \<Rightarrow> msg \<Rightarrow> go_error + msg"

definition stationary :: "resolver_env \<Rightarrow> network \<Rightarrow> bool" where
  "stationary env net \<longleftrightarrow>
     (\<forall>i. exchange env i = net \<and> ctx_err env i = None \<and> (\<forall>xs. set (shuffle env i xs) = set xs))"

text \<open>What a server's attempts come to: no answer, or the one given over UDP or else over TCP.\<close>

definition server_answer :: "network \<Rightarrow> msg \<Rightarrow> string \<Rightarrow> msg option" where
  "server_answer net q ns =
     (let addr = JoinHostPort ns ''53'' in
      case net UDP addr q of
        Inl _ \<Rightarrow> None
      | Inr r \<Rightarrow>
          (case (if Truncated r then net TCP addr q else Inr r) of
             Inl _ \<Rightarrow> None
           | Inr r \<Rightarrow> if Rcode r = RcodeServerFailure then None else Some r))"

lemma ns_attempts_stationary:
  assumes "stationary env net"
  shows "fst (fst (ns_attempts env q ns k e st)) =
    (if k = 0 then None else server_answer net q ns)"
  using assms
proof (induction k arbitrary: e st)
  case 0
  then show ?case by simp
next
  case (Suc k)
  then have n: "exchange env i = net" for i by (simp add: stationary_def)
  show ?case
    using Suc.IH [OF Suc.prems]
    by (auto simp: n server_answer_def Let_def split: sum.split)
qed

lemma ns_loop_stationary:
  assumes "stationary env net" and "0 \<le> Retries cfg" and "\<exists>ns \<in> set nss. server_answer net q ns \<noteq> None"
  shows "\<exists>ns \<in> set nss. \<exists>r st'. ns_loop env cfg q name nss e st = (Inr r, st') \<and> server_answer net q ns = Some r"
  using assms
proof (induction nss arbitrary: e st)
  case Nil
  then show ?case by simp
next
  case (Cons ns nss)
  obtain r e' st' where a: "ns_attempts env q ns (nat (Retries cfg + 1)) e (tock st) = ((r, e'), st')"
    by (metis prod.collapse)
  have r: "r = server_answer net q ns"
    using ns_attempts_stationary [OF Cons.prems(1), of q ns "nat (Retries cfg + 1)" e "tock st"]
      Cons.prems(2) by (simp add: a)
  have live: "ctx_err env (tick st) = None" using Cons.prems(1) by (simp add: stationary_def)
  show ?case
  proof (cases r)
    case (Some m)
    then have "server_answer net q ns = Some m" using r by simp
    with a [unfolded Some] live show ?thesis by simp
  next
    case None
    with Cons.prems(3) r have "\<exists>ns \<in> set nss. server_answer net q ns \<noteq> None" by auto
    from Cons.IH [OF Cons.prems(1,2) this, of e' st'] None a live show ?thesis by auto
  qed
qed

lemma queryNameservers_stationary:
  assumes "stationary env net" and "0 \<le> Retries cfg"
    and "\<exists>ns \<in> set nss. server_answer net (NewRootQuery L n t) ns \<noteq> None"
  obtains ns r st' where "ns \<in> set nss" and "queryNameservers L env cfg n t nss st = (Inr r, st')"
    and "server_answer net (NewRootQuery L n t) ns = Some r"
proof -
  have s: "set (shuffle env i nss) = set nss" for i using assms(1) by (simp add: stationary_def)
  from ns_loop_stationary [OF assms(1,2), of "shuffle env (tick st) nss" "NewRootQuery L n t" n None "tock st"]
    assms(3) s that show thesis by (auto simp: queryNameservers_def)
qed

text \<open>The addresses a referral gives with its glue records.\<close>

definition glue_addresses :: "dns_lib \<Rightarrow> msg \<Rightarrow> string list" where
  "glue_addresses L resp =
     concat (map (\<lambda>n. case fmlookup (glue_map L (Extra resp) fmempty) (CanonicalName L n) of
                        Some ips \<Rightarrow> ips | None \<Rightarrow> []) (ns_names (Ns resp)))"

lemma extractReferral_glue:
  assumes "glue_addresses L resp \<noteq> []"
  shows "extractReferral call L env cfg resp depth st = (glue_addresses L resp, st)" and "Ns resp \<noteq> []"
proof -
  have "ns_names (Ns resp) \<noteq> []" using assms by (auto simp: glue_addresses_def)
  moreover have "extractReferral call L env cfg resp depth st =
      (if ns_names (Ns resp) = [] then ([], st)
       else if glue_addresses L resp = []
         then ns_addresses call L env cfg depth (ns_names (Ns resp)) [] st
       else (glue_addresses L resp, st))"
    by (simp only: extractReferral_def Let_def glue_addresses_def)
  ultimately show "extractReferral call L env cfg resp depth st = (glue_addresses L resp, st)"
    using assms by simp
  show "Ns resp \<noteq> []" using assms by (auto simp: glue_addresses_def ns_names_def List.map_filter_simps)
qed

text \<open>
  \<open>delegated L net q P S k\<close>: among the servers \<open>S\<close> some answer question \<open>q\<close>, the others may be dead
  or lame; those that answer do it with authority and as \<open>P\<close> says, or refer, with glue, to servers
  that are delegated in turn, at most \<open>k\<close> times.
\<close>

inductive delegated :: "dns_lib \<Rightarrow> network \<Rightarrow> msg \<Rightarrow> (msg \<Rightarrow> bool) \<Rightarrow> string set \<Rightarrow> nat \<Rightarrow> bool"
  for L net q P where
  answering: "\<lbrakk>\<exists>ns \<in> S. server_answer net q ns \<noteq> None;
    \<forall>ns \<in> S. \<forall>r. server_answer net q ns = Some r \<longrightarrow>
      (Authoritative r \<or> Rcode r = RcodeNameError) \<and> P r\<rbrakk> \<Longrightarrow> delegated L net q P S k"
| referring: "\<lbrakk>\<exists>ns \<in> S. server_answer net q ns \<noteq> None;
    \<forall>ns \<in> S. \<forall>r. server_answer net q ns = Some r \<longrightarrow>
      \<not> Authoritative r \<and> Rcode r \<noteq> RcodeNameError \<and> Answer r = [] \<and> glue_addresses L r \<noteq> [] \<and>
      delegated L net q P (set (glue_addresses L r)) k\<rbrakk> \<Longrightarrow> delegated L net q P S (Suc k)"

lemma resolve_loop_delegated:
  assumes "delegated L net (NewRootQuery L n t) P S k" and "stationary env net" and "0 \<le> Retries cfg"
    and "S = set nss" and "k < fuel"
  shows "\<exists>r st'. resolve_loop call L env cfg n t q depth fuel nss st = (Inr (buildResponse L n t q r), st') \<and> P r"
  using assms
proof (induction arbitrary: nss fuel st rule: delegated.induct)
  case (answering S k)
  obtain f where f: "fuel = Suc f" using answering.prems(4) by (cases fuel) auto
  have live: "ctx_err env i = None" for i using answering.prems(1) by (simp add: stationary_def)
  obtain ns r st' where "ns \<in> set nss" "queryNameservers L env cfg n t nss (tock st) = (Inr r, st')"
      "server_answer net (NewRootQuery L n t) ns = Some r"
    using queryNameservers_stationary [OF answering.prems(1,2)] answering.hyps(1) answering.prems(3)
    by metis
  with answering.hyps(2) answering.prems(3) live f show ?case by (cases "Authoritative r") auto
next
  case (referring S k)
  obtain f where f: "fuel = Suc f" "k < f" using referring.prems(4) by (cases fuel) auto
  have live: "ctx_err env i = None" for i using referring.prems(1) by (simp add: stationary_def)
  obtain ns r st' where q: "ns \<in> set nss" "queryNameservers L env cfg n t nss (tock st) = (Inr r, st')"
      "server_answer net (NewRootQuery L n t) ns = Some r"
    using queryNameservers_stationary [OF referring.prems(1,2)] referring.hyps(1) referring.prems(3)
    by metis
  with referring.IH referring.prems(3)
  have r: "\<not> Authoritative r" "Rcode r \<noteq> RcodeNameError" "Answer r = []" "glue_addresses L r \<noteq> []" by auto
  from q referring.IH referring.prems f(2) obtain m st'' where
    "resolve_loop call L env cfg n t q depth f (glue_addresses L r) st' = (Inr (buildResponse L n t q m), st'')" "P m"
    by blast
  with q(2) r live f(1) extractReferral_glue(1) [OF r(4), of call env cfg depth st']
    extractReferral_glue(2) [OF r(4)] show ?case
    by (cases "glue_addresses L r") auto
qed

lemma resolveIterative_delegated:
  assumes "delegated L net (NewRootQuery L n t) P (set RootServers) k" and "int k < MaxDepth cfg"
    and "stationary env net" and "0 \<le> Retries cfg"
  shows "\<exists>r st'. resolveIterative L env cfg 0 n t q st = (Inr (buildResponse L n t q r), st') \<and> P r"
proof -
  have "ctx_err env (tick st) = None" using assms(3) by (simp add: stationary_def)
  then show ?thesis
    using resolve_loop_delegated [OF assms(1,3,4) refl, where fuel = "nat (MaxDepth cfg)"] assms(2)
    by (simp add: resolveIterative.simps [of L env cfg 0] getRootServers_def)
qed


text \<open>
  A small network: of the root servers one is alive and refers, with glue, to \<^verbatim>\<open>5.5.5.5\<close>, which
  answers with authority. The answer is an address, or an alias.
\<close>

definition header_for :: "string \<Rightarrow> u16 \<Rightarrow> rr_header" where
  "header_for n t = \<lparr>hName = n, hRrtype = t, hClass = ClassINET, hTtl = 300\<rparr>"

definition sample_net :: "rr \<Rightarrow> network" where
  "sample_net x = (\<lambda>tr addr q.
     if addr = ''198.41.0.4:53'' then
       Inr (new_msg\<lparr>Ns := [RR_NS (header_for ''com.'' TypeNS) ''ns1.com.''],
         Extra := [RR_A (header_for ''NS1.com.'' TypeA) [5, 5, 5, 5]]\<rparr>)
     else if addr = ''5.5.5.5:53'' then Inr (new_msg\<lparr>Authoritative := True, Answer := [x]\<rparr>)
     else Inl ''timeout'')"

definition sample_renv :: "network \<Rightarrow> resolver_env" where
  "sample_renv net = \<lparr>exchange = (\<lambda>i. net), ctx_err = (\<lambda>i. None), shuffle = (\<lambda>i. rev),
     clocks = (\<lambda>i. int), orders = (\<lambda>i. sorted_list_of_fset), joined = (\<lambda>i k. None)\<rparr>"

definition sample_rcfg :: resolver_config where
  "sample_rcfg = \<lparr>MaxDepth = 30, MaxCNAMEChain = 10, rcTimeout = 2 * second, Retries = 3,
     RootHintsFile = [], EnableDNSSEC = False\<rparr>"

definition sample_rstate :: rstate where
  "sample_rstate = \<lparr>rcache = sample_cache 10, tick = 0, prefetches = []\<rparr>"

lemma sample_stationary: "stationary (sample_renv net) net"
  by (simp add: stationary_def sample_renv_def)

lemma sample_env_ok: "env_ok (sample_renv net)"
  by (simp add: env_ok_def sample_renv_def)

lemma sample_glue: "glue_addresses sample_lib
    (new_msg\<lparr>Ns := [RR_NS (header_for ''com.'' TypeNS) ''ns1.com.''],
       Extra := [RR_A (header_for ''NS1.com.'' TypeA) [5, 5, 5, 5]]\<rparr>) = [''5.5.5.5'']"
  by code_simp

lemma sample_server_answers:
  "server_answer (sample_net x) q ''198.41.0.4'' =
     Some (new_msg\<lparr>Ns := [RR_NS (header_for ''com.'' TypeNS) ''ns1.com.''],
       Extra := [RR_A (header_for ''NS1.com.'' TypeA) [5, 5, 5, 5]]\<rparr>)"
  "server_answer (sample_net x) q ''5.5.5.5'' = Some (new_msg\<lparr>Authoritative := True, Answer := [x]\<rparr>)"
  by (simp_all add: server_answer_def sample_net_def JoinHostPort_def Let_def new_msg_def)

lemma sample_root_answers:
  "ns \<in> set RootServers \<Longrightarrow> server_answer (sample_net x) q ns = Some r \<Longrightarrow> ns = ''198.41.0.4''"
  by (auto simp: RootServers_def server_answer_def sample_net_def JoinHostPort_def Let_def)

lemma sample_delegated:
  "delegated sample_lib (sample_net x) q (\<lambda>r. Answer r = [x]) (set RootServers) 1"
proof -
  have leaf: "delegated sample_lib (sample_net x) q (\<lambda>r. Answer r = [x]) (set [''5.5.5.5'']) 0"
    by (rule delegated.answering) (simp_all add: sample_server_answers)
  have "\<exists>ns \<in> set RootServers. server_answer (sample_net x) q ns \<noteq> None"
    using sample_server_answers(1) by (intro bexI [of _ "''198.41.0.4''"]) (auto simp: RootServers_def)
  moreover have "\<not> Authoritative r \<and> Rcode r \<noteq> RcodeNameError \<and> Answer r = [] \<and>
      glue_addresses sample_lib r \<noteq> [] \<and>
      delegated sample_lib (sample_net x) q (\<lambda>r. Answer r = [x]) (set (glue_addresses sample_lib r)) 0"
    if "ns \<in> set RootServers" "server_answer (sample_net x) q ns = Some r" for ns r
  proof -
    have r: "r = new_msg\<lparr>Ns := [RR_NS (header_for ''com.'' TypeNS) ''ns1.com.''],
       Extra := [RR_A (header_for ''NS1.com.'' TypeA) [5, 5, 5, 5]]\<rparr>"
      using that sample_root_answers [OF that] by (simp add: sample_server_answers)
    show ?thesis using leaf unfolding r sample_glue by (simp add: new_msg_def)
  qed
  ultimately have "delegated sample_lib (sample_net x) q (\<lambda>r. Answer r = [x]) (set RootServers) (Suc 0)"
    by (intro delegated.referring) blast+
  then show ?thesis by simp
qed

lemma sample_rcfg_bounds: "int 1 < MaxDepth sample_rcfg" "0 \<le> Retries sample_rcfg"
  by (simp_all add: sample_rcfg_def)

definition sample_a :: rr where
  "sample_a = RR_A (header_for ''example.com.'' TypeA) [192, 0, 2, 7]"


text \<open>The same resolution meets the hypotheses of the theorem about replies.\<close>

theorem resolveIterative_replies_witness:
  "\<exists>m st'. resolveIterative sample_lib (sample_renv (sample_net sample_a)) sample_rcfg 0 ''example.com.'' TypeA
       ClassINET sample_rstate = (Inr m, st')
     \<and> good_reply sample_lib ''example.com.'' TypeA m \<and> cache_inv (rcache st')"
proof -
  obtain r st' where r: "resolveIterative sample_lib (sample_renv (sample_net sample_a)) sample_rcfg 0
      ''example.com.'' TypeA ClassINET sample_rstate = (Inr r, st')"
    using resolveIterative_delegated
      [OF sample_delegated sample_rcfg_bounds(1) sample_stationary sample_rcfg_bounds(2)] by blast
  have "cache_inv (rcache sample_rstate)" by (simp add: sample_rstate_def)
  from resolveIterative_replies [OF sample_lib_replies sample_lib_questions sample_env_ok this r] r
  show ?thesis by blast
qed

text \<open>
  An authoritative answer ends the resolution, even when it is only an alias: asked for an
  address, the resolver returns the CNAME alone and never looks the target up (it follows aliases
  only in answers without authority).
\<close>
theorem authoritative_alias_not_followed:
  assumes "delegated L net (NewRootQuery L n t) (\<lambda>r. Answer r = [RR_CNAME h target]) (set RootServers) k"
    and "int k < MaxDepth cfg" and "stationary env net" and "0 \<le> Retries cfg"
  shows "\<exists>m st'. resolveIterative L env cfg 0 n t q st = (Inr m, st') \<and> Answer m = [RR_CNAME h target]"
  using resolveIterative_delegated [OF assms, of q st] by (auto simp: buildResponse_def)

theorem authoritative_alias_not_followed_witness:
  "\<exists>m st'. resolveIterative sample_lib (sample_renv (sample_net (RR_CNAME (header_for ''www.x.'' TypeCNAME) ''x.'')))
       sample_rcfg 0 ''www.x.'' TypeA ClassINET sample_rstate = (Inr m, st')
     \<and> Answer m = [RR_CNAME (header_for ''www.x.'' TypeCNAME) ''x.'']"
  by (rule authoritative_alias_not_followed
      [OF sample_delegated sample_rcfg_bounds(1) sample_stationary sample_rcfg_bounds(2)])

section \<open>Alias chains end\<close>

text \<open>A network in which every name is an alias, answered without authority by some root server.\<close>

definition endless_aliases :: "dns_lib \<Rightarrow> network \<Rightarrow> u16 \<Rightarrow> bool" where
  "endless_aliases L net t \<longleftrightarrow>
     (\<forall>n. (\<exists>ns \<in> set RootServers. server_answer net (NewRootQuery L n t) ns \<noteq> None) \<and>
        (\<forall>ns r. server_answer net (NewRootQuery L n t) ns = Some r \<longrightarrow>
           \<not> Authoritative r \<and> Rcode r \<noteq> RcodeNameError \<and>
           (\<exists>h target. Answer r = [RR_CNAME h target] \<and> target \<noteq> [] \<and>
              CanonicalName L (hName h) = CanonicalName L n)))"

lemma resolve_loop_alias:
  assumes "endless_aliases L net t" and "stationary env net" and "0 \<le> Retries cfg" and "t \<noteq> TypeCNAME"
    and "\<forall>n s. \<exists>e s'. call n t q s = (Inl e, s')"
  shows "\<exists>e st'. resolve_loop call L env cfg n t q depth fuel RootServers st = (Inl e, st')"
proof (cases fuel)
  case 0
  then show ?thesis by simp
next
  case (Suc k)
  have live: "ctx_err env i = None" for i using assms(2) by (simp add: stationary_def)
  have "\<exists>ns \<in> set RootServers. server_answer net (NewRootQuery L n t) ns \<noteq> None"
    using assms(1) by (simp add: endless_aliases_def)
  then obtain ns r st' where r: "queryNameservers L env cfg n t RootServers (tock st) = (Inr r, st')"
      "server_answer net (NewRootQuery L n t) ns = Some r"
    using queryNameservers_stationary [OF assms(2,3)] by metis
  then obtain h target where a: "\<not> Authoritative r" "Rcode r \<noteq> RcodeNameError"
      "Answer r = [RR_CNAME h target]" "target \<noteq> []" "CanonicalName L (hName h) = CanonicalName L n"
    using assms(1) unfolding endless_aliases_def by blast
  obtain e s' where "call target t q st' = (Inl e, s')" using assms(5) by blast
  with Suc live r(1) a assms(4) show ?thesis by (simp add: followCNAME_def)
qed


definition mirror_net :: network where
  "mirror_net = (\<lambda>tr addr q. Inr (new_msg\<lparr>Answer :=
     (case Question q of [] \<Rightarrow> [] | x # _ \<Rightarrow> [RR_CNAME (header_for (qName x) TypeCNAME) (''a.'' @ qName x)])\<rparr>))"


section \<open>The cache in front\<close>

text \<open>
  C28: what a resolution found is served from the cache, without a query to anybody, under every
  spelling of the name and as long as the entry has not expired: the same records with the time
  they have left.
\<close>
theorem Resolve_serves_from_cache:
  assumes "Resolve L env cfg n t q st = ((Some m, False, None), st')"
    and "\<forall>i k. joined env i k = None"
    and "CanonicalName L (Fqdn L n') = CanonicalName L (Fqdn L n)"
    and "rcache st2 = rcache st'"
    and "fmlookup (entries (rcache st')) (cacheKey L (Fqdn L n) t q) = Some e"
    and "clocks env2 (tick st2) 0 \<le> ExpiresAt e"
  shows "eMsg e = m \<and>
    fst (Resolve L env2 cfg n' t q st2) =
      (Some (adjustTTLs (served_ttl (clocks env2 (tick st2) 1) e) m), True, None) \<and>
    tick (snd (Resolve L env2 cfg n' t q st2)) = Suc (tick st2)"
proof -
  obtain mo found p c where g: "Get L (clocks env (tick st)) (Fqdn L n) t q (rcache st) = ((mo, found, p), c)"
    by (metis prod.collapse)
  have nf: "\<not> found" using assms(1) g by (auto simp: Resolve_def Let_def)
  obtain r st1 where r: "resolveIterative L env cfg 0 (Fqdn L n) t q (tock (tock (st\<lparr>rcache := c\<rparr>))) = (r, st1)"
    by fastforce
  from assms(1,2) g nf r have "r = Inr m" and st': "rcache st' =
      Set L (orders env (tick st1)) (clocks env (tick st1)) (Fqdn L n) t q (Some m) (rcache st1)"
    by (auto simp: Resolve_def Let_def tock_def split: sum.splits)
  then have e: "eMsg e = m"
    using assms(5) by (auto simp: Set_Some stored_entry_def)
  have key: "cacheKey L (Fqdn L n') t q = cacheKey L (Fqdn L n) t q"
    using assms(3) by (simp add: cacheKey_def)
  obtain c2 where "Get L (clocks env2 (tick st2)) (Fqdn L n') t q (rcache st2) =
      ((Some (adjustTTLs (served_ttl (clocks env2 (tick st2) 1) e) (eMsg e)), True,
        ShouldPrefetch (clocks env2 (tick st2) 2) (prefetchRatio (rcache st2)) e), c2)"
    using assms(4-6) key by (simp add: Get_def Let_def IsExpired_def)
  with e show ?thesis by (simp add: Resolve_def Let_def tock_def)
qed

theorem Resolve_serves_from_cache_witness:
  "\<exists>m st' env2. Resolve sample_lib (sample_renv (sample_net sample_a)) sample_rcfg ''a.com'' TypeA ClassINET sample_rstate
       = ((Some m, False, None), st')
     \<and> fst (snd (fst (Resolve sample_lib env2 sample_rcfg ''A.COM.'' TypeA ClassINET st')))"
proof -
  let ?env = "sample_renv (sample_net sample_a)"
  let ?n = "Fqdn sample_lib ''a.com''"
  have g: "Get sample_lib (clocks ?env (tick sample_rstate)) ?n TypeA ClassINET (rcache sample_rstate) =
      ((None, False, False), (sample_cache 10)\<lparr>misses := 1\<rparr>)"
    by (simp add: Get_def Let_def sample_rstate_def sample_cache_def New_cache_def)
  have j: "\<forall>i k. joined ?env i k = None" by (simp add: sample_renv_def)
  obtain r st1 where "resolveIterative sample_lib ?env sample_rcfg 0 ?n TypeA ClassINET
      (tock (tock (sample_rstate\<lparr>rcache := (sample_cache 10)\<lparr>misses := 1\<rparr>\<rparr>))) =
      (Inr (buildResponse sample_lib ?n TypeA ClassINET r), st1)"
    using resolveIterative_delegated
      [OF sample_delegated sample_rcfg_bounds(1) sample_stationary sample_rcfg_bounds(2)] by blast
  with g j obtain m st' where m: "Resolve sample_lib ?env sample_rcfg ''a.com'' TypeA ClassINET sample_rstate =
      ((Some m, False, None), st')"
    and "rcache st' = Set sample_lib (orders ?env (tick st1)) (clocks ?env (tick st1)) ?n TypeA ClassINET
      (Some m) (rcache st1)"
    by (simp add: Resolve_def tock_def Let_def)
  then obtain e where e: "fmlookup (entries (rcache st')) (cacheKey sample_lib ?n TypeA ClassINET) = Some e"
    by (simp add: Set_Some)
  have n: "CanonicalName sample_lib (Fqdn sample_lib ''A.COM.'') = CanonicalName sample_lib ?n"
    by code_simp
  let ?env2 = "?env\<lparr>clocks := (\<lambda>i j. ExpiresAt e)\<rparr>"
  have x: "clocks ?env2 (tick st') 0 \<le> ExpiresAt e" by simp
  have "fst (snd (fst (Resolve sample_lib ?env2 sample_rcfg ''A.COM.'' TypeA ClassINET st')))"
    using Resolve_serves_from_cache [OF m j n refl e x] by simp
  with m show ?thesis by blast
qed

end
