(* ===== verification/ClientStats.thy ===== *)
theory ClientStats
  imports Prelude
begin

text \<open>
  Statistics per client address, \<^verbatim>\<open>internal/clientstats/clientstats.go\<close>: recording a query with
  eviction of the client seen longest ago, and the summaries shown on the dashboard.
\<close>

section \<open>State and operations\<close>

record client_info =
  ciIP :: string
  ciTotal :: u64
  ciBlocked :: u64
  FirstSeen :: time
  LastSeen :: time
  TopDomains :: "(string, u64) fmap"
  ciLatencyNs :: int
  ciCount :: int

record domain_count =
  dcDomain :: string
  dcCount :: u64

record client_summary =
  csIP :: string
  csTotal :: u64
  csBlocked :: u64
  csFirstSeen :: time
  csLastSeen :: time
  csTopDomains :: "domain_count list"
  csAvgLatencyMs :: rat

record tracker =
  clients :: "(string, client_info) fmap"
  maxClients :: int

definition New_tracker :: "int \<Rightarrow> tracker" where
  "New_tracker n = \<lparr>clients = fmempty, maxClients = (if n \<le> 0 then 10000 else n)\<rparr>"

definition evictOldestClient :: "(string fset \<Rightarrow> string list) \<Rightarrow> tracker \<Rightarrow> tracker" where
  "evictOldestClient ord t = t\<lparr>clients := evict_min LastSeen ord (clients t)\<rparr>"

definition domain_limit :: nat where "domain_limit = 100"

definition count_domain :: "string \<Rightarrow> (string, u64) fmap \<Rightarrow> (string, u64) fmap" where
  "count_domain domain m =
     (let n = (case fmlookup m domain of Some n \<Rightarrow> n | None \<Rightarrow> 0) in
      if mlen m < domain_limit then fmupd domain (n + 1) m
      else if fmlookup m domain \<noteq> None then fmupd domain (n + 1) m
      else m)"

text \<open>The clock is read for \<open>FirstSeen\<close> of a new client and for \<open>LastSeen\<close>.\<close>

definition RecordClient :: "(string fset \<Rightarrow> string list) \<Rightarrow> clock \<Rightarrow> string \<Rightarrow> string \<Rightarrow> bool
    \<Rightarrow> duration \<Rightarrow> tracker \<Rightarrow> tracker" where
  "RecordClient ord clk clientIP domain was_blocked latency t =
     (let (c, t) =
        (case fmlookup (clients t) clientIP of
           Some c \<Rightarrow> (c, t)
         | None \<Rightarrow>
             (\<lparr>ciIP = clientIP, ciTotal = 0, ciBlocked = 0, FirstSeen = clk 0, LastSeen = 0,
               TopDomains = fmempty, ciLatencyNs = 0, ciCount = 0\<rparr>,
              if maxClients t \<le> int (mlen (clients t)) then evictOldestClient ord t else t));
          c = c\<lparr>ciTotal := ciTotal c + 1, LastSeen := clk 1,
                ciLatencyNs := ciLatencyNs c + latency, ciCount := ciCount c + 1,
                ciBlocked := (if was_blocked then ciBlocked c + 1 else ciBlocked c),
                TopDomains := count_domain domain (TopDomains c)\<rparr>
      in t\<lparr>clients := fmupd clientIP c (clients t)\<rparr>)"

definition buildSummary :: "(string fset \<Rightarrow> string list) \<Rightarrow> client_info \<Rightarrow> client_summary" where
  "buildSummary ord c =
     (let domains = sort_key (\<lambda>d. - uint (dcCount d))
            (map (\<lambda>d. \<lparr>dcDomain = d, dcCount = the (fmlookup (TopDomains c) d)\<rparr>)
              (ord (fmdom (TopDomains c))));
          topLimit = (if length domains < 10 then length domains else 10)
      in \<lparr>csIP = ciIP c, csTotal = ciTotal c, csBlocked = ciBlocked c, csFirstSeen = FirstSeen c,
          csLastSeen = LastSeen c, csTopDomains = take topLimit domains,
          csAvgLatencyMs = (if 0 < ciCount c
             then of_int (ciLatencyNs c) / of_int (ciCount c) / 1000000 else 0)\<rparr>)"

definition GetClient :: "(string fset \<Rightarrow> string list) \<Rightarrow> string \<Rightarrow> tracker \<Rightarrow> client_summary option" where
  "GetClient ord ip t = map_option (buildSummary ord) (fmlookup (clients t) ip)"

text \<open>\<^verbatim>\<open>make\<close> panics on a negative limit.\<close>

definition GetTopClients :: "(string fset \<Rightarrow> string list) \<Rightarrow> int \<Rightarrow> tracker
    \<Rightarrow> client_summary list option" where
  "GetTopClients ord limit t =
     (let cs = sort_key (\<lambda>c. - uint (ciTotal c))
            (map (\<lambda>ip. the (fmlookup (clients t) ip)) (ord (fmdom (clients t))));
          limit = (if int (length cs) < limit then int (length cs) else limit)
      in if limit < 0 then None else Some (map (buildSummary ord) (take (nat limit) cs)))"

definition GetActiveClients :: "(string fset \<Rightarrow> string list) \<Rightarrow> time \<Rightarrow> duration \<Rightarrow> tracker \<Rightarrow> nat" where
  "GetActiveClients ord now since t =
     length (filter (\<lambda>ip. case fmlookup (clients t) ip of
                            Some c \<Rightarrow> now + (- since) < LastSeen c | None \<Rightarrow> False)
       (ord (fmdom (clients t))))"

definition TotalClients :: "tracker \<Rightarrow> nat" where "TotalClients t = mlen (clients t)"

section \<open>Bounds\<close>

definition tracker_ok :: "tracker \<Rightarrow> bool" where
  "tracker_ok t \<longleftrightarrow> 1 \<le> maxClients t \<and>
     (\<forall>ip c. fmlookup (clients t) ip = Some c \<longrightarrow>
        ip \<noteq> [] \<and> ciIP c = ip \<and> mlen (TopDomains c) \<le> domain_limit \<and> 1 \<le> ciCount c)"

lemma count_domain_bounded: "mlen m \<le> domain_limit \<Longrightarrow> mlen (count_domain d m) \<le> domain_limit"
  using mlen_fmupd_le [of d _ m]
  by (auto simp: count_domain_def Let_def mlen_fmupd fmdomI simp del: fmdom_fmupd)

text \<open>A query as the tracker sees it: iteration order, clock, client, domain, blocked, latency.\<close>

type_synonym seen_query = "(string fset \<Rightarrow> string list) \<times> clock \<times> string \<times> string \<times> bool \<times> duration"

definition record_seen :: "seen_query \<Rightarrow> tracker \<Rightarrow> tracker" where
  "record_seen x t = (case x of (ord, clk, ip, d, b, lat) \<Rightarrow> RecordClient ord clk ip d b lat t)"

definition seen_ok :: "seen_query \<Rightarrow> bool" where
  "seen_ok x \<longleftrightarrow> (case x of (ord, clk, ip, d, b, lat) \<Rightarrow> enumerates ord \<and> ip \<noteq> [])"

lemma tracker_no_empty: "tracker_ok t \<Longrightarrow> [] |\<notin>| fmdom (clients t)"
  by (metis tracker_ok_def fmlookup_dom_iff)

definition updated_client :: "clock \<Rightarrow> string \<Rightarrow> bool \<Rightarrow> duration \<Rightarrow> client_info \<Rightarrow> client_info" where
  "updated_client clk d b lat c =
     c\<lparr>ciTotal := ciTotal c + 1, LastSeen := clk 1, ciLatencyNs := ciLatencyNs c + lat,
       ciCount := ciCount c + 1, ciBlocked := (if b then ciBlocked c + 1 else ciBlocked c),
       TopDomains := count_domain d (TopDomains c)\<rparr>"

definition fresh_client :: "clock \<Rightarrow> string \<Rightarrow> client_info" where
  "fresh_client clk ip = \<lparr>ciIP = ip, ciTotal = 0, ciBlocked = 0, FirstSeen = clk 0, LastSeen = 0,
     TopDomains = fmempty, ciLatencyNs = 0, ciCount = 0\<rparr>"

definition room_for :: "(string fset \<Rightarrow> string list) \<Rightarrow> string \<Rightarrow> tracker \<Rightarrow> (string, client_info) fmap" where
  "room_for ord ip t =
     (if fmlookup (clients t) ip = None \<and> maxClients t \<le> int (mlen (clients t))
      then evict_min LastSeen ord (clients t) else clients t)"

lemma RecordClient_eq:
  "RecordClient ord clk ip d b lat t =
     t\<lparr>clients := fmupd ip
         (updated_client clk d b lat
           (case fmlookup (clients t) ip of Some c \<Rightarrow> c | None \<Rightarrow> fresh_client clk ip))
         (room_for ord ip t)\<rparr>"
  by (simp add: RecordClient_def Let_def updated_client_def fresh_client_def room_for_def
      evictOldestClient_def split: option.split)

lemma room_for_lookup: "fmlookup (room_for ord ip t) k = Some c \<Longrightarrow> fmlookup (clients t) k = Some c"
  by (auto simp: room_for_def dest: evict_min_lookup split: if_splits)

lemma record_seen_ok:
  assumes "tracker_ok t" and "seen_ok x"
  shows "tracker_ok (record_seen x t)"
proof -
  obtain ord clk ip d b lat where x: "x = (ord, clk, ip, d, b, lat)" by (metis prod.collapse)
  have old: "k \<noteq> [] \<and> ciIP c = k \<and> mlen (TopDomains c) \<le> domain_limit \<and> 1 \<le> ciCount c"
    if "fmlookup (room_for ord ip t) k = Some c" for k c
    using room_for_lookup [OF that] assms(1) by (simp add: tracker_ok_def)
  have "case fmlookup (clients t) ip of Some c \<Rightarrow> ciIP c = ip \<and> mlen (TopDomains c) \<le> domain_limit \<and> 1 \<le> ciCount c
      | None \<Rightarrow> True"
    using assms(1) by (simp add: tracker_ok_def split: option.split)
  then have "ciIP (updated_client clk d b lat (case fmlookup (clients t) ip of Some c \<Rightarrow> c | None \<Rightarrow> fresh_client clk ip)) = ip
      \<and> mlen (TopDomains (updated_client clk d b lat (case fmlookup (clients t) ip of Some c \<Rightarrow> c | None \<Rightarrow> fresh_client clk ip))) \<le> domain_limit
      \<and> 1 \<le> ciCount (updated_client clk d b lat (case fmlookup (clients t) ip of Some c \<Rightarrow> c | None \<Rightarrow> fresh_client clk ip))"
    by (auto simp: updated_client_def fresh_client_def fcard_fempty count_domain_bounded split: option.splits)
  with old assms show ?thesis
    by (auto simp: x record_seen_def RecordClient_eq tracker_ok_def seen_ok_def)
qed

lemma room_for_mlen:
  assumes "tracker_ok t" and "enumerates ord" and "int (mlen (clients t)) \<le> maxClients t"
  shows "int (mlen (fmupd ip c (room_for ord ip t))) \<le> maxClients t"
proof (cases "fmlookup (clients t) ip = None \<and> maxClients t \<le> int (mlen (clients t))")
  case True
  have "mlen (room_for ord ip t) = mlen (clients t) - 1"
    using True evict_min_mlen [OF assms(2) tracker_no_empty [OF assms(1)]] by (simp add: room_for_def)
  moreover have "1 \<le> maxClients t" using assms(1) by (simp add: tracker_ok_def)
  moreover have "mlen (fmupd ip c (room_for ord ip t)) \<le> Suc (mlen (room_for ord ip t))" by (rule mlen_fmupd_le)
  ultimately show ?thesis using True assms(3) by linarith
next
  case False
  then have r: "room_for ord ip t = clients t" by (auto simp: room_for_def)
  show ?thesis
  proof (cases "fmlookup (clients t) ip")
    case None
    with False assms(3) mlen_fmupd_le [of ip c "clients t"] show ?thesis unfolding r by linarith
  next
    case (Some c')
    then have "ip |\<in>| fmdom (clients t)" by (rule fmdomI)
    with assms(3) show ?thesis unfolding r by (simp only: mlen_fmupd if_True)
  qed
qed

interpretation client_table: bounded_table tracker_ok "\<lambda>t. mlen (clients t)" "\<lambda>t. nat (maxClients t)"
  seen_ok record_seen
proof unfold_locales
  fix t x
  assume t: "tracker_ok t" and x: "seen_ok x"
  then show "tracker_ok (record_seen x t)" by (rule record_seen_ok)
  obtain ord clk ip d b lat where e: "x = (ord, clk, ip, d, b, lat)" by (metis prod.collapse)
  assume "mlen (clients t) \<le> nat (maxClients t)"
  then have "int (mlen (clients t)) \<le> maxClients t" using t by (simp add: tracker_ok_def le_nat_iff)
  from room_for_mlen [OF t _ this, of ord ip] x t show "mlen (clients (record_seen x t)) \<le> nat (maxClients t)"
    by (simp add: e record_seen_def RecordClient_eq seen_ok_def le_nat_iff tracker_ok_def)
next
  fix x t
  show "nat (maxClients (record_seen x t)) = nat (maxClients t)"
    by (simp add: record_seen_def RecordClient_eq split: prod.split)
qed

lemma New_tracker_ok: "tracker_ok (New_tracker n)"
  by (simp add: New_tracker_def tracker_ok_def)

lemma record_seen_max: "maxClients (fold record_seen xs t) = maxClients t"
  by (induction xs arbitrary: t) (simp_all add: record_seen_def RecordClient_eq split: prod.split)

text \<open>
  C16: whatever clients ask, the tracker holds no more clients than configured (10,000 unless a
  positive number is given) and no more than 100 domains for each.
\<close>
theorem client_runs_bounded:
  assumes "\<forall>x \<in> set xs. seen_ok x"
  shows "let t = fold record_seen xs (New_tracker n) in
    int (TotalClients t) \<le> (if n \<le> 0 then 10000 else n) \<and>
    (\<forall>ip c. fmlookup (clients t) ip = Some c \<longrightarrow> mlen (TopDomains c) \<le> domain_limit)"
proof -
  have "mlen (clients (New_tracker n)) \<le> nat (maxClients (New_tracker n))"
    by (simp add: New_tracker_def fcard_fempty)
  from client_table.run_bounded [OF New_tracker_ok this assms]
  have "tracker_ok (fold record_seen xs (New_tracker n))"
    "mlen (clients (fold record_seen xs (New_tracker n))) \<le> nat (maxClients (New_tracker n))"
    by (simp_all add: record_seen_max)
  moreover have "maxClients (New_tracker n) = (if n \<le> 0 then 10000 else n)" by (simp add: New_tracker_def)
  ultimately show ?thesis
    by (auto simp: Let_def tracker_ok_def TotalClients_def le_nat_iff split: if_splits)
qed

definition two_clients :: "seen_query list" where
  "two_clients = [(sorted_list_of_fset, int, ''10.0.0.1'', ''a.'', False, 5),
     (sorted_list_of_fset, int, ''10.0.0.2'', ''a.'', True, 7)]"

theorem client_runs_bounded_witness:
  "int (TotalClients (fold record_seen two_clients (New_tracker 1))) \<le> 1
   \<and> fmlookup (clients (fold record_seen two_clients (New_tracker 1))) ''10.0.0.1'' = None"
proof
  have "\<forall>x \<in> set two_clients. seen_ok x" by (simp add: two_clients_def seen_ok_def)
  from client_runs_bounded [OF this, of 1]
  show "int (TotalClients (fold record_seen two_clients (New_tracker 1))) \<le> 1"
    by (simp add: Let_def)
  show "fmlookup (clients (fold record_seen two_clients (New_tracker 1))) ''10.0.0.1'' = None"
    by code_simp
qed

section \<open>Who is evicted, and what is counted\<close>

lemma RecordClient_evicts:
  assumes "tracker_ok t" and "enumerates ord" and "fmlookup (clients t) ip = None"
    and "maxClients t \<le> int (mlen (clients t))"
  obtains k c where "fmlookup (clients t) k = Some c"
    and "\<And>k' c'. fmlookup (clients t) k' = Some c' \<Longrightarrow> LastSeen c \<le> LastSeen c'"
    and "clients (RecordClient ord clk ip d b lat t) =
      fmupd ip (updated_client clk d b lat (fresh_client clk ip)) (fmdrop k (clients t))"
proof -
  have "0 < mlen (clients t)" using assms(1,4) by (simp add: tracker_ok_def)
  then obtain k0 c0 where "fmlookup (clients t) k0 = Some c0" by (rule mlen_posE)
  from evict_min_cases [OF assms(2) this tracker_no_empty [OF assms(1)], of LastSeen thesis]
  show thesis using that assms(3,4) by (auto simp: RecordClient_eq room_for_def)
qed

lemma RecordClient_known:
  assumes "fmlookup (clients t) ip = Some c"
  shows "clients (RecordClient ord clk ip d b lat t) = fmupd ip (updated_client clk d b lat c) (clients t)"
  using assms by (simp add: RecordClient_eq room_for_def)

text \<open>A domain first asked for when 100 others are known is never counted for this client.\<close>

lemma count_domain_full:
  "mlen m = domain_limit \<Longrightarrow> fmlookup m d = None \<Longrightarrow> count_domain d m = m"
  by (simp add: count_domain_def)

end
