(* ===== verification/Ecs.thy ===== *)
theory Ecs
  imports DnsMsg
begin

text \<open>
  The EDNS client subnet option, \<^verbatim>\<open>internal/ecs/ecs.go\<close>: which client addresses are disclosed and
  how much of them. No other part of the program calls \<open>AddClientSubnet\<close>.
\<close>

section \<open>Operations\<close>

record ecs_config =
  ecEnabled :: bool
  SubnetIPv4 :: int
  SubnetIPv6 :: int

definition DefaultECSConfig :: ecs_config where
  "DefaultECSConfig = \<lparr>ecEnabled = True, SubnetIPv4 = 24, SubnetIPv6 = 56\<rparr>"

text \<open>\<^verbatim>\<open>init\<close>: the private networks, as \<^verbatim>\<open>net.ParseCIDR\<close> gives them.\<close>

definition v6_net :: "u8 \<Rightarrow> u8 \<Rightarrow> nat \<Rightarrow> ipnet" where
  "v6_net a b ones = (a # b # replicate 14 0, mask_bytes ones 16)"

definition privateRanges :: "ipnet list" where
  "privateRanges =
     [([10, 0, 0, 0], mask_bytes 8 4), ([172, 16, 0, 0], mask_bytes 12 4),
      ([192, 168, 0, 0], mask_bytes 16 4), ([127, 0, 0, 0], mask_bytes 8 4),
      ([169, 254, 0, 0], mask_bytes 16 4), v6_net 0xFC 0 7, v6_net 0xFE 0x80 10,
      (replicate 15 0 @ [1], mask_bytes 128 16)]"

definition isPrivateIP :: "ip \<Rightarrow> bool" where
  "isPrivateIP a = list_ex (\<lambda>n. Contains n a) privateRanges"

text \<open>The option for a public address.\<close>

definition subnet_option :: "ecs_config \<Rightarrow> ip \<Rightarrow> edns0_subnet" where
  "subnet_option cfg a =
     (case To4 a of
        Some a4 \<Rightarrow> \<lparr>esCode = EDNS0SUBNET, esFamily = 1, esSourceNetmask = word_of_int (SubnetIPv4 cfg),
                    esSourceScope = 0, esAddress = MaskIP a4 (CIDRMask (SubnetIPv4 cfg) 32)\<rparr>
      | None \<Rightarrow> \<lparr>esCode = EDNS0SUBNET, esFamily = 2, esSourceNetmask = word_of_int (SubnetIPv6 cfg),
                 esSourceScope = 0, esAddress = MaskIP a (CIDRMask (SubnetIPv6 cfg) 128)\<rparr>)"

text \<open>
  \<^verbatim>\<open>opt.SetUDPSize(4096)\<close> stores the size in the class field of a new OPT record. The option goes
  to the end of the OPT record \<^verbatim>\<open>IsEdns0\<close> returns.
\<close>

definition new_opt :: rr where
  "new_opt = RR_OPT \<lparr>hName = dot, hRrtype = TypeOPT, hClass = 4096, hTtl = 0\<rparr> []"

definition append_option :: "edns0 \<Rightarrow> rr \<Rightarrow> rr" where
  "append_option o' x = (case x of RR_OPT h opts \<Rightarrow> RR_OPT h (opts @ [o']) | _ \<Rightarrow> x)"

definition AddClientSubnet :: "dns_lib \<Rightarrow> ecs_config \<Rightarrow> string \<Rightarrow> msg \<Rightarrow> msg" where
  "AddClientSubnet L cfg clientIP m =
     (if \<not> ecEnabled cfg \<or> clientIP = [] then m
      else case ParseIP clientIP of
        None \<Rightarrow> m
      | Some a \<Rightarrow>
          if isPrivateIP a then m
          else let ecs = EDNS0_SUBNET (subnet_option cfg a) in
            (case IsEdns0 L m of
               None \<Rightarrow> m\<lparr>Extra := Extra m @ [append_option ecs new_opt]\<rparr>
             | Some i \<Rightarrow> m\<lparr>Extra := (Extra m)[i := append_option ecs (Extra m ! i)]\<rparr>))"

fun find_subnet :: "edns0 list \<Rightarrow> (ip option \<times> u8) option" where
  "find_subnet [] = None"
| "find_subnet (x # xs) =
     (case x of EDNS0_SUBNET e \<Rightarrow> Some (esAddress e, esSourceScope e) | _ \<Rightarrow> find_subnet xs)"

definition ExtractClientSubnet :: "dns_lib \<Rightarrow> ecs_config \<Rightarrow> msg \<Rightarrow> (ip option \<times> u8) option" where
  "ExtractClientSubnet L cfg m =
     (if \<not> ecEnabled cfg then None
      else case IsEdns0 L m of
        None \<Rightarrow> None
      | Some i \<Rightarrow> (case Extra m ! i of RR_OPT h opts \<Rightarrow> find_subnet opts | _ \<Rightarrow> None))"

section \<open>Privacy\<close>

text \<open>What \<^verbatim>\<open>IsEdns0\<close> is documented to do: give an OPT record of the additional section, if any.\<close>

definition edns_ok :: "dns_lib \<Rightarrow> bool" where
  "edns_ok L \<longleftrightarrow> (\<forall>m. case IsEdns0 L m of
       None \<Rightarrow> \<forall>x \<in> set (Extra m). rrtype_of x \<noteq> TypeOPT
     | Some i \<Rightarrow> i < length (Extra m) \<and> rrtype_of (Extra m ! i) = TypeOPT)"

text \<open>The options a message discloses to its receiver.\<close>

definition disclosed :: "msg \<Rightarrow> edns0 set" where
  "disclosed m = (\<Union>x \<in> set (Extra m). case x of RR_OPT h opts \<Rightarrow> set opts | _ \<Rightarrow> {})"

lemma disclosed_append_option:
  "(case append_option o' x of RR_OPT h opts \<Rightarrow> set opts | _ \<Rightarrow> {}) \<subseteq>
     insert o' (case x of RR_OPT h opts \<Rightarrow> set opts | _ \<Rightarrow> {})"
  by (cases x) (auto simp: append_option_def)

lemma AddClientSubnet_discloses:
  assumes "edns_ok L" and "o' \<in> disclosed (AddClientSubnet L cfg ip m)" and "o' \<notin> disclosed m"
  shows "\<exists>a. ParseIP ip = Some a \<and> \<not> isPrivateIP a \<and> o' = EDNS0_SUBNET (subnet_option cfg a)"
proof -
  have idx: "IsEdns0 L m = Some i \<Longrightarrow> i < length (Extra m)" for i
    using assms(1) by (force simp: edns_ok_def split: option.splits)
  from assms(2,3) obtain a where a: "ParseIP ip = Some a" "\<not> isPrivateIP a"
    by (auto simp: AddClientSubnet_def split: if_splits option.splits)
  let ?e = "EDNS0_SUBNET (subnet_option cfg a)"
  have "disclosed (AddClientSubnet L cfg ip m) \<subseteq> insert ?e (disclosed m)"
  proof (cases "IsEdns0 L m")
    case None
    then show ?thesis using a
      by (auto simp: AddClientSubnet_def disclosed_def Let_def append_option_def new_opt_def)
  next
    case (Some i)
    have "set ((Extra m)[i := append_option ?e (Extra m ! i)]) \<subseteq>
        insert (append_option ?e (Extra m ! i)) (set (Extra m))"
      by (rule set_update_subset_insert)
    moreover have "Extra m ! i \<in> set (Extra m)" using idx [OF Some] by simp
    ultimately show ?thesis using a Some disclosed_append_option [of ?e "Extra m ! i"]
      by (auto simp: AddClientSubnet_def disclosed_def Let_def)
  qed
  with a assms(2,3) show ?thesis by auto
qed

text \<open>Masking keeps the network part and clears the rest.\<close>

lemma and_full: "x AND 255 = x" for x :: u8
proof -
  have "(255 :: u8) = - 1" by simp
  then show ?thesis by (simp only: and.right_neutral)
qed

lemma mask_cut:
  "length x = n + k \<Longrightarrow> map2 (AND) x (replicate n 255 @ replicate k (0 :: u8)) = take n x @ replicate k 0"
proof (induction n arbitrary: x)
  case 0
  have "map2 (AND) u (replicate (length u) (0 :: u8)) = replicate (length u) 0" for u
    by (induction u) simp_all
  with 0 show ?case by (metis add_0 append_Nil replicate_0 take0)
next
  case (Suc n)
  then obtain b y where x: "x = b # y" "length y = n + k" by (cases x) auto
  with Suc.IH [of y] show ?case by (simp add: and_full)
qed

lemma To4_None_length: "ParseIP s = Some a \<Longrightarrow> length a = 16"
  by (rule ParseIP_length)


lemma parse_examples:
  "ParseIP ''8.8.8.8'' = Some (v4_prefix @ [8, 8, 8, 8])"
  "ParseIP ''8.8.8.77'' = Some (v4_prefix @ [8, 8, 8, 77])"
  "ParseIP ''192.168.1.9'' = Some (v4_prefix @ [192, 168, 1, 9])"
  by code_simp+


end
