(* ===== verification/Metrics.thy ===== *)
theory Metrics
  imports GoStrings
begin

text \<open>
  Counters, query log, domain table and QPS history, \<^verbatim>\<open>internal/metrics/metrics.go\<close>. The query log
  is a ring buffer; the specification it refines is the list of the last entries recorded.
\<close>

section \<open>State\<close>

record query_log =
  Timestamp :: time
  qlClientIP :: string
  qlDomain :: string
  qlQueryType :: string
  qlRcode :: string
  qlLatencyMs :: rat
  qlCached :: bool
  qlProtocol :: string

record domain_stat =
  dsDomain :: string
  dsCount :: u64
  dsAvgLatency :: rat

record qps_point =
  qpsTimestamp :: time
  qpsValue :: rat

record domain_counter =
  dcnt :: u64
  dtotalLatNs :: int

record metrics =
  startTime :: time
  TotalQueries :: u64
  UDPQueries :: u64
  TCPQueries :: u64
  SuccessQueries :: u64
  FailedQueries :: u64
  NXDomain :: u64
  ServFail :: u64
  RateLimited :: u64
  TotalLatency :: int
  mQueryCount :: int
  queryLog :: "query_log list"
  queryLogMax :: int
  queryLogIdx :: int
  queryLogLen :: int
  domainCounts :: "(string, domain_counter) fmap"
  domainCountsMax :: int
  qpsHistory :: "qps_point list"
  lastQPSCount :: u64
  lastQPSTime :: time
  latencyBuckets :: "u64 list"

definition blank_log :: query_log where
  "blank_log = \<lparr>Timestamp = 0, qlClientIP = [], qlDomain = [], qlQueryType = [], qlRcode = [],
     qlLatencyMs = 0, qlCached = False, qlProtocol = []\<rparr>"

definition New_metrics :: "clock \<Rightarrow> metrics" where
  "New_metrics clk =
     \<lparr>startTime = clk 0, TotalQueries = 0, UDPQueries = 0, TCPQueries = 0, SuccessQueries = 0,
      FailedQueries = 0, NXDomain = 0, ServFail = 0, RateLimited = 0, TotalLatency = 0,
      mQueryCount = 0, queryLog = replicate 500 blank_log, queryLogMax = 500, queryLogIdx = 0,
      queryLogLen = 0, domainCounts = fmempty, domainCountsMax = 10000, qpsHistory = [],
      lastQPSCount = 0, lastQPSTime = clk 1, latencyBuckets = replicate 8 0\<rparr>"

section \<open>Recording\<close>

definition latency_bucket :: "duration \<Rightarrow> nat" where
  "latency_bucket latency =
     (let ms = go_div latency millisecond in
      if ms < 1 then 0 else if ms < 5 then 1 else if ms < 10 then 2 else if ms < 50 then 3
      else if ms < 100 then 4 else if ms < 500 then 5 else if ms < 1000 then 6 else 7)"

definition RecordQuery :: "string \<Rightarrow> int \<Rightarrow> duration \<Rightarrow> metrics \<Rightarrow> metrics" where
  "RecordQuery protocol rcode latency m =
     (let m = m\<lparr>TotalQueries := TotalQueries m + 1\<rparr>;
          m = (if protocol = ''udp'' then m\<lparr>UDPQueries := UDPQueries m + 1\<rparr>
               else if protocol = ''tcp'' then m\<lparr>TCPQueries := TCPQueries m + 1\<rparr> else m);
          m = (if rcode = 0 then m\<lparr>SuccessQueries := SuccessQueries m + 1\<rparr>
               else if rcode = 3 then m\<lparr>NXDomain := NXDomain m + 1\<rparr>
               else if rcode = 2
               then m\<lparr>ServFail := ServFail m + 1, FailedQueries := FailedQueries m + 1\<rparr>
               else m\<lparr>FailedQueries := FailedQueries m + 1\<rparr>);
          m = m\<lparr>TotalLatency := TotalLatency m + latency, mQueryCount := mQueryCount m + 1\<rparr>;
          b = latency_bucket latency
      in m\<lparr>latencyBuckets := (latencyBuckets m)[b := latencyBuckets m ! b + 1]\<rparr>)"

definition push_log :: "query_log \<Rightarrow> metrics \<Rightarrow> metrics" where
  "push_log e m =
     m\<lparr>queryLog := (queryLog m)[nat (queryLogIdx m) := e],
       queryLogIdx := go_mod (queryLogIdx m + 1) (queryLogMax m),
       queryLogLen := (if queryLogLen m < queryLogMax m then queryLogLen m + 1 else queryLogLen m)\<rparr>"

definition evictLowestDomain :: "(string fset \<Rightarrow> string list) \<Rightarrow> metrics \<Rightarrow> metrics" where
  "evictLowestDomain ord m = m\<lparr>domainCounts := evict_min dcnt ord (domainCounts m)\<rparr>"

definition count_query :: "(string fset \<Rightarrow> string list) \<Rightarrow> string \<Rightarrow> duration \<Rightarrow> metrics \<Rightarrow> metrics" where
  "count_query ord domain latency m =
     (let (dc, m) =
        (case fmlookup (domainCounts m) domain of
           Some dc \<Rightarrow> (dc, m)
         | None \<Rightarrow> (\<lparr>dcnt = 0, dtotalLatNs = 0\<rparr>,
             if domainCountsMax m \<le> int (mlen (domainCounts m)) then evictLowestDomain ord m else m))
      in m\<lparr>domainCounts := fmupd domain
             (dc\<lparr>dcnt := dcnt dc + 1, dtotalLatNs := dtotalLatNs dc + latency\<rparr>) (domainCounts m)\<rparr>)"

definition RecordQueryDetail :: "(string fset \<Rightarrow> string list) \<Rightarrow> time \<Rightarrow> string \<Rightarrow> string \<Rightarrow> string
    \<Rightarrow> string \<Rightarrow> string \<Rightarrow> duration \<Rightarrow> bool \<Rightarrow> metrics \<Rightarrow> metrics" where
  "RecordQueryDetail ord now clientIP domain queryType rcode protocol latency cached m =
     count_query ord domain latency
       (push_log \<lparr>Timestamp = now, qlClientIP = clientIP, qlDomain = domain, qlQueryType = queryType,
          qlRcode = rcode, qlLatencyMs = of_int (go_div latency microsecond) / 1000,
          qlCached = cached, qlProtocol = protocol\<rparr> m)"

definition count_RateLimited :: "metrics \<Rightarrow> metrics" where
  "count_RateLimited m = m\<lparr>RateLimited := RateLimited m + 1\<rparr>"

section \<open>Reading\<close>

definition GetRecentQueries :: "int \<Rightarrow> metrics \<Rightarrow> query_log list" where
  "GetRecentQueries limit m =
     (let limit = (if limit \<le> 0 \<or> queryLogLen m < limit then queryLogLen m else limit) in
      map (\<lambda>i. queryLog m ! nat (go_mod (queryLogIdx m - 1 - int i + queryLogMax m) (queryLogMax m)))
        [0..<nat limit])"

definition GetAllQueryLogs :: "metrics \<Rightarrow> query_log list" where
  "GetAllQueryLogs m =
     map (\<lambda>i. queryLog m !
            nat (go_mod (queryLogIdx m - queryLogLen m + int i + queryLogMax m) (queryLogMax m)))
       [0..<nat (queryLogLen m)]"

text \<open>The selection sort: after the outer loop's step \<open>i\<close> the largest of the rest is at \<open>i\<close>.\<close>

definition max_index :: "domain_stat list \<Rightarrow> nat \<Rightarrow> nat" where
  "max_index xs i =
     foldl (\<lambda>k j. if dsCount (xs ! k) < dsCount (xs ! j) then j else k) i [Suc i..<length xs]"

definition swap :: "'a list \<Rightarrow> nat \<Rightarrow> nat \<Rightarrow> 'a list" where
  "swap xs i j = xs[i := xs ! j, j := xs ! i]"

fun select_from :: "nat \<Rightarrow> nat \<Rightarrow> domain_stat list \<Rightarrow> domain_stat list" where
  "select_from i 0 xs = xs"
| "select_from i (Suc k) xs = select_from (Suc i) k (swap xs i (max_index xs i))"

definition domain_stat_of :: "metrics \<Rightarrow> string \<Rightarrow> domain_stat" where
  "domain_stat_of m d =
     (let dc = the (fmlookup (domainCounts m) d) in
      \<lparr>dsDomain = d, dsCount = dcnt dc,
       dsAvgLatency = (if 0 < dcnt dc then of_int (dtotalLatNs dc) / of_nat (unat (dcnt dc)) / 1000000
                       else 0)\<rparr>)"

text \<open>A negative limit panics in the slice expression.\<close>

definition GetTopDomains :: "(string fset \<Rightarrow> string list) \<Rightarrow> int \<Rightarrow> metrics \<Rightarrow> domain_stat list option" where
  "GetTopDomains ord limit m =
     (let stats = map (domain_stat_of m) (ord (fmdom (domainCounts m)));
          stats = select_from 0 (min (length stats) (nat limit)) stats;
          limit = (if int (length stats) < limit then int (length stats) else limit)
      in if limit < 0 then None else Some (take (nat limit) stats))"

definition GetQPSHistory :: "metrics \<Rightarrow> qps_point list" where
  "GetQPSHistory m = qpsHistory m"

definition GetLatencyHistogram :: "metrics \<Rightarrow> (string \<times> u64) list" where
  "GetLatencyHistogram m =
     zip [''<1ms'', ''1-5ms'', ''5-10ms'', ''10-50ms'', ''50-100ms'', ''100-500ms'', ''500-1000ms'',
          ''>1000ms''] (latencyBuckets m)"

section \<open>Rate of queries\<close>

definition max_qps_points :: nat where "max_qps_points = 360"

definition trackQPS_tick :: "time \<Rightarrow> metrics \<Rightarrow> metrics" where
  "trackQPS_tick now m =
     (let currentCount = TotalQueries m;
          elapsed = (of_int (now - lastQPSTime m) :: rat) / of_int second;
          qps = (if 0 < elapsed then of_nat (unat (currentCount - lastQPSCount m)) / elapsed else 0);
          h = qpsHistory m @ [\<lparr>qpsTimestamp = now, qpsValue = qps\<rparr>]
      in m\<lparr>qpsHistory := (if max_qps_points < length h then tl h else h),
           lastQPSCount := currentCount, lastQPSTime := now\<rparr>)"

text \<open>
  \<^verbatim>\<open>Duration.Round(time.Second)\<close> rounds half away from zero; \<open>seconds_string\<close> is
  \<^verbatim>\<open>Duration.String\<close> on whole seconds.
\<close>

definition round_seconds :: "duration \<Rightarrow> int" where
  "round_seconds d = sgn d * ((\<bar>d\<bar> + second div 2) div second)"

definition seconds_string :: "int \<Rightarrow> string" where
  "seconds_string s =
     (let a = \<bar>s\<bar>; h = a div 3600; m = a div 60 mod 60; sec = a mod 60 in
      (if s < 0 then ''-'' else []) @
      (if 0 < h then Itoa h @ ''h'' @ Itoa m @ ''m'' @ Itoa sec @ ''s''
       else if 0 < m then Itoa m @ ''m'' @ Itoa sec @ ''s''
       else Itoa sec @ ''s''))"

record snapshot =
  sUptime :: string
  sUptimeSec :: rat
  sTotalQueries :: u64
  sUDPQueries :: u64
  sTCPQueries :: u64
  sSuccessQueries :: u64
  sFailedQueries :: u64
  sNXDomain :: u64
  sServFail :: u64
  sCacheSize :: int
  sCacheHits :: u64
  sCacheMisses :: u64
  sCacheEvictions :: u64
  sCacheHitRatio :: rat
  sRateLimited :: u64
  sAvgLatencyMs :: rat
  sQPS :: rat
  sActiveClients :: int

text \<open>The cache's and the limiter's numbers come from functions set by the server, if they are.\<close>

definition GetSnapshot :: "time \<Rightarrow> (int \<times> u64 \<times> u64 \<times> u64) option \<Rightarrow> int option \<Rightarrow> metrics \<Rightarrow> snapshot" where
  "GetSnapshot now cacheStats activeClients m =
     (let uptime = now - startTime m;
          upSec = (of_int uptime :: rat) / of_int second;
          (cacheSize, cacheHits, cacheMisses, cacheEvictions) =
            (case cacheStats of Some x \<Rightarrow> x | None \<Rightarrow> (0, 0, 0, 0));
          totalCacheOps = cacheHits + cacheMisses
      in \<lparr>sUptime = seconds_string (round_seconds uptime), sUptimeSec = upSec,
          sTotalQueries = TotalQueries m, sUDPQueries = UDPQueries m, sTCPQueries = TCPQueries m,
          sSuccessQueries = SuccessQueries m, sFailedQueries = FailedQueries m,
          sNXDomain = NXDomain m, sServFail = ServFail m, sCacheSize = cacheSize,
          sCacheHits = cacheHits, sCacheMisses = cacheMisses, sCacheEvictions = cacheEvictions,
          sCacheHitRatio = (if 0 < totalCacheOps
            then of_nat (unat cacheHits) / of_nat (unat totalCacheOps) * 100 else 0),
          sRateLimited = RateLimited m,
          sAvgLatencyMs = (if 0 < mQueryCount m
            then of_int (TotalLatency m) / of_int (mQueryCount m) / 1000000 else 0),
          sQPS = (if 0 < upSec then of_nat (unat (TotalQueries m)) / upSec else 0),
          sActiveClients = (case activeClients of Some n \<Rightarrow> n | None \<Rightarrow> 0)\<rparr>)"

end
