(* ===== verification/MetricsCorrect.thy ===== *)
theory MetricsCorrect
  imports Metrics
begin

text \<open>
  What the metrics promise: the counters agree with each other, the ring buffer is the list of the
  last entries, the partial selection sort yields the largest counts, and the tables are bounded.
\<close>

section \<open>Counters\<close>

lemma sum_list_bump:
  "i < length xs \<Longrightarrow> sum_list (xs[i := xs ! i + 1]) = sum_list xs + (1 :: u64)"
proof (induction xs arbitrary: i)
  case Nil
  then show ?case by simp
next
  case (Cons x xs)
  then show ?case by (cases i) (simp_all add: add.assoc)
qed

definition counters_ok :: "metrics \<Rightarrow> bool" where
  "counters_ok m \<longleftrightarrow> length (latencyBuckets m) = 8 \<and>
     sum_list (latencyBuckets m) = TotalQueries m \<and>
     UDPQueries m + TCPQueries m = TotalQueries m \<and>
     SuccessQueries m + NXDomain m + FailedQueries m = TotalQueries m"

lemma latency_bucket_bound: "latency_bucket d < 8"
  by (simp add: latency_bucket_def Let_def)

lemma RecordQuery_frame [simp]:
  "queryLog (RecordQuery p r d m) = queryLog m" "queryLogIdx (RecordQuery p r d m) = queryLogIdx m"
  "queryLogLen (RecordQuery p r d m) = queryLogLen m" "queryLogMax (RecordQuery p r d m) = queryLogMax m"
  "domainCounts (RecordQuery p r d m) = domainCounts m"
  "domainCountsMax (RecordQuery p r d m) = domainCountsMax m"
  by (simp_all add: RecordQuery_def Let_def)

lemma RecordQuery_counters:
  assumes "counters_ok m" and "p = ''udp'' \<or> p = ''tcp''"
  shows "counters_ok (RecordQuery p r d m)"
  using assms(2)
proof
  assume "p = ''udp''"
  with assms(1) sum_list_bump [of "latency_bucket d" "latencyBuckets m"] latency_bucket_bound [of d]
  show ?thesis by (simp add: counters_ok_def RecordQuery_def Let_def algebra_simps)
next
  assume "p = ''tcp''"
  with assms(1) sum_list_bump [of "latency_bucket d" "latencyBuckets m"] latency_bucket_bound [of d]
  show ?thesis by (simp add: counters_ok_def RecordQuery_def Let_def algebra_simps)
qed

lemma New_metrics_counters: "counters_ok (New_metrics clk)"
  by (simp add: counters_ok_def New_metrics_def sum_list_replicate)

text \<open>
  The counters agree: after any queries over UDP and TCP the total is the sum over the
  protocols, over the outcomes, and over the latency buckets (all modulo \<open>2^64\<close>).
\<close>
theorem counters_agree:
  assumes "\<forall>(p, r, d) \<in> set qs. p = ''udp'' \<or> p = ''tcp''"
    and "m = fold (\<lambda>(p, r, d). RecordQuery p r d) qs (New_metrics clk)"
  shows "TotalQueries m = of_nat (length qs) \<and> TotalQueries m = UDPQueries m + TCPQueries m \<and>
    TotalQueries m = SuccessQueries m + NXDomain m + FailedQueries m \<and>
    TotalQueries m = sum_list (latencyBuckets m)"
proof -
  have "counters_ok (fold (\<lambda>(p, r, d). RecordQuery p r d) qs m0) \<and>
      TotalQueries (fold (\<lambda>(p, r, d). RecordQuery p r d) qs m0) = TotalQueries m0 + of_nat (length qs)"
    if "counters_ok m0" for m0
    using that assms(1)
  proof (induction qs arbitrary: m0)
    case Nil
    then show ?case by simp
  next
    case (Cons x qs)
    obtain p r d where x: "x = (p, r, d)" by (cases x)
    have "TotalQueries (RecordQuery p r d m0) = TotalQueries m0 + 1"
      by (simp add: RecordQuery_def Let_def)
    with Cons.IH [of "RecordQuery p r d m0"] Cons.prems x show ?case
      by (simp add: RecordQuery_counters)
  qed
  from this [OF New_metrics_counters, of clk]
  have "counters_ok m" "TotalQueries m = TotalQueries (New_metrics clk) + of_nat (length qs)"
    unfolding assms(2) by simp_all
  moreover have "TotalQueries (New_metrics clk) = 0" by (simp add: New_metrics_def)
  ultimately show ?thesis by (simp add: counters_ok_def)
qed

theorem counters_agree_witness:
  "let m = fold (\<lambda>(p, r, d). RecordQuery p r d)
       [(''udp'', 0, 2 * millisecond), (''tcp'', 3, 0), (''udp'', 5, 2 * second)] (New_metrics int)
   in TotalQueries m = 3 \<and> UDPQueries m = 2 \<and> NXDomain m = 1 \<and> FailedQueries m = 1
      \<and> sum_list (latencyBuckets m) = 3"
proof -
  let ?qs = "[(''udp'', 0, 2 * millisecond), (''tcp'', 3, 0), (''udp'', 5, 2 * second)] :: (string \<times> int \<times> int) list"
  let ?m = "fold (\<lambda>(p, r, d). RecordQuery p r d) ?qs (New_metrics int)"
  have ok: "\<forall>(p, r, d) \<in> set ?qs. p = ''udp'' \<or> p = ''tcp''" by simp
  have v: "UDPQueries ?m = 2" "NXDomain ?m = 1" "FailedQueries ?m = 1"
    by (simp_all add: RecordQuery_def New_metrics_def Let_def)
  note t = counters_agree [OF ok refl, of int]
  have three: "TotalQueries ?m = 3" using t [THEN conjunct1] by simp
  have "sum_list (latencyBuckets ?m) = TotalQueries ?m"
    using t [THEN conjunct2, THEN conjunct2, THEN conjunct2] by (rule sym)
  from this three have "sum_list (latencyBuckets ?m) = 3" by (rule trans)
  with three v show ?thesis unfolding Let_def by blast
qed

section \<open>The ring buffer is a list\<close>

definition ring_ok :: "metrics \<Rightarrow> bool" where
  "ring_ok m \<longleftrightarrow> int (length (queryLog m)) = queryLogMax m \<and> 0 < queryLogMax m \<and>
     0 \<le> queryLogIdx m \<and> queryLogIdx m < queryLogMax m \<and> 0 \<le> queryLogLen m \<and>
     queryLogLen m \<le> queryLogMax m"

text \<open>The entries of a ring of size \<open>n\<close>, next position \<open>i\<close>, with \<open>l\<close> entries, oldest first.\<close>

definition ring :: "nat \<Rightarrow> nat \<Rightarrow> nat \<Rightarrow> 'a list \<Rightarrow> 'a list" where
  "ring n i l xs = map (\<lambda>k. xs ! ((i + (n - l) + k) mod n)) [0..<l]"

lemma mod_shift: "i < n \<Longrightarrow> 0 < d \<Longrightarrow> d < n \<Longrightarrow> (i + d) mod n \<noteq> i" for i n d :: nat
  by (cases "i + d < n") (auto simp: mod_if)

lemma ring_push_room:
  assumes "i < n" and "l < n" and "length xs = n"
  shows "ring n (Suc i mod n) (Suc l) (xs[i := e]) = ring n i l xs @ [e]"
proof (rule nth_equalityI)
  show "length (ring n (Suc i mod n) (Suc l) (xs[i := e])) = length (ring n i l xs @ [e])"
    by (simp add: ring_def)
next
  fix k
  assume "k < length (ring n (Suc i mod n) (Suc l) (xs[i := e]))"
  then have k: "k \<le> l" by (simp add: ring_def)
  have "(Suc i mod n + (n - Suc l) + k) mod n = (Suc i + (n - Suc l) + k) mod n"
    by (metis add.assoc mod_add_left_eq)
  also have "Suc i + (n - Suc l) + k = i + (n - l) + k" using assms(2) by simp
  finally have ix: "(Suc i mod n + (n - Suc l) + k) mod n = (i + (n - l) + k) mod n" .
  have "ring n (Suc i mod n) (Suc l) (xs[i := e]) ! k = xs[i := e] ! ((Suc i mod n + (n - Suc l) + k) mod n)"
    using k by (simp add: ring_def del: upt_Suc)
  also have "\<dots> = xs[i := e] ! ((i + (n - l) + k) mod n)" by (simp only: ix)
  also have "\<dots> = (ring n i l xs @ [e]) ! k"
  proof (cases "k = l")
    case True
    then have "(i + (n - l) + k) mod n = i" using assms(1,2) by simp
    with True assms show ?thesis by (simp add: ring_def nth_append)
  next
    case False
    with k have kl: "k < l" by simp
    have "(i + ((n - l) + k)) mod n \<noteq> i" using kl assms(1,2) by (intro mod_shift) auto
    then have "(i + (n - l) + k) mod n \<noteq> i" by (simp add: add.assoc)
    with kl show ?thesis by (simp add: ring_def nth_append)
  qed
  finally show "ring n (Suc i mod n) (Suc l) (xs[i := e]) ! k = (ring n i l xs @ [e]) ! k" .
qed

lemma ring_push_full:
  assumes "i < n" and "length xs = n"
  shows "ring n (Suc i mod n) n (xs[i := e]) = tl (ring n i n xs) @ [e]"
proof (rule nth_equalityI)
  show "length (ring n (Suc i mod n) n (xs[i := e])) = length (tl (ring n i n xs) @ [e])"
    using assms by (simp add: ring_def)
next
  fix k
  assume "k < length (ring n (Suc i mod n) n (xs[i := e]))"
  then have k: "k < n" by (simp add: ring_def)
  have ix: "(Suc i mod n + k) mod n = (i + Suc k) mod n"
    by (metis add_Suc_right add_Suc mod_add_left_eq)
  have "ring n (Suc i mod n) n (xs[i := e]) ! k = xs[i := e] ! ((Suc i mod n + k) mod n)"
    using k by (simp add: ring_def)
  also have "\<dots> = xs[i := e] ! ((i + Suc k) mod n)" by (simp only: ix)
  also have "\<dots> = (tl (ring n i n xs) @ [e]) ! k"
  proof (cases "Suc k = n")
    case True
    then have "(i + Suc k) mod n = i" using assms(1) by simp
    moreover have "length (tl (ring n i n xs)) = k" using True by (simp add: ring_def)
    ultimately show ?thesis using assms by (simp add: nth_append)
  next
    case False
    with k have kn: "Suc k < n" by simp
    have "(i + Suc k) mod n \<noteq> i" using kn assms(1) by (intro mod_shift) auto
    moreover have "tl (ring n i n xs) ! k = ring n i n xs ! Suc k" using kn by (simp add: nth_tl ring_def)
    moreover have "k < length (tl (ring n i n xs))" using kn by (simp add: ring_def)
    ultimately show ?thesis using kn by (simp add: nth_append) (simp add: ring_def)
  qed
  finally show "ring n (Suc i mod n) n (xs[i := e]) ! k = (tl (ring n i n xs) @ [e]) ! k" .
qed

lemma GetAllQueryLogs_ring:
  assumes "ring_ok m"
  shows "GetAllQueryLogs m =
    ring (nat (queryLogMax m)) (nat (queryLogIdx m)) (nat (queryLogLen m)) (queryLog m)"
proof -
  let ?n = "nat (queryLogMax m)" and ?i = "nat (queryLogIdx m)" and ?l = "nat (queryLogLen m)"
  have "nat (go_mod (queryLogIdx m - queryLogLen m + int k + queryLogMax m) (queryLogMax m))
      = (?i + (?n - ?l) + k) mod ?n" for k
  proof -
    have e: "queryLogIdx m - queryLogLen m + int k + queryLogMax m = int (?i + (?n - ?l) + k)"
      using assms by (auto simp: ring_ok_def of_nat_diff)
    have n: "queryLogMax m = int ?n" "0 < ?n" using assms by (simp_all add: ring_ok_def)
    show ?thesis unfolding go_mod_int [OF e n] by (simp only: nat_int)
  qed
  then show ?thesis by (simp add: GetAllQueryLogs_def ring_def)
qed

text \<open>The specification of one insertion: at the end, and the first entry goes if the log is full.\<close>

lemma push_log_ok: "ring_ok m \<Longrightarrow> ring_ok (push_log e m)"
  by (auto simp: ring_ok_def push_log_def go_mod_nonneg)

lemma push_log_frame [simp]: "queryLogMax (push_log e m) = queryLogMax m"
  by (simp add: push_log_def)

lemma push_log_spec:
  assumes "ring_ok m"
  shows "GetAllQueryLogs (push_log e m) =
    (if queryLogLen m < queryLogMax m then GetAllQueryLogs m @ [e] else tl (GetAllQueryLogs m) @ [e])"
proof -
  let ?n = "nat (queryLogMax m)" and ?i = "nat (queryLogIdx m)" and ?l = "nat (queryLogLen m)"
  have b: "?i < ?n" "length (queryLog m) = ?n" "?l \<le> ?n" using assms by (auto simp: ring_ok_def)
  have ix: "nat (queryLogIdx (push_log e m)) = Suc ?i mod ?n"
  proof -
    have e: "queryLogIdx m + 1 = int (Suc ?i)" "queryLogMax m = int ?n" "0 < ?n"
      using assms by (simp_all add: ring_ok_def)
    have "queryLogIdx (push_log e m) = go_mod (queryLogIdx m + 1) (queryLogMax m)"
      by (simp add: push_log_def)
    also have "\<dots> = int (Suc ?i mod ?n)" by (rule go_mod_int [OF e])
    finally show ?thesis by (simp only: nat_int)
  qed
  have new: "GetAllQueryLogs (push_log e m) =
      ring ?n (Suc ?i mod ?n) (nat (queryLogLen (push_log e m))) ((queryLog m)[?i := e])"
    unfolding GetAllQueryLogs_ring [OF push_log_ok [OF assms]] ix by (simp add: push_log_def)
  show ?thesis
  proof (cases "queryLogLen m < queryLogMax m")
    case True
    then have "nat (queryLogLen (push_log e m)) = Suc ?l" "?l < ?n"
      using assms by (auto simp: push_log_def ring_ok_def)
    with True show ?thesis
      unfolding new by (simp only: if_True GetAllQueryLogs_ring [OF assms] ring_push_room [OF b(1) _ b(2)])
  next
    case False
    then have "nat (queryLogLen (push_log e m)) = ?n" "?l = ?n"
      using assms by (auto simp: push_log_def ring_ok_def)
    with False show ?thesis
      unfolding new by (simp only: if_False GetAllQueryLogs_ring [OF assms] ring_push_full [OF b(1,2)])
  qed
qed

lemma GetAllQueryLogs_length: "ring_ok m \<Longrightarrow> length (GetAllQueryLogs m) = nat (queryLogLen m)"
  by (simp add: GetAllQueryLogs_def)

lemma GetRecentQueries_rev:
  assumes "ring_ok m"
  shows "GetRecentQueries limit m =
    (if limit \<le> 0 then rev (GetAllQueryLogs m) else take (nat limit) (rev (GetAllQueryLogs m)))"
proof -
  let ?n = "nat (queryLogMax m)" and ?i = "nat (queryLogIdx m)" and ?l = "nat (queryLogLen m)"
  let ?k = "if limit \<le> 0 \<or> queryLogLen m < limit then queryLogLen m else limit"
  have "GetRecentQueries limit m = take (nat ?k) (rev (GetAllQueryLogs m))"
  proof (rule nth_equalityI)
    have "?k \<le> queryLogLen m" by simp
    then have "nat ?k \<le> ?l" by (rule nat_mono)
    then show "length (GetRecentQueries limit m) = length (take (nat ?k) (rev (GetAllQueryLogs m)))"
      using assms by (simp add: GetRecentQueries_def Let_def GetAllQueryLogs_length min_def)
  next
    fix j
    assume "j < length (GetRecentQueries limit m)"
    then have j: "j < nat ?k" by (simp add: GetRecentQueries_def Let_def)
    then have jl: "j < ?l" by (auto split: if_splits)
    have l: "?l \<le> ?n" "queryLogMax m = int ?n" "0 < ?n" "queryLogIdx m = int ?i"
      using assms by (auto simp: ring_ok_def)
    have e: "queryLogIdx m - 1 - int j + queryLogMax m = int (?i + (?n - ?l) + (?l - Suc j))"
      using l jl by (simp add: of_nat_diff)
    have "go_mod (queryLogIdx m - 1 - int j + queryLogMax m) (queryLogMax m)
        = int ((?i + (?n - ?l) + (?l - Suc j)) mod ?n)"
      by (rule go_mod_int [OF e l(2,3)])
    then have "nat (go_mod (queryLogIdx m - 1 - int j + queryLogMax m) (queryLogMax m))
        = (?i + (?n - ?l) + (?l - Suc j)) mod ?n"
      by (simp only: nat_int)
    then have "GetRecentQueries limit m ! j = queryLog m ! ((?i + (?n - ?l) + (?l - Suc j)) mod ?n)"
      using j by (simp add: GetRecentQueries_def Let_def)
    also have "\<dots> = rev (GetAllQueryLogs m) ! j"
      using jl by (simp add: rev_nth GetAllQueryLogs_ring [OF assms] ring_def)
    finally show "GetRecentQueries limit m ! j = take (nat ?k) (rev (GetAllQueryLogs m)) ! j"
      using j by simp
  qed
  then show ?thesis using GetAllQueryLogs_length [OF assms] by auto
qed

lemma New_metrics_ring: "ring_ok (New_metrics clk)" "GetAllQueryLogs (New_metrics clk) = []"
  "queryLogLen (New_metrics clk) = 0" "queryLogMax (New_metrics clk) = 500"
  by (simp_all add: ring_ok_def New_metrics_def GetAllQueryLogs_def)

lemma push_logs_spec:
  "ring_ok (fold push_log es (New_metrics clk)) \<and> queryLogMax (fold push_log es (New_metrics clk)) = 500 \<and>
   GetAllQueryLogs (fold push_log es (New_metrics clk)) = drop (length es - 500) es"
proof (induction es rule: rev_induct)
  case Nil
  then show ?case by (simp add: New_metrics_ring)
next
  case (snoc e es)
  let ?m = "fold push_log es (New_metrics clk)"
  have ok: "ring_ok ?m" and mx: "queryLogMax ?m = 500"
    and all: "GetAllQueryLogs ?m = drop (length es - 500) es" using snoc by auto
  have "int (length (GetAllQueryLogs ?m)) = queryLogLen ?m"
    using GetAllQueryLogs_length [OF ok] ok by (simp add: ring_ok_def)
  then have len: "queryLogLen ?m = int (min 500 (length es))" unfolding all by auto
  show ?case
  proof (cases "length es < 500")
    case True
    then show ?thesis using push_log_spec [OF ok, of e] push_log_ok [OF ok, of e] mx len all by simp
  next
    case False
    then have "tl (drop (length es - 500) es) = drop (Suc (length es) - 500) es"
      by (simp only: Suc_diff_le not_less drop_Suc tl_drop)
    with False show ?thesis
      using push_log_spec [OF ok, of e] push_log_ok [OF ok, of e] mx len all by simp
  qed
qed

text \<open>
  C15: the ring buffer implements the list of the last 500 entries: after any entries the export
  gives these, oldest first, and the recent queries are the newest of them, newest first.
\<close>
theorem query_log_refines_list:
  "GetAllQueryLogs (fold push_log es (New_metrics clk)) = drop (length es - 500) es
   \<and> GetRecentQueries limit (fold push_log es (New_metrics clk)) =
       (let newest = rev (drop (length es - 500) es)
        in if limit \<le> 0 then newest else take (nat limit) newest)"
  using push_logs_spec [of es clk] by (simp add: GetRecentQueries_rev Let_def)

section \<open>The selection sort\<close>

lemma max_index_fold:
  assumes "k0 < length xs" and "\<forall>j \<in> set js. j < length xs"
  shows "let k = foldl (\<lambda>k j. if dsCount (xs ! k) < dsCount (xs ! j) then j else k) k0 js in
    k \<in> insert k0 (set js) \<and> (\<forall>j \<in> insert k0 (set js). dsCount (xs ! j) \<le> dsCount (xs ! k))"
  using assms
proof (induction js arbitrary: k0)
  case Nil
  then show ?case by simp
next
  case (Cons j js)
  show ?case
  proof (cases "dsCount (xs ! k0) < dsCount (xs ! j)")
    case True
    with Cons.IH [of j] Cons.prems show ?thesis by (auto simp: Let_def)
  next
    case False
    with Cons.IH [of k0] Cons.prems show ?thesis by (auto simp: Let_def not_less intro: order_trans)
  qed
qed

lemma max_index:
  assumes "i < length xs"
  shows "i \<le> max_index xs i" "max_index xs i < length xs"
    and "i \<le> j \<Longrightarrow> j < length xs \<Longrightarrow> dsCount (xs ! j) \<le> dsCount (xs ! max_index xs i)"
proof -
  have "max_index xs i \<in> insert i {Suc i..<length xs} \<and>
      (\<forall>j \<in> insert i {Suc i..<length xs}. dsCount (xs ! j) \<le> dsCount (xs ! max_index xs i))"
    using max_index_fold [OF assms, of "[Suc i..<length xs]"]
    by (simp only: max_index_def Let_def set_upt) simp
  moreover have "i \<le> j \<Longrightarrow> j < length xs \<Longrightarrow> j \<in> insert i {Suc i..<length xs}" by auto
  ultimately show "i \<le> max_index xs i" "max_index xs i < length xs"
    "i \<le> j \<Longrightarrow> j < length xs \<Longrightarrow> dsCount (xs ! j) \<le> dsCount (xs ! max_index xs i)"
    using assms by auto
qed

lemma mset_swap: "i < length xs \<Longrightarrow> j < length xs \<Longrightarrow> mset (swap xs i j) = mset xs"
  by (simp add: swap_def mset_swap)

lemma swap_length [simp]: "length (swap xs i j) = length xs"
  by (simp add: swap_def)

lemma swap_nth:
  "i < length xs \<Longrightarrow> j < length xs \<Longrightarrow> k < length xs \<Longrightarrow>
     swap xs i j ! k = (if k = j then xs ! i else if k = i then xs ! j else xs ! k)"
  by (auto simp: swap_def nth_list_update)

text \<open>The first \<open>i\<close> entries are in order and none of the others is larger.\<close>

definition selected :: "nat \<Rightarrow> domain_stat list \<Rightarrow> bool" where
  "selected i xs \<longleftrightarrow> (\<forall>a b. a < i \<longrightarrow> a < b \<longrightarrow> b < length xs \<longrightarrow> dsCount (xs ! b) \<le> dsCount (xs ! a))"

lemma select_step:
  assumes "selected i xs" and "i < length xs"
  shows "selected (Suc i) (swap xs i (max_index xs i))"
proof -
  let ?m = "max_index xs i"
  note m = max_index [OF assms(2)]
  have "dsCount (swap xs i ?m ! b) \<le> dsCount (swap xs i ?m ! a)"
    if ab: "a < Suc i" "a < b" "b < length xs" for a b
  proof (cases "a = i")
    case True
    have "i \<le> (if b = ?m then i else if b = i then ?m else b)"
      "(if b = ?m then i else if b = i then ?m else b) < length xs"
      using ab True m(1,2) assms(2) by auto
    from m(3) [OF this] show ?thesis
      using ab True m(1,2) assms(2) by (auto simp: swap_nth split: if_splits)
  next
    case False
    then have "a < i" using ab(1) by simp
    then have "swap xs i ?m ! a = xs ! a" using assms(2) m(1,2) by (simp add: swap_nth)
    moreover have "a < (if b = ?m then i else if b = i then ?m else b)"
      "(if b = ?m then i else if b = i then ?m else b) < length xs"
      using ab \<open>a < i\<close> m(1,2) assms(2) by auto
    with assms(1) \<open>a < i\<close> have "dsCount (xs ! (if b = ?m then i else if b = i then ?m else b)) \<le> dsCount (xs ! a)"
      by (simp add: selected_def)
    ultimately show ?thesis using ab(3) assms(2) m(2) by (auto simp: swap_nth split: if_splits)
  qed
  then show ?thesis by (simp add: selected_def)
qed

lemma select_from_selected:
  "selected i xs \<Longrightarrow> i + k \<le> length xs \<Longrightarrow>
     selected (i + k) (select_from i k xs) \<and> mset (select_from i k xs) = mset xs"
proof (induction i k xs rule: select_from.induct)
  case (1 i xs)
  then show ?case by simp
next
  case (2 i k xs)
  have i: "i < length xs" using 2(3) by simp
  have "mset (swap xs i (max_index xs i)) = mset xs" using i max_index [OF i] by (intro mset_swap) auto
  with 2(1) [OF select_step [OF 2(2) i]] 2(3) show ?case by simp
qed

text \<open>
  C29: the most queried domains are right: with a non-negative limit, the list has the true counts of
  distinct domains in falling order, as many as were asked for or exist, and no domain left out
  was queried more often than one on the list.
\<close>
theorem GetTopDomains_top:
  assumes "enumerates ord" and "GetTopDomains ord limit m = Some best"
  shows "length best = min (nat limit) (mlen (domainCounts m)) \<and>
    sorted (map (\<lambda>s. - uint (dsCount s)) best) \<and> distinct (map dsDomain best) \<and>
    (\<forall>s \<in> set best. \<exists>dc. fmlookup (domainCounts m) (dsDomain s) = Some dc \<and> dsCount s = dcnt dc) \<and>
    (\<forall>d dc s. fmlookup (domainCounts m) d = Some dc \<longrightarrow> d \<notin> dsDomain ` set best \<longrightarrow> s \<in> set best \<longrightarrow>
       dcnt dc \<le> dsCount s)"
proof -
  let ?all = "map (domain_stat_of m) (ord (fmdom (domainCounts m)))"
  let ?k = "min (length ?all) (nat limit)"
  let ?sel = "select_from 0 ?k ?all"
  have lim: "0 \<le> limit"
    using assms(2) by (auto simp: GetTopDomains_def Let_def split: if_splits)
  have sel: "selected ?k ?sel" "mset ?sel = mset ?all"
    using select_from_selected [of 0 ?all ?k] by (simp_all add: selected_def)
  have len: "length ?sel = length ?all" using arg_cong [OF sel(2), of size] by simp
  have best: "best = take ?k ?sel"
  proof -
    have "best = take (nat (if int (length ?sel) < limit then int (length ?sel) else limit)) ?sel"
      using assms(2) lim by (simp add: GetTopDomains_def Let_def split: if_splits)
    also have "nat (if int (length ?sel) < limit then int (length ?sel) else limit) = ?k"
      using lim by (simp only: len) auto
    finally show ?thesis .
  qed
  have mem: "s \<in> set ?all \<Longrightarrow> \<exists>dc. fmlookup (domainCounts m) (dsDomain s) = Some dc \<and> dsCount s = dcnt dc" for s
    using assms(1) by (auto simp: enumerates_set domain_stat_of_def Let_def fmlookup_dom_iff)
  have sub: "set best \<subseteq> set ?all" unfolding best using set_take_subset mset_eq_setD [OF sel(2)] by metis
  have "map dsDomain ?all = ord (fmdom (domainCounts m))"
    by (simp add: domain_stat_of_def Let_def comp_def)
  then have "distinct (map dsDomain ?all)" using assms(1) by (simp add: enumerates_distinct)
  moreover have "mset (map dsDomain ?sel) = mset (map dsDomain ?all)" by (simp only: mset_map sel(2))
  ultimately have "distinct (map dsDomain ?sel)" using mset_eq_imp_distinct_iff by blast
  then have dist: "distinct (map dsDomain best)" unfolding best take_map [symmetric] by (rule distinct_take)
  have srt: "sorted (map (\<lambda>s. - uint (dsCount s)) best)"
    using sel(1) unfolding best sorted_iff_nth_mono_less
    by (auto simp: selected_def word_le_def)
  have rest: "dcnt dc \<le> dsCount s"
    if d: "fmlookup (domainCounts m) d = Some dc" "d \<notin> dsDomain ` set best" and s: "s \<in> set best" for d dc s
  proof -
    have x: "domain_stat_of m d \<in> set ?all" "dsDomain (domain_stat_of m d) = d" "dsCount (domain_stat_of m d) = dcnt dc"
      using assms(1) d(1) by (auto simp: enumerates_set domain_stat_of_def Let_def intro: fmdomI)
    then have "domain_stat_of m d \<in> set ?sel" using mset_eq_setD [OF sel(2)] by blast
    then obtain b where b: "b < length ?sel" "?sel ! b = domain_stat_of m d" by (metis in_set_conv_nth)
    obtain a where a: "a < length best" "best ! a = s" using s by (metis in_set_conv_nth)
    have "\<not> b < ?k"
    proof
      assume "b < ?k"
      then have "domain_stat_of m d \<in> set best" unfolding best using b by (auto simp: in_set_conv_nth)
      with d(2) x(2) show False by force
    qed
    with a b(1) have ab: "a < ?k" "a < b" unfolding best by auto
    have "dsCount (?sel ! b) \<le> dsCount (?sel ! a)"
      using sel(1) ab b(1) unfolding selected_def by blast
    moreover have "?sel ! a = s" using a(2) ab(1) unfolding best by (simp only: nth_take)
    ultimately show ?thesis using b(2) x(3) by (simp only:)
  qed
  have "length best = min (length ?all) ?k" unfolding best by (simp only: length_take len)
  then have "length best = min (nat limit) (mlen (domainCounts m))"
    using assms(1) by (simp add: enumerates_length min.commute)
  with srt dist sub mem rest show ?thesis by blast
qed

definition three_domains :: metrics where
  "three_domains = fold (\<lambda>d. count_query sorted_list_of_fset d 1000000)
     [''a.'', ''b.'', ''c.'', ''b.'', ''c.'', ''b.''] (New_metrics int)"

theorem GetTopDomains_top_witness:
  "\<exists>best. GetTopDomains sorted_list_of_fset 2 three_domains = Some best
     \<and> map dsDomain best = [''b.'', ''c.'']
     \<and> (\<forall>s \<in> set best. \<exists>dc. fmlookup (domainCounts three_domains) (dsDomain s) = Some dc \<and> dsCount s = dcnt dc)"
proof -
  have "map_option (map dsDomain) (GetTopDomains sorted_list_of_fset 2 three_domains) = Some [''b.'', ''c.'']"
    by code_simp
  then obtain best where b: "GetTopDomains sorted_list_of_fset 2 three_domains = Some best"
      "map dsDomain best = [''b.'', ''c.'']" by auto
  from GetTopDomains_top [OF enumerates_sorted b(1)]
  have "\<forall>s \<in> set best. \<exists>dc. fmlookup (domainCounts three_domains) (dsDomain s) = Some dc \<and> dsCount s = dcnt dc"
    by (elim conjE)
  with b show ?thesis by (intro exI [of _ best] conjI)
qed

section \<open>Bounded tables\<close>

definition table_ok :: "metrics \<Rightarrow> bool" where
  "table_ok m \<longleftrightarrow> 1 \<le> domainCountsMax m \<and> [] |\<notin>| fmdom (domainCounts m)"

definition touch_domain :: "(string fset \<Rightarrow> string list) \<times> string \<times> duration \<Rightarrow> metrics \<Rightarrow> metrics" where
  "touch_domain x m = (case x of (ord, d, lat) \<Rightarrow> count_query ord d lat m)"

definition touch_ok :: "(string fset \<Rightarrow> string list) \<times> string \<times> duration \<Rightarrow> bool" where
  "touch_ok x \<longleftrightarrow> (case x of (ord, d, lat) \<Rightarrow> enumerates ord \<and> d \<noteq> [])"

definition domain_room :: "(string fset \<Rightarrow> string list) \<Rightarrow> string \<Rightarrow> metrics \<Rightarrow> (string, domain_counter) fmap" where
  "domain_room ord d m =
     (if fmlookup (domainCounts m) d = None \<and> domainCountsMax m \<le> int (mlen (domainCounts m))
      then evict_min dcnt ord (domainCounts m) else domainCounts m)"

lemma count_query_domains:
  "\<exists>dc. count_query ord d lat m = m\<lparr>domainCounts := fmupd d dc (domain_room ord d m)\<rparr>"
proof (cases "fmlookup (domainCounts m) d")
  case None
  then show ?thesis
    by (intro exI [of _ "\<lparr>dcnt = 1, dtotalLatNs = lat\<rparr>"])
      (simp add: count_query_def domain_room_def evictLowestDomain_def)
next
  case (Some dc)
  then show ?thesis
    by (intro exI [of _ "dc\<lparr>dcnt := dcnt dc + 1, dtotalLatNs := dtotalLatNs dc + lat\<rparr>"])
      (simp add: count_query_def domain_room_def)
qed

lemma domain_room_dom: "fmdom (domain_room ord d m) |\<subseteq>| fmdom (domainCounts m)"
  using evict_min_dom [of dcnt ord "domainCounts m"] by (auto simp: domain_room_def)

interpretation domain_table: bounded_table table_ok "\<lambda>m. mlen (domainCounts m)"
  "\<lambda>m. nat (domainCountsMax m)" touch_ok touch_domain
proof unfold_locales
  fix m x
  assume m: "table_ok m" and x: "touch_ok x"
  obtain ord d lat where e: "x = (ord, d, lat)" by (cases x)
  obtain dc where q: "touch_domain x m = m\<lparr>domainCounts := fmupd d dc (domain_room ord d m)\<rparr>"
    using count_query_domains [of ord d lat m] by (auto simp: e touch_domain_def)
  have ne: "d \<noteq> []" "enumerates ord" "[] |\<notin>| fmdom (domainCounts m)"
    using m x e by (simp_all add: touch_ok_def table_ok_def)
  then have "[] |\<notin>| fmdom (domain_room ord d m)" using domain_room_dom by (metis fsubsetD)
  with m ne(1) show "table_ok (touch_domain x m)" by (simp add: q table_ok_def)
  assume b: "mlen (domainCounts m) \<le> nat (domainCountsMax m)"
  have "1 \<le> domainCountsMax m" using m by (simp add: table_ok_def)
  then have one: "1 \<le> nat (domainCountsMax m)" by linarith
  have "mlen (fmupd d dc (domain_room ord d m)) \<le> nat (domainCountsMax m)"
  proof (cases "fmlookup (domainCounts m) d = None \<and> domainCountsMax m \<le> int (mlen (domainCounts m))")
    case True
    then have "mlen (domain_room ord d m) = mlen (domainCounts m) - 1"
      using evict_min_mlen [OF ne(2,3)] by (simp add: domain_room_def)
    with b one mlen_fmupd_le [of d dc "domain_room ord d m"] show ?thesis by linarith
  next
    case False
    then have r: "domain_room ord d m = domainCounts m" by (auto simp: domain_room_def)
    show ?thesis
    proof (cases "fmlookup (domainCounts m) d")
      case None
      with False mlen_fmupd_le [of d dc "domainCounts m"] show ?thesis unfolding r by linarith
    next
      case (Some v)
      then have "d |\<in>| fmdom (domainCounts m)" by (rule fmdomI)
      with b show ?thesis unfolding r by (simp only: mlen_fmupd if_True)
    qed
  qed
  then show "mlen (domainCounts (touch_domain x m)) \<le> nat (domainCountsMax m)" by (simp add: q)
next
  fix m and x :: "(string fset \<Rightarrow> string list) \<times> string \<times> duration"
  obtain ord d lat where e: "x = (ord, d, lat)" by (cases x)
  show "nat (domainCountsMax (touch_domain x m)) = nat (domainCountsMax m)"
    using count_query_domains [of ord d lat m] by (auto simp: e touch_domain_def)
qed

lemma domain_runs_bounded:
  assumes "\<forall>x \<in> set xs. touch_ok x"
  shows "mlen (domainCounts (fold touch_domain xs (New_metrics clk))) \<le> 10000"
proof -
  have n: "table_ok (New_metrics clk)" "mlen (domainCounts (New_metrics clk)) \<le> nat (domainCountsMax (New_metrics clk))"
    by (simp_all add: table_ok_def New_metrics_def fcard_fempty)
  have "domainCountsMax (touch_domain x m) = domainCountsMax m"
    for m and x :: "(string fset \<Rightarrow> string list) \<times> string \<times> duration"
  proof -
    obtain ord d lat where e: "x = (ord, d, lat)" by (cases x)
    show ?thesis using count_query_domains [of ord d lat m] by (auto simp: e touch_domain_def)
  qed
  then have "domainCountsMax (fold touch_domain xs m) = domainCountsMax m" for m
    by (induction xs arbitrary: m) simp_all
  with domain_table.run_bounded [OF n assms] show ?thesis by (simp add: New_metrics_def)
qed

lemma qps_history_bounded:
  "length (qpsHistory m) \<le> max_qps_points \<Longrightarrow> length (qpsHistory (trackQPS_tick now m)) \<le> max_qps_points"
  by (simp add: trackQPS_tick_def Let_def)

end
