(* ===== verification/Persistence.thy ===== *)
theory Persistence
  imports CacheCorrect
begin

text \<open>
  Saving the cache and restoring it, \<^verbatim>\<open>internal/persistence/persistence.go\<close>. The contract of a cache
  that \<open>Load\<close> fills, the interface \<^verbatim>\<open>CacheStore\<close> of the code, is the locale \<open>cache_store\<close>; the
  program's cache is its interpretation.
\<close>

section \<open>State\<close>

record cache_entry =
  ceName :: string
  ceQtype :: u16
  ceQclass :: u16
  ceMsgBytes :: "u8 list"
  ceExpiresAt :: time
  ceCreatedAt :: time

record persistence_config =
  pcEnabled :: bool
  FilePath :: string
  SaveInterval :: duration

definition DefaultPersistenceConfig :: persistence_config where
  "DefaultPersistenceConfig = \<lparr>pcEnabled = True, FilePath = ''/var/lib/dns-server/cache.gob'',
     SaveInterval = 5 * minute\<rparr>"

text \<open>
  A file holds an encoded list of entries, or something that does not decode (a cut-off or foreign
  file). The disk maps paths to files.
\<close>

datatype disk_file = Encoded "cache_entry list" | Undecodable

type_synonym disk = "(string, disk_file) fmap"

text \<open>What the operating system and the encoder answer; \<open>None\<close> is success.\<close>

record disk_env =
  create_err :: "go_error option"
  encode_err :: "go_error option"
  rename_err :: "go_error option"
  open_err :: "go_error option"

section \<open>Saving\<close>

text \<open>
  The steps of \<^verbatim>\<open>Save\<close> on the disk, in order; a crash can come after any of them. Creating
  truncates; a file being written does not decode until the encoder is done.
\<close>

datatype disk_step = Create string | Write string "cache_entry list" | Remove_file string | Rename string string

fun run_step :: "disk_step \<Rightarrow> disk \<Rightarrow> disk" where
  "run_step (Create p) d = fmupd p Undecodable d"
| "run_step (Write p es) d = fmupd p (Encoded es) d"
| "run_step (Remove_file p) d = fmdrop p d"
| "run_step (Rename p q) d =
     (case fmlookup d p of None \<Rightarrow> d | Some f \<Rightarrow> fmupd q f (fmdrop p d))"

definition valid_entries :: "time \<Rightarrow> cache_entry list \<Rightarrow> cache_entry list" where
  "valid_entries now es = filter (\<lambda>e. now < ceExpiresAt e) es"

text \<open>
  The error \<^verbatim>\<open>Save\<close> returns and its disk steps, from the entries \<^verbatim>\<open>GetEntriesFunc\<close> delivers
  (\<open>None\<close>: the function is not set).
\<close>

definition Save :: "persistence_config \<Rightarrow> disk_env \<Rightarrow> time \<Rightarrow> cache_entry list option
    \<Rightarrow> go_error option \<times> disk_step list" where
  "Save cfg env now getEntries =
     (if \<not> pcEnabled cfg \<or> getEntries = None then (None, [])
      else if the getEntries = [] then (None, [])
      else let valid = valid_entries now (the getEntries);
               tmp = FilePath cfg @ ''.tmp''
           in case create_err env of
                Some err \<Rightarrow> (Some err, [])
              | None \<Rightarrow>
                  (case encode_err env of
                     Some err \<Rightarrow> (Some err, [Create tmp, Remove_file tmp])
                   | None \<Rightarrow>
                       (case rename_err env of
                          Some err \<Rightarrow> (Some err, [Create tmp, Write tmp valid, Remove_file tmp])
                        | None \<Rightarrow> (None, [Create tmp, Write tmp valid, Rename tmp (FilePath cfg)]))))"

section \<open>Loading\<close>

text \<open>
  Each restored entry goes through \<^verbatim>\<open>cache.Set\<close>, an argument here; \<open>i\<close> counts these calls. The
  result is the number of entries restored, or an error.
\<close>

fun restore :: "dns_lib \<Rightarrow> (nat \<Rightarrow> string \<Rightarrow> u16 \<Rightarrow> u16 \<Rightarrow> msg \<Rightarrow> 's \<Rightarrow> 's) \<Rightarrow> time \<Rightarrow> cache_entry list
    \<Rightarrow> nat \<Rightarrow> 's \<Rightarrow> nat \<times> 's" where
  "restore L store now [] i s = (i, s)"
| "restore L store now (e # es) i s =
     (if now < ceExpiresAt e then
        (case Unpack L (ceMsgBytes e) of
           Inr m \<Rightarrow> restore L store now es (Suc i) (store i (ceName e) (ceQtype e) (ceQclass e) m s)
         | Inl err \<Rightarrow> restore L store now es i s)
      else restore L store now es i s)"

definition Load :: "dns_lib \<Rightarrow> persistence_config \<Rightarrow> disk_env \<Rightarrow> time \<Rightarrow> disk
    \<Rightarrow> (nat \<Rightarrow> string \<Rightarrow> u16 \<Rightarrow> u16 \<Rightarrow> msg \<Rightarrow> 's \<Rightarrow> 's) \<Rightarrow> 's \<Rightarrow> (go_error + nat) \<times> 's" where
  "Load L cfg env now d store s =
     (if \<not> pcEnabled cfg then (Inr 0, s)
      else case fmlookup d (FilePath cfg) of
        None \<Rightarrow> (Inr 0, s)
      | Some f \<Rightarrow>
          (case open_err env of
             Some err \<Rightarrow> (Inl err, s)
           | None \<Rightarrow>
               (case f of
                  Undecodable \<Rightarrow> (Inl ''decode error'', s)
                | Encoded es \<Rightarrow> (let (n, s) = restore L store now es 0 s in (Inr n, s)))))"

text \<open>\<^verbatim>\<open>GetEntriesFunc\<close> as the server sets it: the exported entries, field by field.\<close>

definition to_cache_entry :: "export_entry \<Rightarrow> cache_entry" where
  "to_cache_entry e = \<lparr>ceName = xName e, ceQtype = xQtype e, ceQclass = xQclass e,
     ceMsgBytes = xMsgBytes e, ceExpiresAt = xExpiresAt e, ceCreatedAt = xCreatedAt e\<rparr>"

definition GetEntries :: "dns_lib \<Rightarrow> (string fset \<Rightarrow> string list) \<Rightarrow> clock \<Rightarrow> cache \<Rightarrow> cache_entry list" where
  "GetEntries L ord clk c = map to_cache_entry (ExportEntries L ord clk c)"

section \<open>Interface: a cache to fill\<close>

text \<open>
  \<open>found s k\<close> is the message a store has under a key. While there is room a new message hides no
  other; \<open>i\<close> numbers the calls, whose clocks and orders may differ.
\<close>

locale cache_store =
  fixes found :: "'s \<Rightarrow> string \<Rightarrow> msg option"
    and len :: "'s \<Rightarrow> nat" and cap :: "'s \<Rightarrow> nat"
    and key :: "string \<Rightarrow> u16 \<Rightarrow> u16 \<Rightarrow> string"
    and store :: "nat \<Rightarrow> string \<Rightarrow> u16 \<Rightarrow> u16 \<Rightarrow> msg \<Rightarrow> 's \<Rightarrow> 's"
  assumes found_same: "found (store i n t q m s) (key n t q) = Some m"
    and found_other: "len s < cap s \<Longrightarrow> k \<noteq> key n t q \<Longrightarrow> found (store i n t q m s) k = found s k"
    and len_store: "len s < cap s \<Longrightarrow> len (store i n t q m s) \<le> Suc (len s)"
    and cap_store: "cap (store i n t q m s) = cap s"
begin

abbreviation entry_key :: "cache_entry \<Rightarrow> string" where
  "entry_key e \<equiv> key (ceName e) (ceQtype e) (ceQclass e)"

text \<open>After a restore every entry with a new key is found, if the store had room for all.\<close>

lemma restore_found:
  assumes "len s + length es \<le> cap s" and "distinct (map entry_key es)"
  shows "found (snd (restore L store now es i s)) k =
    (case find (\<lambda>e. entry_key e = k \<and> now < ceExpiresAt e \<and> (\<exists>m. Unpack L (ceMsgBytes e) = Inr m)) es of
       Some e \<Rightarrow> Some (projr (Unpack L (ceMsgBytes e)))
     | None \<Rightarrow> found s k)"
  using assms
proof (induction es arbitrary: i s)
  case Nil
  then show ?case by simp
next
  case (Cons e es)
  show ?case
  proof (cases "now < ceExpiresAt e \<and> (\<exists>m. Unpack L (ceMsgBytes e) = Inr m)")
    case False
    with Cons show ?thesis by (auto split: sum.split)
  next
    case True
    then obtain m where m: "now < ceExpiresAt e" "Unpack L (ceMsgBytes e) = Inr m" by blast
    let ?s = "store i (ceName e) (ceQtype e) (ceQclass e) m s"
    have room: "len s < cap s" using Cons.prems(1) by simp
    have "len ?s + length es \<le> cap ?s"
      using Cons.prems(1) len_store [OF room, of i "ceName e" "ceQtype e" "ceQclass e" m]
      by (simp add: cap_store)
    from Cons.IH [OF this, of "Suc i"] Cons.prems(2) m
    have ih: "found (snd (restore L store now (e # es) i s)) k =
        (case find (\<lambda>e. entry_key e = k \<and> now < ceExpiresAt e \<and> (\<exists>m. Unpack L (ceMsgBytes e) = Inr m)) es of
           Some e \<Rightarrow> Some (projr (Unpack L (ceMsgBytes e))) | None \<Rightarrow> found ?s k)"
      by simp
    show ?thesis
    proof (cases "entry_key e = k")
      case True
      have "entry_key y \<noteq> k" if "y \<in> set es" for y
      proof
        assume "entry_key y = k"
        then have "entry_key e \<in> entry_key ` set es" using that True by (intro image_eqI [of _ _ y]) simp_all
        with Cons.prems(2) show False by simp
      qed
      then have "find (\<lambda>e. entry_key e = k \<and> now < ceExpiresAt e \<and> (\<exists>m. Unpack L (ceMsgBytes e) = Inr m)) es = None"
        by (auto simp: find_None_iff)
      with True m ih show ?thesis by (simp add: found_same [of i "ceName e" "ceQtype e" "ceQclass e", simplified True])
    next
      case False
      then have "found ?s k = found s k" by (intro found_other [OF room]) simp
      then show ?thesis using False unfolding ih by (simp cong: option.case_cong)
    qed
  qed
qed

end

section \<open>The program's cache is such a store\<close>

definition found_in :: "cache \<Rightarrow> string \<Rightarrow> msg option" where
  "found_in c k = map_option eMsg (fmlookup (entries c) k)"

definition store_in :: "dns_lib \<Rightarrow> (nat \<Rightarrow> string fset \<Rightarrow> string list) \<Rightarrow> (nat \<Rightarrow> clock)
    \<Rightarrow> nat \<Rightarrow> string \<Rightarrow> u16 \<Rightarrow> u16 \<Rightarrow> msg \<Rightarrow> cache \<Rightarrow> cache" where
  "store_in L ords clks i n t q m c = Set L (ords i) (clks i) n t q (Some m) c"

lemma store_in_room:
  "mlen (entries c) < nat (maxSize c) \<Longrightarrow>
     store_in L ords clks i n t q m c =
       c\<lparr>entries := fmupd (cacheKey L n t q) (stored_entry (clks i) c m) (entries c)\<rparr>"
  by (simp add: store_in_def Set_Some made_room_def)

interpretation program_cache: cache_store found_in "\<lambda>c. mlen (entries c)" "\<lambda>c. nat (maxSize c)"
  "cacheKey L" "store_in L ords clks" for L ords clks
proof unfold_locales
  fix i n t q m c k
  show "found_in (store_in L ords clks i n t q m c) (cacheKey L n t q) = Some m"
    by (simp add: found_in_def store_in_def Set_Some stored_entry_def)
  show "mlen (entries c) < nat (maxSize c) \<Longrightarrow> k \<noteq> cacheKey L n t q \<Longrightarrow>
      found_in (store_in L ords clks i n t q m c) k = found_in c k"
    by (simp add: found_in_def store_in_room)
  show "mlen (entries c) < nat (maxSize c) \<Longrightarrow>
      mlen (entries (store_in L ords clks i n t q m c)) \<le> Suc (mlen (entries c))"
    using mlen_fmupd_le [of "cacheKey L n t q" "stored_entry (clks i) c m" "entries c"]
    by (simp add: store_in_room)
  show "nat (maxSize (store_in L ords clks i n t q m c)) = nat (maxSize c)"
    by (simp add: store_in_def cache_frame)
qed

section \<open>A save is atomic\<close>

text \<open>
  C10: whenever the program stops while saving, after any number of its disk steps and whatever
  fails, the cache file is what it was before or the complete new list: never a partial file.
\<close>
theorem Save_atomic:
  assumes "Save cfg env now es = (err, steps)"
  shows "fmlookup (fold run_step (take k steps) d) (FilePath cfg) = fmlookup d (FilePath cfg)
    \<or> fmlookup (fold run_step (take k steps) d) (FilePath cfg) =
        Some (Encoded (valid_entries now (the es)))"
proof -
  let ?p = "FilePath cfg" and ?t = "FilePath cfg @ ''.tmp''"
  have ne: "?t \<noteq> ?p" "?p \<noteq> ?t" by simp_all
  have "steps \<in> {[], [Create ?t, Remove_file ?t], [Create ?t, Write ?t (valid_entries now (the es)), Remove_file ?t],
      [Create ?t, Write ?t (valid_entries now (the es)), Rename ?t ?p]}"
    using assms by (auto simp: Save_def Let_def split: if_splits option.splits)
  moreover have "k = 0 \<or> k = 1 \<or> k = 2 \<or> 3 \<le> k" by linarith
  ultimately show ?thesis using ne by (auto simp: numeral_2_eq_2)
qed

definition sample_saved :: cache_entry where
  "sample_saved = \<lparr>ceName = ''a.'', ceQtype = TypeA, ceQclass = ClassINET, ceMsgBytes = [],
     ceExpiresAt = 100, ceCreatedAt = 0\<rparr>"

definition fine_disk :: disk_env where
  "fine_disk = \<lparr>create_err = None, encode_err = None, rename_err = None, open_err = None\<rparr>"

theorem Save_atomic_witness:
  "\<exists>steps. Save DefaultPersistenceConfig fine_disk 0 (Some [sample_saved]) = (None, steps) \<and> length steps = 3
     \<and> (fmlookup (fold run_step (take 2 steps) fmempty) (FilePath DefaultPersistenceConfig) = None
        \<or> fmlookup (fold run_step (take 2 steps) fmempty) (FilePath DefaultPersistenceConfig) =
            Some (Encoded (valid_entries 0 [sample_saved])))"
proof -
  obtain steps where s: "Save DefaultPersistenceConfig fine_disk 0 (Some [sample_saved]) = (None, steps)"
      "length steps = 3"
    by (simp add: Save_def DefaultPersistenceConfig_def fine_disk_def Let_def)
  from Save_atomic [OF s(1), of 2 fmempty] s show ?thesis by auto
qed

section \<open>Saved and restored\<close>

lemma export_one_bytes:
  "export_one L t e = Some x \<Longrightarrow> Pack L (eMsg e) = Inr (xMsgBytes x) \<and> xExpiresAt x = ExpiresAt e"
  by (auto simp: export_one_def split: if_splits sum.splits list.splits)

lemma export_from_mem:
  "x \<in> set (export_from L clk limit i es acc) \<Longrightarrow>
     x \<in> set acc \<or> (\<exists>e \<in> set es. \<exists>t. export_one L t e = Some x)"
proof (induction L clk limit i es acc rule: export_from.induct)
  case (1 L clk limit i acc)
  then show ?case by simp
next
  case (2 L clk limit i e es acc)
  then show ?case by (auto simp: Let_def split: option.splits if_splits)
qed

lemma GetEntries_mem:
  assumes "e \<in> set (GetEntries L ord clk c)"
  shows "\<exists>x k. fmlookup (entries c) k = Some x \<and> Pack L (eMsg x) = Inr (ceMsgBytes e)
    \<and> ceExpiresAt e = ExpiresAt x"
proof -
  obtain y where y: "y \<in> set (ExportEntries L ord clk c)" "e = to_cache_entry y"
    using assms by (auto simp: GetEntries_def)
  then obtain x t where x: "x \<in> set (entries_in_order ord c)" "export_one L t x = Some y"
    using export_from_mem [of y L clk export_limit 1 "entries_in_order ord c" "[]"]
    by (auto simp: ExportEntries_def)
  from x(1) obtain k where "fmlookup (entries c) k = Some x"
    by (auto simp: entries_in_order_def List.map_filter_def)
  with export_one_bytes [OF x(2)] y(2) show ?thesis by (auto simp: to_cache_entry_def)
qed

lemma saved_entry_found:
  assumes "packing_ok L" and "pcEnabled cfg" and "open_err env' = None"
    and "Save cfg env tsave (Some (GetEntries L ord clk c)) = (None, steps)"
    and "Load L cfg env' tload (fold run_step steps d) (store_in L ords clks) c0 = (r, c1)"
    and "entries c0 = fmempty" and "length (GetEntries L ord clk c) \<le> nat (maxSize c0)"
    and "distinct (map (\<lambda>e. cacheKey L (ceName e) (ceQtype e) (ceQclass e)) (GetEntries L ord clk c))"
    and "e \<in> set (GetEntries L ord clk c)" and "tsave < ceExpiresAt e" and "tload < ceExpiresAt e"
  shows "\<exists>x k. fmlookup (entries c) k = Some x \<and> ceExpiresAt e = ExpiresAt x
    \<and> found_in c1 (cacheKey L (ceName e) (ceQtype e) (ceQclass e)) = Some ((eMsg x)\<lparr>Compress := False\<rparr>)"
proof -
  let ?es = "GetEntries L ord clk c" and ?key = "\<lambda>e. cacheKey L (ceName e) (ceQtype e) (ceQclass e)"
  let ?valid = "valid_entries tsave ?es"
  have "?es \<noteq> []" using assms(9) by auto
  with assms(2,4) have "steps = [Create (FilePath cfg @ ''.tmp''), Write (FilePath cfg @ ''.tmp'') ?valid,
      Rename (FilePath cfg @ ''.tmp'') (FilePath cfg)]"
    by (auto simp: Save_def Let_def split: option.splits)
  then have "fmlookup (fold run_step steps d) (FilePath cfg) = Some (Encoded ?valid)" by simp
  with assms(2,3,5) have c1: "c1 = snd (restore L (store_in L ords clks) tload ?valid 0 c0)"
    by (simp add: Load_def split: prod.splits)
  have len: "length ?valid \<le> length ?es" by (simp add: valid_entries_def)
  have room: "mlen (entries c0) + length ?valid \<le> nat (maxSize c0)"
    using assms(6,7) len by (simp add: fcard_fempty)
  have dist: "distinct (map ?key ?valid)"
    using assms(8) by (simp add: valid_entries_def distinct_map_filter)
  obtain x k where x: "fmlookup (entries c) k = Some x" "Pack L (eMsg x) = Inr (ceMsgBytes e)"
      "ceExpiresAt e = ExpiresAt x"
    using GetEntries_mem [OF assms(9)] by auto
  have u: "Unpack L (ceMsgBytes e) = Inr ((eMsg x)\<lparr>Compress := False\<rparr>)"
    using assms(1) x(2) by (simp add: packing_ok_def)
  let ?P = "\<lambda>y. ?key y = ?key e \<and> tload < ceExpiresAt y \<and> (\<exists>m. Unpack L (ceMsgBytes y) = Inr m)"
  have ev: "e \<in> set ?valid" using assms(9,10) by (simp add: valid_entries_def)
  then have "find ?P ?valid \<noteq> None" using assms(11) u by (auto simp: find_None_iff)
  then obtain y where y: "find ?P ?valid = Some y" by blast
  have yv: "y \<in> set ?valid" "?key y = ?key e" using find_SomeD [OF y] by blast+
  have "inj_on ?key (set ?valid)" using dist by (simp only: distinct_map)
  from inj_onD [OF this yv(2,1) ev] have "y = e" .
  then have "found_in c1 (?key e) = Some ((eMsg x)\<lparr>Compress := False\<rparr>)"
    using program_cache.restore_found [OF room dist, where now = tload and i = 0 and k = "?key e"] y u
    by (simp add: c1)
  with x show ?thesis by blast
qed

text \<open>
  What was saved comes back: an entry exported from one cache and not expired when it is saved
  and when it is loaded is found, with its message (uncompressed again), in the cache it is loaded into, provided that
  cache is empty and has room for all.
\<close>
theorem Load_after_Save:
  assumes "packing_ok L" and "pcEnabled cfg" and "open_err env' = None"
    and "Save cfg env tsave (Some (GetEntries L ord clk c)) = (None, steps)"
    and "Load L cfg env' tload (fold run_step steps d) (store_in L ords clks) c0 = (r, c1)"
    and "entries c0 = fmempty" and "length (GetEntries L ord clk c) \<le> nat (maxSize c0)"
    and "distinct (map (\<lambda>e. cacheKey L (ceName e) (ceQtype e) (ceQclass e)) (GetEntries L ord clk c))"
    and "e \<in> set (GetEntries L ord clk c)" and "tsave < ceExpiresAt e" and "tload < ceExpiresAt e"
  shows "\<exists>x k. fmlookup (entries c) k = Some x \<and> ceExpiresAt e = ExpiresAt x
    \<and> found_in c1 (cacheKey L (ceName e) (ceQtype e) (ceQclass e)) = Some ((eMsg x)\<lparr>Compress := False\<rparr>)"
  using assms by (rule saved_entry_found)

text \<open>A library that can pack one message with a question.\<close>

definition asked_a :: msg where
  "asked_a = new_msg\<lparr>Question := [\<lparr>qName = ''a.'', qType = TypeA, qClass = ClassINET\<rparr>]\<rparr>"

definition wire_lib :: dns_lib where
  "wire_lib = sample_lib\<lparr>Pack := (\<lambda>m. if m = asked_a then Inr [1] else Inl ''unsupported''),
     Unpack := (\<lambda>bs. if bs = [1] then Inr asked_a else Inl ''malformed'')\<rparr>"

definition cached_a :: cache where
  "cached_a = (New_cache 10 0 hour minute 0)\<lparr>entries := fmupd ''a./A/IN''
     \<lparr>eMsg = asked_a, CreatedAt = 0, ExpiresAt = 100, eTTL = 100, HitCount = 0, Negative = True\<rparr> fmempty\<rparr>"

lemma wire_lib_packing: "packing_ok wire_lib"
  by (simp add: packing_ok_def wire_lib_def asked_a_def new_msg_def)

lemma wire_lib_key: "cacheKey wire_lib ''a.'' TypeA ClassINET = ''a./A/IN''"
  by code_simp

lemma exported_a:
  "GetEntries wire_lib (\<lambda>_. [''a./A/IN'']) (\<lambda>_. 5) cached_a = [sample_saved\<lparr>ceMsgBytes := [1]\<rparr>]"
  by (simp add: GetEntries_def ExportEntries_def entries_in_order_def List.map_filter_def cached_a_def
      New_cache_def export_one_def IsExpired_def wire_lib_def asked_a_def new_msg_def to_cache_entry_def
      sample_saved_def export_limit_def)

theorem Load_after_Save_witness:
  "\<exists>steps c1. Save DefaultPersistenceConfig fine_disk 10
       (Some (GetEntries wire_lib (\<lambda>_. [''a./A/IN'']) (\<lambda>_. 5) cached_a)) = (None, steps)
     \<and> Load wire_lib DefaultPersistenceConfig fine_disk 20 (fold run_step steps fmempty)
         (store_in wire_lib (\<lambda>_. sorted_list_of_fset) (\<lambda>_ _. 20)) (New_cache 10 0 hour minute 0) = (Inr 1, c1)
     \<and> found_in c1 ''a./A/IN'' = Some asked_a"
proof -
  let ?es = "[sample_saved\<lparr>ceMsgBytes := [1]\<rparr>]" and ?store = "store_in wire_lib (\<lambda>_. sorted_list_of_fset) (\<lambda>_ _. 20)"
  obtain steps where s: "Save DefaultPersistenceConfig fine_disk 10 (Some ?es) = (None, steps)"
      "fmlookup (fold run_step steps fmempty) (FilePath DefaultPersistenceConfig) = Some (Encoded ?es)"
    by (simp add: Save_def DefaultPersistenceConfig_def fine_disk_def Let_def valid_entries_def sample_saved_def)
  obtain c1 where l: "Load wire_lib DefaultPersistenceConfig fine_disk 20 (fold run_step steps fmempty)
      ?store (New_cache 10 0 hour minute 0) = (Inr 1, c1)"
    using s(2) by (simp add: Load_def DefaultPersistenceConfig_def fine_disk_def sample_saved_def wire_lib_def)
  have s': "Save DefaultPersistenceConfig fine_disk 10
      (Some (GetEntries wire_lib (\<lambda>_. [''a./A/IN'']) (\<lambda>_. 5) cached_a)) = (None, steps)"
    unfolding exported_a by (rule s(1))
  have key: "cacheKey wire_lib (ceName (hd ?es)) (ceQtype (hd ?es)) (ceQclass (hd ?es)) = ''a./A/IN''"
    by (simp add: sample_saved_def wire_lib_key)
  have "\<exists>x k. fmlookup (entries cached_a) k = Some x \<and> ceExpiresAt (hd ?es) = ExpiresAt x
    \<and> found_in c1 (cacheKey wire_lib (ceName (hd ?es)) (ceQtype (hd ?es)) (ceQclass (hd ?es)))
      = Some ((eMsg x)\<lparr>Compress := False\<rparr>)"
    by (rule Load_after_Save [OF wire_lib_packing _ _ s' l], unfold exported_a)
      (simp_all add: DefaultPersistenceConfig_def fine_disk_def New_cache_def sample_saved_def fcard_fempty)
  then obtain x where x: "fmlookup (entries cached_a) ''a./A/IN'' = Some x \<or> eMsg x = asked_a"
      "found_in c1 ''a./A/IN'' = Some ((eMsg x)\<lparr>Compress := False\<rparr>)"
    unfolding key by (auto simp: cached_a_def split: if_splits)
  then have "found_in c1 ''a./A/IN'' = Some asked_a" by (auto simp: cached_a_def asked_a_def new_msg_def)
  with s(1) l show ?thesis unfolding exported_a by blast
qed

section \<open>Restored entries live longer\<close>

lemma entryTTL_entries [simp]: "entryTTL (c\<lparr>entries := es\<rparr>) m = entryTTL c m"
  by (simp add: entryTTL_def clampTTL_def Let_def)

text \<open>
  The saved expiry time is not restored: an entry in the cache after a restore was there before,
  or it gets the full time-to-live of its message from the moment of the restore, however little
  was left of it when it was saved.
\<close>
theorem restore_renews_lifetime:
  assumes "mlen (entries c) + length es \<le> nat (maxSize c)"
    and "fmlookup (entries (snd (restore L (store_in L ords clks) now es i c))) k = Some x"
  shows "fmlookup (entries c) k = Some x
    \<or> (\<exists>j. CreatedAt x = clks j 0 \<and> ExpiresAt x = clks j 1 + entryTTL c (eMsg x))"
  using assms
proof (induction es arbitrary: i c)
  case Nil
  then show ?case by simp
next
  case (Cons e es)
  show ?case
  proof (cases "now < ceExpiresAt e \<and> (\<exists>m. Unpack L (ceMsgBytes e) = Inr m)")
    case False
    with Cons show ?thesis by (auto split: sum.splits if_splits)
  next
    case True
    then obtain m where m: "now < ceExpiresAt e" "Unpack L (ceMsgBytes e) = Inr m" by blast
    let ?s = "store_in L ords clks i (ceName e) (ceQtype e) (ceQclass e) m c"
    have room: "mlen (entries c) < nat (maxSize c)" using Cons.prems(1) by simp
    have s: "?s = c\<lparr>entries := fmupd (cacheKey L (ceName e) (ceQtype e) (ceQclass e))
        (stored_entry (clks i) c m) (entries c)\<rparr>"
      by (rule store_in_room [OF room])
    have "mlen (entries ?s) + length es \<le> nat (maxSize ?s)"
      using Cons.prems(1) program_cache.len_store [OF room, of L ords clks i "ceName e" "ceQtype e" "ceQclass e" m]
      by (simp add: program_cache.cap_store)
    from Cons.IH [OF this, of "Suc i"] Cons.prems(2) m
    have "fmlookup (entries ?s) k = Some x
        \<or> (\<exists>j. CreatedAt x = clks j 0 \<and> ExpiresAt x = clks j 1 + entryTTL ?s (eMsg x))" by simp
    moreover have "entryTTL ?s (eMsg x) = entryTTL c (eMsg x)" unfolding s by simp
    moreover have "\<not> maxSize c \<le> int (mlen (entries c))" using room by linarith
    then have "scan_reads c = 0" by (simp only: scan_reads_def if_False)
    ultimately show ?thesis unfolding s by (auto simp: stored_entry_def split: if_splits)
  qed
qed

theorem restore_renews_lifetime_witness:
  "\<exists>x. fmlookup (entries (snd (restore wire_lib (store_in wire_lib (\<lambda>_. sorted_list_of_fset) (\<lambda>_ _. 90)) 90
        [sample_saved\<lparr>ceMsgBytes := [1]\<rparr>] 0 (New_cache 10 0 hour minute 0)))) ''a./A/IN'' = Some x
     \<and> ExpiresAt x = 90 + minute \<and> ceExpiresAt sample_saved = 100"
proof -
  let ?c = "New_cache 10 0 hour minute 0" and ?store = "store_in wire_lib (\<lambda>_. sorted_list_of_fset) (\<lambda>_ _. 90)"
  let ?r = "snd (restore wire_lib ?store 90 [sample_saved\<lparr>ceMsgBytes := [1]\<rparr>] 0 ?c)"
  have r: "?r = ?store 0 ''a.'' TypeA ClassINET asked_a ?c"
    by (simp add: sample_saved_def wire_lib_def)
  have "fmlookup (entries ?r) ''a./A/IN'' \<noteq> None"
    unfolding r using program_cache.found_same [of wire_lib "\<lambda>_. sorted_list_of_fset" "\<lambda>_ _. 90" 0 "''a.''" TypeA ClassINET asked_a ?c]
    by (auto simp: found_in_def wire_lib_key)
  then obtain x where x: "fmlookup (entries ?r) ''a./A/IN'' = Some x" by blast
  have m: "eMsg x = asked_a"
    using x program_cache.found_same [of wire_lib "\<lambda>_. sorted_list_of_fset" "\<lambda>_ _. 90" 0 "''a.''" TypeA ClassINET asked_a ?c]
    unfolding r by (simp add: found_in_def wire_lib_key)
  have "mlen (entries ?c) + length [sample_saved\<lparr>ceMsgBytes := [1]\<rparr>] \<le> nat (maxSize ?c)"
    by (simp add: New_cache_def fcard_fempty)
  from restore_renews_lifetime [OF this x]
  have "ExpiresAt x = 90 + entryTTL ?c asked_a" by (auto simp: New_cache_def m)
  with x show ?thesis
    by (auto simp: New_cache_def entryTTL_def is_negative_def asked_a_def new_msg_def sample_saved_def)
qed

end
