(* ===== verification/Inflight.thy ===== *)
theory Inflight
  imports Resolver
begin

text \<open>
  Concurrent calls of \<^verbatim>\<open>Resolver.Resolve\<close> and the de-duplication of identical requests. Every call
  is a process; a step is a stretch of its code between two points where another process can
  interfere: the cache lookup, the critical section on \<^verbatim>\<open>inflightMu\<close> that joins or registers, the
  resolution, the publication of its result with \<^verbatim>\<open>close(done)\<close>, the removal from the map, the
  caching, the wake-up of a waiter. The request handler that got the leader's message writes into
  the object the waiters copy; this is a step too.
\<close>

section \<open>State\<close>

text \<open>\<^verbatim>\<open>inflightEntry\<close>; \<^verbatim>\<open>done\<close> is open or closed.\<close>

record inflight_entry =
  fDone :: bool
  fMsg :: "msg option"
  fErr :: "go_error option"

type_synonym request = "string \<times> u16 \<times> u16"
type_synonym outcome = "go_error + msg"
type_synonym answer = "msg option \<times> bool \<times> go_error option"

text \<open>
  Where a call is in its code. Entries live in a heap and are known by their addresses; the last
  two phases say how the call got its answer (\<open>Led\<close>: by its own resolution; then the message it
  returned is the object of the entry).
\<close>

datatype source = FromCache | Joined nat | GaveUp | Led nat outcome

datatype phase =
    Asked
  | Missed
  | Waiting nat
  | Leading nat
  | Resolved nat outcome
  | Published nat outcome
  | Unregistered nat outcome
  | Returned source answer
  | Handled nat outcome

text \<open>The cache, the map \<^verbatim>\<open>inflight\<close>, the heap of entries and the calls.\<close>

record flights =
  fcache :: cache
  inflight :: "(string, nat) fmap"
  flown :: "inflight_entry list"
  phases :: "nat \<Rightarrow> phase"

definition no_flights :: "cache \<Rightarrow> flights" where
  "no_flights c = \<lparr>fcache = c, inflight = fmempty, flown = [], phases = (\<lambda>_. Asked)\<rparr>"

definition to :: "nat \<Rightarrow> phase \<Rightarrow> flights \<Rightarrow> flights" where
  "to i p s = s\<lparr>phases := (phases s)(i := p)\<rparr>"

text \<open>The key under which a request is in flight; \<^verbatim>\<open>name = dns.Fqdn(name)\<close> comes first.\<close>

definition request_key :: "dns_lib \<Rightarrow> request \<Rightarrow> string" where
  "request_key L r = (case r of (n, t, q) \<Rightarrow> inflight_key (Fqdn L n) t q)"

definition msg_of :: "outcome \<Rightarrow> msg option" where
  "msg_of r = (case r of Inl e \<Rightarrow> None | Inr m \<Rightarrow> Some m)"

definition err_of :: "outcome \<Rightarrow> go_error option" where
  "err_of r = (case r of Inl e \<Rightarrow> Some e | Inr m \<Rightarrow> None)"

section \<open>Steps\<close>

text \<open>
  The actions of a call, with what they take from outside: clocks, the iteration order of the
  cache, the result of the resolution (\<open>resolveIterative\<close> always returns one), the error of a context
  that is done, the request the handler answers. \<open>Others\<close> is what other users of the cache do.
\<close>

datatype action =
    Check clock
  | Enter
  | Finish outcome
  | Publish
  | Unregister
  | Store "string fset \<Rightarrow> string list" clock
  | Wake
  | GiveUp go_error
  | Reply msg

datatype event = Act nat action | Others cache

inductive step :: "dns_lib \<Rightarrow> (nat \<Rightarrow> request) \<Rightarrow> flights \<Rightarrow> event \<Rightarrow> flights \<Rightarrow> bool"
  for L :: dns_lib and req :: "nat \<Rightarrow> request" where
  hit: "phases s i = Asked \<Longrightarrow> req i = (n, t, q) \<Longrightarrow>
    Get L clk (Fqdn L n) t q (fcache s) = ((mo, True, pf), c) \<Longrightarrow>
    step L req s (Act i (Check clk)) (to i (Returned FromCache (mo, True, None)) (s\<lparr>fcache := c\<rparr>))"
| miss: "phases s i = Asked \<Longrightarrow> req i = (n, t, q) \<Longrightarrow>
    Get L clk (Fqdn L n) t q (fcache s) = ((mo, False, pf), c) \<Longrightarrow>
    step L req s (Act i (Check clk)) (to i Missed (s\<lparr>fcache := c\<rparr>))"
| join: "phases s i = Missed \<Longrightarrow> fmlookup (inflight s) (request_key L (req i)) = Some a \<Longrightarrow>
    step L req s (Act i Enter) (to i (Waiting a) s)"
| lead: "phases s i = Missed \<Longrightarrow> fmlookup (inflight s) (request_key L (req i)) = None \<Longrightarrow>
    step L req s (Act i Enter)
      (to i (Leading (length (flown s)))
        (s\<lparr>inflight := fmupd (request_key L (req i)) (length (flown s)) (inflight s),
           flown := flown s @ [\<lparr>fDone = False, fMsg = None, fErr = None\<rparr>]\<rparr>))"
| finish: "phases s i = Leading a \<Longrightarrow> step L req s (Act i (Finish r)) (to i (Resolved a r) s)"
| publish: "phases s i = Resolved a r \<Longrightarrow>
    step L req s (Act i Publish)
      (to i (Published a r)
        (s\<lparr>flown := (flown s)[a := \<lparr>fDone = True, fMsg = msg_of r, fErr = err_of r\<rparr>]\<rparr>))"
| unregister: "phases s i = Published a r \<Longrightarrow>
    step L req s (Act i Unregister)
      (to i (Unregistered a r) (s\<lparr>inflight := fmdrop (request_key L (req i)) (inflight s)\<rparr>))"
| store: "phases s i = Unregistered a r \<Longrightarrow> req i = (n, t, q) \<Longrightarrow>
    step L req s (Act i (Store ord clk))
      (to i (Returned (Led a r) (msg_of r, False, err_of r))
        (s\<lparr>fcache := Set L ord clk (Fqdn L n) t q (msg_of r) (fcache s)\<rparr>))"
| wake: "phases s i = Waiting a \<Longrightarrow> a < length (flown s) \<Longrightarrow> fDone (flown s ! a) \<Longrightarrow>
    step L req s (Act i Wake)
      (to i (Returned (Joined a) (fMsg (flown s ! a), False, fErr (flown s ! a))) s)"
| give_up: "phases s i = Waiting a \<Longrightarrow>
    step L req s (Act i (GiveUp e)) (to i (Returned GaveUp (None, False, Some e)) s)"
| reply: "phases s i = Returned (Led a r) ans \<Longrightarrow>
    step L req s (Act i (Reply m))
      (to i (Handled a r)
        (s\<lparr>flown := (flown s)[a := (flown s ! a)\<lparr>fMsg :=
           map_option (\<lambda>x. (SetReply L x m)\<lparr>RecursionAvailable := True, Compress := True\<rparr>)
             (fMsg (flown s ! a))\<rparr>]\<rparr>))"
| others: "step L req s (Others c) (s\<lparr>fcache := c\<rparr>)"

inductive run :: "dns_lib \<Rightarrow> (nat \<Rightarrow> request) \<Rightarrow> flights \<Rightarrow> event list \<Rightarrow> flights \<Rightarrow> bool"
  for L :: dns_lib and req :: "nat \<Rightarrow> request" and s0 :: flights where
  start: "run L req s0 [] s0"
| more: "run L req s0 es s \<Longrightarrow> step L req s e s' \<Longrightarrow> run L req s0 (es @ [e]) s'"

inductive_cases runE [elim]: "run L req s0 (es @ [e]) s"
inductive_simps run_Nil [simp]: "run L req s0 [] s"

section \<open>Reading a phase\<close>

text \<open>The entry a call registered, its outcome once it is published, and whether it is in the map.\<close>

fun led :: "phase \<Rightarrow> nat option" where
  "led (Leading a) = Some a"
| "led (Resolved a r) = Some a"
| "led (Published a r) = Some a"
| "led (Unregistered a r) = Some a"
| "led (Returned (Led a r) ans) = Some a"
| "led (Handled a r) = Some a"
| "led p = None"

fun published :: "phase \<Rightarrow> outcome option" where
  "published (Published a r) = Some r"
| "published (Unregistered a r) = Some r"
| "published (Returned (Led a r) ans) = Some r"
| "published (Handled a r) = Some r"
| "published p = None"

fun registered :: "phase \<Rightarrow> nat option" where
  "registered (Leading a) = Some a"
| "registered (Resolved a r) = Some a"
| "registered (Published a r) = Some a"
| "registered p = None"

text \<open>The entry a call waits for or got its answer from.\<close>

fun joined_to :: "phase \<Rightarrow> nat option" where
  "joined_to (Waiting a) = Some a"
| "joined_to (Returned (Joined a) ans) = Some a"
| "joined_to p = None"

fun answered :: "phase \<Rightarrow> bool" where
  "answered (Returned src ans) = True"
| "answered (Handled a r) = True"
| "answered p = False"

text \<open>The records of a message: what a reply leaves as it is.\<close>

definition body :: "msg \<Rightarrow> rr list \<times> rr list \<times> rr list" where
  "body m = (Answer m, Ns m, Extra m)"

lemma body_handled:
  "replies_ok L \<Longrightarrow> body ((SetReply L x m)\<lparr>RecursionAvailable := True, Compress := True\<rparr>) = body x"
  by (simp add: body_def replies_ok_def)

lemma registered_led: "registered p = Some a \<Longrightarrow> led p = Some a"
  by (cases p rule: registered.cases) simp_all

lemma published_led: "published p = Some r \<Longrightarrow> \<exists>a. led p = Some a"
  by (cases p rule: published.cases) simp_all

definition entry_matches :: "inflight_entry \<Rightarrow> outcome option \<Rightarrow> bool" where
  "entry_matches e ro = (case ro of
     None \<Rightarrow> \<not> fDone e
   | Some r \<Rightarrow> fDone e \<and> map_option body (fMsg e) = map_option body (msg_of r) \<and> fErr e = err_of r)"


definition agrees :: "answer \<Rightarrow> outcome \<Rightarrow> bool" where
  "agrees ans r = (case ans of (m, cached, e) \<Rightarrow>
     map_option body m = map_option body (msg_of r) \<and> \<not> cached \<and> e = err_of r)"

section \<open>The invariant\<close>

text \<open>Every entry belongs to one call, and holds its outcome exactly when that is published.\<close>

definition owners_ok :: "flights \<Rightarrow> bool" where
  "owners_ok s \<longleftrightarrow> (\<forall>i a. led (phases s i) = Some a \<longrightarrow>
     a < length (flown s) \<and> entry_matches (flown s ! a) (published (phases s i))
     \<and> (\<forall>j. led (phases s j) = Some a \<longrightarrow> j = i))"

text \<open>The map holds exactly the entries of the calls between registration and removal.\<close>

definition map_ok :: "dns_lib \<Rightarrow> (nat \<Rightarrow> request) \<Rightarrow> flights \<Rightarrow> bool" where
  "map_ok L req s \<longleftrightarrow> (\<forall>k a. fmlookup (inflight s) k = Some a \<longleftrightarrow>
     (\<exists>i. registered (phases s i) = Some a \<and> request_key L (req i) = k))"

text \<open>A call waits only for a call with the same key, and an answer it got this way is that call's.\<close>

definition joins_ok :: "dns_lib \<Rightarrow> (nat \<Rightarrow> request) \<Rightarrow> flights \<Rightarrow> bool" where
  "joins_ok L req s \<longleftrightarrow> (\<forall>i a. joined_to (phases s i) = Some a \<longrightarrow>
     (\<exists>j. led (phases s j) = Some a \<and> request_key L (req j) = request_key L (req i)
        \<and> (\<forall>ans. phases s i = Returned (Joined a) ans \<longrightarrow>
             (\<exists>r. published (phases s j) = Some r \<and> agrees ans r))))"

lemma to_simps [simp]:
  "phases (to i p s) = (phases s)(i := p)" "inflight (to i p s) = inflight s"
  "flown (to i p s) = flown s" "fcache (to i p s) = fcache s"
  by (simp_all add: to_def)

lemma owners_okD:
  assumes "owners_ok s" and "led (phases s i) = Some a"
  shows "a < length (flown s)" and "entry_matches (flown s ! a) (published (phases s i))"
    and "led (phases s j) = Some a \<Longrightarrow> j = i"
  using assms by (auto simp: owners_ok_def)

text \<open>A step changes one call; entries of other calls stay as they are.\<close>

lemma owners_ok_change:
  assumes "owners_ok s" and new: "phases s' = (phases s)(i := p)"
    and p: "\<And>a. led p = Some a \<Longrightarrow> a < length (flown s') \<and> entry_matches (flown s' ! a) (published p)
           \<and> (led (phases s i) = Some a \<or> length (flown s) \<le> a)"
    and len: "length (flown s) \<le> length (flown s')"
    and same: "\<And>a. a < length (flown s) \<Longrightarrow> led (phases s i) \<noteq> Some a \<Longrightarrow> flown s' ! a = flown s ! a"
  shows "owners_ok s'"
  unfolding owners_ok_def
proof (intro allI impI)
  fix j a
  assume l: "led (phases s' j) = Some a"
  show "a < length (flown s') \<and> entry_matches (flown s' ! a) (published (phases s' j)) \<and>
      (\<forall>j'. led (phases s' j') = Some a \<longrightarrow> j' = j)"
  proof (cases "j = i")
    case True
    then have q: "led p = Some a" using l by (simp add: new)
    then have "j' = i" if "led (phases s j') = Some a" for j'
      using p [OF q] owners_okD [OF assms(1) that] by fastforce
    with p [OF q] True show ?thesis by (auto simp: new)
  next
    case False
    then have o: "led (phases s j) = Some a" using l by (simp add: new)
    have "led (phases s i) \<noteq> Some a" using owners_okD(3) [OF assms(1) o] False by blast
    then have "led p \<noteq> Some a" and "flown s' ! a = flown s ! a"
      using p [of a] same [of a] owners_okD(1) [OF assms(1) o] by auto
    with owners_okD [OF assms(1) o] len False show ?thesis by (auto simp: new)
  qed
qed

lemma step_owners:
  assumes "step L req s e s'" and "replies_ok L" and "owners_ok s"
  shows "owners_ok s'"
  using assms(1)
proof cases
  case (lead i)
  then show ?thesis
    by (intro owners_ok_change [OF assms(3)]) (auto simp: entry_matches_def nth_append)
next
  case (finish i a r)
  then show ?thesis
    using owners_okD [OF assms(3), of i a]
    by (intro owners_ok_change [OF assms(3)]) auto
next
  case (publish i a r)
  then show ?thesis
    using owners_okD [OF assms(3), of i a]
    by (intro owners_ok_change [OF assms(3)]) (auto simp: entry_matches_def nth_list_update)
next
  case (unregister i a r)
  then show ?thesis
    using owners_okD [OF assms(3), of i a]
    by (intro owners_ok_change [OF assms(3)]) auto
next
  case (store i a r)
  then show ?thesis
    using owners_okD [OF assms(3), of i a]
    by (intro owners_ok_change [OF assms(3)]) auto
next
  case (reply i a r ans m)
  have "map_option body (map_option (\<lambda>x. (SetReply L x m)\<lparr>RecursionAvailable := True, Compress := True\<rparr>) mo)
      = map_option body mo" for mo
    by (simp add: option.map_comp comp_def body_handled [OF assms(2)])
  with reply show ?thesis
    using owners_okD [OF assms(3), of i a]
    by (intro owners_ok_change [OF assms(3)]) (auto simp: entry_matches_def nth_list_update)
next
  case (others c)
  with assms(3) show ?thesis by (simp add: owners_ok_def)
qed (intro owners_ok_change [OF assms(3)], auto)+

text \<open>A call that is the only one to register or to leave the map.\<close>

lemma map_ok_change:
  assumes M: "map_ok L req s" and new: "phases s' = (phases s)(i := p)"
    and here: "\<And>a. fmlookup (inflight s') (request_key L (req i)) = Some a \<longleftrightarrow> registered p = Some a"
    and other: "\<And>k. k \<noteq> request_key L (req i) \<Longrightarrow> fmlookup (inflight s') k = fmlookup (inflight s) k"
    and alone: "\<And>j a. registered (phases s j) = Some a \<Longrightarrow> request_key L (req j) = request_key L (req i) \<Longrightarrow> j = i"
  shows "map_ok L req s'"
  unfolding map_ok_def
proof (intro allI)
  fix k a
  show "fmlookup (inflight s') k = Some a \<longleftrightarrow>
      (\<exists>j. registered (phases s' j) = Some a \<and> request_key L (req j) = k)"
  proof (cases "k = request_key L (req i)")
    case True
    then show ?thesis using here [of a] alone by (auto simp: new)
  next
    case False
    then have "fmlookup (inflight s') k = Some a \<longleftrightarrow>
        (\<exists>j. registered (phases s j) = Some a \<and> request_key L (req j) = k)"
      using other M by (simp add: map_ok_def)
    also have "\<dots> \<longleftrightarrow> (\<exists>j. registered (phases s' j) = Some a \<and> request_key L (req j) = k)"
      using False by (auto simp: new)
    finally show ?thesis .
  qed
qed

lemma map_ok_keep:
  assumes "map_ok L req s" and new: "phases s' = (phases s)(i := p)"
    and "registered p = registered (phases s i)" and "inflight s' = inflight s"
  shows "map_ok L req s'"
proof -
  have "registered (phases s' j) = registered (phases s j)" for j using assms(3) by (simp add: new)
  with assms(1,4) show ?thesis by (simp add: map_ok_def)
qed

lemma map_okD:
  assumes "map_ok L req s" and "registered (phases s i) = Some a"
  shows "fmlookup (inflight s) (request_key L (req i)) = Some a"
  using assms by (auto simp: map_ok_def)

lemma registered_alone:
  assumes "owners_ok s" and "map_ok L req s" and "request_key L (req j) = request_key L (req i)"
    and "registered (phases s i) = Some a" and "registered (phases s j) = Some b"
  shows "j = i"
proof -
  have "a = b" using map_okD [OF assms(2,4)] map_okD [OF assms(2,5)] assms(3) by simp
  with assms(4,5) have "led (phases s i) = Some a" "led (phases s j) = Some a"
    by (simp_all add: registered_led)
  then show ?thesis by (rule owners_okD(3) [OF assms(1)])
qed

lemma step_map:
  assumes "step L req s e s'" and "owners_ok s" and "map_ok L req s"
  shows "map_ok L req s'"
  using assms(1)
proof cases
  case (lead i)
  show ?thesis
  proof (rule map_ok_change [OF assms(3), of _ i])
    show "phases s' = (phases s)(i := Leading (length (flown s)))" using lead by simp
    show "j = i" if "registered (phases s j) = Some a"
        "request_key L (req j) = request_key L (req i)" for j a
      using map_okD [OF assms(3) that(1)] that(2) lead by simp
  qed (use lead in auto)
next
  case (unregister i a r)
  show ?thesis
  proof (rule map_ok_change [OF assms(3), of _ i])
    show "phases s' = (phases s)(i := Unregistered a r)" using unregister by simp
    show "j = i" if "registered (phases s j) = Some b"
        "request_key L (req j) = request_key L (req i)" for j b
      using registered_alone [OF assms(2,3) that(2) _ that(1)] unregister by simp
  qed (use unregister in auto)
qed (use assms(3) in \<open>auto intro!: map_ok_keep [OF assms(3)]\<close>)

lemma joins_ok_change:
  assumes J: "joins_ok L req s" and new: "phases s' = (phases s)(i := p)"
    and keep: "led (phases s i) = None \<or> led p = led (phases s i)"
      "published (phases s i) = None \<or> published p = published (phases s i)"
    and here: "\<And>a. joined_to p = Some a \<Longrightarrow> \<exists>j. led (phases s j) = Some a
        \<and> request_key L (req j) = request_key L (req i)
        \<and> (\<forall>ans. p = Returned (Joined a) ans \<longrightarrow> (\<exists>r. published (phases s j) = Some r \<and> agrees ans r))"
  shows "joins_ok L req s'"
  unfolding joins_ok_def
proof (intro allI impI)
  fix k a
  assume k: "joined_to (phases s' k) = Some a"
  have l: "led (phases s' j) = Some a" if "led (phases s j) = Some a" for j
    using that keep(1) by (auto simp: new)
  have q: "published (phases s' j) = Some r" if "published (phases s j) = Some r" for j r
    using that keep(2) by (auto simp: new)
  have "\<exists>j. led (phases s j) = Some a \<and> request_key L (req j) = request_key L (req k)
      \<and> (\<forall>ans. phases s' k = Returned (Joined a) ans \<longrightarrow> (\<exists>r. published (phases s j) = Some r \<and> agrees ans r))"
  proof (cases "k = i")
    case True
    then show ?thesis using here k by (simp add: new)
  next
    case False
    then show ?thesis using J k by (simp add: joins_ok_def new)
  qed
  then show "\<exists>j. led (phases s' j) = Some a \<and> request_key L (req j) = request_key L (req k)
      \<and> (\<forall>ans. phases s' k = Returned (Joined a) ans \<longrightarrow> (\<exists>r. published (phases s' j) = Some r \<and> agrees ans r))"
    using l q by blast
qed

lemma joins_okD:
  assumes "joins_ok L req s" and "joined_to (phases s i) = Some a"
  shows "\<exists>j. led (phases s j) = Some a \<and> request_key L (req j) = request_key L (req i)"
  using assms unfolding joins_ok_def by blast

lemma step_joins:
  assumes "step L req s e s'" and "owners_ok s" and "map_ok L req s" and "joins_ok L req s"
  shows "joins_ok L req s'"
  using assms(1)
proof cases
  case (join i a)
  obtain j where "registered (phases s j) = Some a" "request_key L (req j) = request_key L (req i)"
    using assms(3) join by (auto simp: map_ok_def)
  then have "led (phases s j) = Some a \<and> request_key L (req j) = request_key L (req i)"
    by (simp add: registered_led)
  with join show ?thesis by (intro joins_ok_change [OF assms(4)]) auto
next
  case (wake i a)
  obtain j where j: "led (phases s j) = Some a" "request_key L (req j) = request_key L (req i)"
    using joins_okD [OF assms(4), of i a] wake by auto
  from owners_okD(2) [OF assms(2) j(1)] wake obtain r where "published (phases s j) = Some r"
      "agrees (fMsg (flown s ! a), False, fErr (flown s ! a)) r"
    by (auto simp: entry_matches_def agrees_def split: option.splits)
  with wake j show ?thesis by (intro joins_ok_change [OF assms(4)]) auto
next
  case (others c)
  with assms(4) show ?thesis by (simp add: joins_ok_def)
qed (intro joins_ok_change [OF assms(4)], auto)+

lemma run_inv:
  assumes "run L req (no_flights c) es s" and "replies_ok L"
  shows "owners_ok s \<and> map_ok L req s \<and> joins_ok L req s"
  using assms(1)
proof induction
  case start
  then show ?case by (simp add: owners_ok_def map_ok_def joins_ok_def no_flights_def)
next
  case (more es s e s')
  then show ?case using step_owners [OF _ assms(2)] step_map step_joins by blast
qed

section \<open>Every call ends\<close>

fun steps_left :: "phase \<Rightarrow> nat" where
  "steps_left Asked = 7"
| "steps_left Missed = 6"
| "steps_left (Leading a) = 5"
| "steps_left (Resolved a r) = 4"
| "steps_left (Published a r) = 3"
| "steps_left (Unregistered a r) = 2"
| "steps_left (Waiting a) = 1"
| "steps_left (Returned (Led a r) ans) = 1"
| "steps_left (Returned src ans) = 0"
| "steps_left (Handled a r) = 0"

text \<open>The events of the calls below \<open>n\<close>, and their number without those of other cache users.\<close>

fun acts_below :: "nat \<Rightarrow> event \<Rightarrow> bool" where
  "acts_below n (Act i x) = (i < n)"
| "acts_below n (Others c) = True"

fun is_act :: "event \<Rightarrow> bool" where
  "is_act (Act i x) = True"
| "is_act (Others c) = False"

fun gives_up :: "action \<Rightarrow> bool" where
  "gives_up (GiveUp e) = True"
| "gives_up x = False"

lemma step_act:
  assumes "step L req s (Act i x) s'"
  shows "\<exists>p. phases s' = (phases s)(i := p) \<and> steps_left p < steps_left (phases s i)"
  using assms by cases auto

lemma sum_update_less:
  fixes f :: "nat \<Rightarrow> nat"
  assumes "i < n" and "g i < f i" and "\<And>j. j \<noteq> i \<Longrightarrow> g j = f j"
  shows "Suc (\<Sum>j<n. g j) \<le> (\<Sum>j<n. f j)"
proof -
  have "g j \<le> f j" for j using assms(2,3) by (cases "j = i") auto
  then have "(\<Sum>j<n. g j) < (\<Sum>j<n. f j)"
    using assms(1,2) by (intro sum_strict_mono_ex1) auto
  then show ?thesis by simp
qed

lemma run_bounded_steps:
  assumes "run L req (no_flights c) es s" and "list_all (acts_below n) es"
  shows "length (filter is_act es) + (\<Sum>i<n. steps_left (phases s i)) \<le> 7 * n
    \<and> (\<forall>i \<ge> n. phases s i = Asked)"
  using assms
proof induction
  case start
  then show ?case by (simp add: no_flights_def)
next
  case (more es s e s')
  show ?case
  proof (cases e)
    case (Act i x)
    then obtain p where p: "phases s' = (phases s)(i := p)" "steps_left p < steps_left (phases s i)"
      using step_act more(2) by blast
    have "i < n" using more.prems Act by simp
    then have "Suc (\<Sum>j<n. steps_left (phases s' j)) \<le> (\<Sum>j<n. steps_left (phases s j))"
      by (rule sum_update_less [of i]) (use p in auto)
    with more Act p \<open>i < n\<close> show ?thesis by simp
  next
    case (Others c')
    have "phases s' = phases s" using more(2) unfolding Others by cases simp
    with more Others show ?thesis by simp
  qed
qed

text \<open>A call that has not been answered can take its next step, or waits for one that can.\<close>

lemma call_enabled:
  assumes "\<not> answered (phases s i)" and "\<forall>a. phases s i \<noteq> Waiting a"
  shows "\<exists>x s'. \<not> gives_up x \<and> step L req s (Act i x) s'"
proof -
  obtain n t q where r: "req i = (n, t, q)" by (cases "req i")
  show ?thesis
  proof (cases "phases s i")
    case Asked
    obtain mo found pf c where g: "Get L (\<lambda>_. 0) (Fqdn L n) t q (fcache s) = ((mo, found, pf), c)"
      by (metis prod.collapse)
    let ?x = "Check (\<lambda>_. 0)"
    have "\<exists>s'. step L req s (Act i ?x) s'"
    proof (cases found)
      case True
      then have f: "found = True" by simp
      from hit [where L = L and req = req, OF Asked r, OF g [unfolded f]] show ?thesis by blast
    next
      case False
      then have f: "found = False" by simp
      from miss [where L = L and req = req, OF Asked r, OF g [unfolded f]] show ?thesis by blast
    qed
    then show ?thesis by (intro exI [of _ ?x]) simp
  next
    case Missed
    have "\<exists>s'. step L req s (Act i Enter) s'"
    proof (cases "fmlookup (inflight s) (request_key L (req i))")
      case None
      from lead [where L = L and req = req, OF Missed this] show ?thesis by blast
    next
      case (Some a)
      from join [where L = L and req = req, OF Missed this] show ?thesis by blast
    qed
    then show ?thesis by (intro exI [of _ Enter]) simp
  next
    case (Leading a)
    from finish [where L = L and req = req and r = "Inl []", OF this] show ?thesis
      by (intro exI [of _ "Finish (Inl [])"]) auto
  next
    case (Resolved a r)
    from publish [where L = L and req = req, OF this] show ?thesis by (intro exI [of _ Publish]) auto
  next
    case (Published a r)
    from unregister [where L = L and req = req, OF this] show ?thesis by (intro exI [of _ Unregister]) auto
  next
    case (Unregistered a r')
    from store [where L = L and req = req and ord = sorted_list_of_fset and clk = "\<lambda>_. 0", OF this r] show ?thesis
      by (intro exI [of _ "Store sorted_list_of_fset (\<lambda>_. 0)"]) auto
  qed (use assms in auto)
qed

lemma unpublished_led:
  "led p = Some a \<Longrightarrow> published p = None \<Longrightarrow> \<not> answered p \<and> (\<forall>b. p \<noteq> Waiting b)"
  by (cases p rule: led.cases) simp_all

lemma waiting_released:
  assumes "owners_ok s" and "joins_ok L req s" and "phases s i = Waiting a"
  shows "(\<exists>s'. step L req s (Act i Wake) s')
    \<or> (\<exists>j. led (phases s j) = Some a \<and> \<not> answered (phases s j) \<and> (\<forall>b. phases s j \<noteq> Waiting b))"
proof -
  obtain j where j: "led (phases s j) = Some a"
    using joins_okD [OF assms(2), of i a] assms(3) by auto
  show ?thesis
  proof (cases "published (phases s j)")
    case None
    with j unpublished_led show ?thesis by blast
  next
    case (Some r)
    with owners_okD(1,2) [OF assms(1) j] have "a < length (flown s)" "fDone (flown s ! a)"
      by (simp_all add: entry_matches_def)
    from wake [where L = L and req = req, OF assms(3) this] show ?thesis by blast
  qed
qed

section \<open>Properties\<close>

text \<open>
  C8: identical requests are resolved once at a time: while a call is between its registration and
  its removal from the map, no other call with the same key is, whatever the interleaving.
\<close>
theorem single_flight:
  assumes "run L req (no_flights c) es s" and "replies_ok L"
    and "request_key L (req j) = request_key L (req i)" and "i \<noteq> j"
    and "registered (phases s i) = Some a"
  shows "registered (phases s j) = None"
  using registered_alone [OF _ _ assms(3,5)] run_inv [OF assms(1,2)] assms(4)
  by (cases "registered (phases s j)") auto

text \<open>Two calls with one question: one leads, the other joins.\<close>

definition twice :: "nat \<Rightarrow> request" where
  "twice = (\<lambda>_. (''a.'', TypeA, ClassINET))"

definition empty_cache :: cache where
  "empty_cache = New_cache 10 0 hour minute 0"

lemma step_empty_miss:
  assumes "phases s i = Asked" and "entries (fcache s) = fmempty"
  shows "\<exists>s'. step L req s (Act i (Check clk)) s' \<and> phases s' = (phases s)(i := Missed)
    \<and> inflight s' = inflight s \<and> flown s' = flown s \<and> entries (fcache s') = fmempty"
proof -
  let ?c = "(fcache s)\<lparr>misses := misses (fcache s) + 1\<rparr>"
  obtain n t q where r: "req i = (n, t, q)" by (cases "req i")
  have "Get L clk (Fqdn L n) t q (fcache s) = ((None, False, False), ?c)"
    using assms(2) by (simp add: Get_def)
  from miss [where L = L and req = req, OF assms(1) r this] show ?thesis
    by (intro exI [of _ "to i Missed (s\<lparr>fcache := ?c\<rparr>)"]) (simp add: assms(2))
qed

lemma twice_both_miss:
  "\<exists>s. run sample_lib twice (no_flights empty_cache) [Act 0 (Check (\<lambda>_. 0)), Act 1 (Check (\<lambda>_. 0))] s
     \<and> phases s = (\<lambda>_. Asked)(0 := Missed, 1 := Missed) \<and> inflight s = fmempty \<and> flown s = []"
proof -
  have i: "phases (no_flights empty_cache) 0 = Asked" "entries (fcache (no_flights empty_cache)) = fmempty"
    by (simp_all add: no_flights_def empty_cache_def New_cache_def)
  from step_empty_miss [where L = sample_lib and req = twice and clk = "\<lambda>_. 0", OF i]
  obtain s1 where s1: "step sample_lib twice (no_flights empty_cache) (Act 0 (Check (\<lambda>_. 0))) s1"
      "phases s1 = (\<lambda>_. Asked)(0 := Missed)" "inflight s1 = fmempty" "flown s1 = []"
      "entries (fcache s1) = fmempty"
    by (auto simp: no_flights_def)
  then have "phases s1 1 = Asked" by simp
  from step_empty_miss [where L = sample_lib and req = twice and clk = "\<lambda>_. 0", OF this s1(5)]
  obtain s2 where s2: "step sample_lib twice s1 (Act 1 (Check (\<lambda>_. 0))) s2"
      "phases s2 = (\<lambda>_. Asked)(0 := Missed, 1 := Missed)" "inflight s2 = fmempty" "flown s2 = []"
    using s1 by auto
  from more [OF more [OF start s1(1)] s2(1)] s2 show ?thesis by auto
qed

lemma twice_lead_join:
  "\<exists>s es. run sample_lib twice (no_flights empty_cache) es s \<and> list_all (acts_below 2) es
     \<and> phases s = (\<lambda>_. Asked)(0 := Leading 0, 1 := Waiting 0)
     \<and> flown s = [\<lparr>fDone = False, fMsg = None, fErr = None\<rparr>]"
proof -
  obtain s where s: "run sample_lib twice (no_flights empty_cache) [Act 0 (Check (\<lambda>_. 0)), Act 1 (Check (\<lambda>_. 0))] s"
      "phases s = (\<lambda>_. Asked)(0 := Missed, 1 := Missed)" "inflight s = fmempty" "flown s = []"
    using twice_both_miss by blast
  let ?k = "request_key sample_lib (twice 0)"
  let ?s1 = "to 0 (Leading (length (flown s))) (s\<lparr>inflight := fmupd ?k (length (flown s)) (inflight s),
           flown := flown s @ [\<lparr>fDone = False, fMsg = None, fErr = None\<rparr>]\<rparr>)"
  have "step sample_lib twice s (Act 0 Enter) ?s1" by (rule lead) (simp_all add: s)
  from more [OF s(1) this] have r1: "run sample_lib twice (no_flights empty_cache)
      ([Act 0 (Check (\<lambda>_. 0)), Act 1 (Check (\<lambda>_. 0))] @ [Act 0 Enter]) ?s1" .
  have "step sample_lib twice ?s1 (Act 1 Enter) (to 1 (Waiting 0) ?s1)"
    by (rule join) (simp_all add: s twice_def)
  from more [OF r1 this] show ?thesis
    by (intro exI conjI, assumption) (simp_all add: s)
qed

theorem single_flight_witness:
  "\<exists>s es. run sample_lib twice (no_flights empty_cache) es s \<and> registered (phases s 0) = Some 0
     \<and> phases s 1 = Waiting 0 \<and> registered (phases s 1) = None"
proof -
  obtain s es where s: "run sample_lib twice (no_flights empty_cache) es s"
      "phases s = (\<lambda>_. Asked)(0 := Leading 0, 1 := Waiting 0)"
    using twice_lead_join by blast
  from single_flight [OF s(1), of 1 0 0] s show ?thesis by (auto simp: twice_def)
qed


lemma twice_woken:
  "\<exists>s es. run sample_lib twice (no_flights empty_cache) es s
     \<and> phases s 1 = Returned (Joined 0) (Some new_msg, False, None)"
proof -
  obtain s es where s: "run sample_lib twice (no_flights empty_cache) es s"
      "phases s = (\<lambda>_. Asked)(0 := Leading 0, 1 := Waiting 0)"
      "flown s = [\<lparr>fDone = False, fMsg = None, fErr = None\<rparr>]"
    using twice_lead_join by blast
  let ?s1 = "to 0 (Resolved 0 (Inr new_msg)) s"
  let ?s2 = "to 0 (Published 0 (Inr new_msg)) (?s1\<lparr>flown := (flown ?s1)[0 := \<lparr>fDone = True,
      fMsg = msg_of (Inr new_msg), fErr = err_of (Inr new_msg)\<rparr>]\<rparr>)"
  let ?s3 = "to 1 (Returned (Joined 0) (fMsg (flown ?s2 ! 0), False, fErr (flown ?s2 ! 0))) ?s2"
  have "step sample_lib twice s (Act 0 (Finish (Inr new_msg))) ?s1" by (rule finish) (simp add: s)
  moreover have "step sample_lib twice ?s1 (Act 0 Publish) ?s2" by (rule publish) (simp add: s)
  moreover have "step sample_lib twice ?s2 (Act 1 Wake) ?s3" by (rule wake) (simp_all add: s)
  ultimately have "run sample_lib twice (no_flights empty_cache)
      (((es @ [Act 0 (Finish (Inr new_msg))]) @ [Act 0 Publish]) @ [Act 1 Wake]) ?s3"
    using s(1) by (intro more)
  then show ?thesis by (intro exI conjI, assumption) (simp add: s msg_of_def err_of_def)
qed


text \<open>
  C31: nobody waits for ever: calls below \<open>n\<close> take at most \<open>7 n\<close> steps in all, and as long as one of
  them is without an answer some call can take a step other than giving up, so that a run that goes
  on as long as it can answers all of them without any context having to expire.
\<close>
theorem calls_end:
  assumes "run L req (no_flights c) es s" and "replies_ok L" and "list_all (acts_below n) es"
  shows "length (filter is_act es) \<le> 7 * n
    \<and> ((\<forall>i < n. answered (phases s i))
       \<or> (\<exists>i < n. \<exists>x s'. \<not> gives_up x \<and> step L req s (Act i x) s'))"
proof -
  have b: "length (filter is_act es) \<le> 7 * n" "\<And>i. n \<le> i \<Longrightarrow> phases s i = Asked"
    using run_bounded_steps [OF assms(1,3)] by auto
  have "\<exists>k < n. \<exists>x s'. \<not> gives_up x \<and> step L req s (Act k x) s'"
    if i: "i < n" "\<not> answered (phases s i)" for i
  proof (cases "\<exists>a. phases s i = Waiting a")
    case False
    with i call_enabled [OF i(2)] show ?thesis by blast
  next
    case True
    then obtain a where a: "phases s i = Waiting a" by blast
    have inv: "owners_ok s" "joins_ok L req s" using run_inv [OF assms(1,2)] by auto
    from waiting_released [OF inv a] show ?thesis
    proof
      assume "\<exists>s'. step L req s (Act i Wake) s'"
      with i(1) gives_up.simps show ?thesis by blast
    next
      assume "\<exists>j. led (phases s j) = Some a \<and> \<not> answered (phases s j) \<and> (\<forall>b. phases s j \<noteq> Waiting b)"
      then obtain j where j: "led (phases s j) = Some a" "\<not> answered (phases s j)"
        "\<forall>b. phases s j \<noteq> Waiting b" by blast
      have "j < n"
      proof (rule ccontr)
        assume "\<not> j < n"
        with b(2) [of j] j(1) show False by simp
      qed
      with call_enabled [OF j(2,3)] show ?thesis by blast
    qed
  qed
  with b(1) show ?thesis by blast
qed

theorem calls_end_witness:
  "\<exists>s es. run sample_lib twice (no_flights empty_cache) es s \<and> phases s 1 = Waiting 0
     \<and> (\<exists>i < 2. \<exists>x s'. \<not> gives_up x \<and> step sample_lib twice s (Act i x) s')"
proof -
  obtain s es where s: "run sample_lib twice (no_flights empty_cache) es s" "list_all (acts_below 2) es"
      "phases s = (\<lambda>_. Asked)(0 := Leading 0, 1 := Waiting 0)"
    using twice_lead_join by blast
  then have "\<not> answered (phases s 1)" by simp
  with calls_end [OF s(1) sample_lib_replies s(2)] s show ?thesis by fastforce
qed

end
