(* ===== verification/Config.thy ===== *)
theory Config
  imports Resolver BlockFilter Failover LocalRecords Ecs Persistence
begin

text \<open>
  The configuration, \<^verbatim>\<open>internal/config/config.go\<close>, and how the two programs choose it,
  \<^verbatim>\<open>cmd/dns-server/main.go\<close> and \<^verbatim>\<open>cmd/dns-server-windows/main.go\<close>. The sections owned by a
  component are the records of its theory. The YAML decoder is an argument: it takes the text and
  the configuration to fill in.
\<close>

section \<open>The record\<close>

record server_config =
  ListenAddr :: string
  UDPPort :: int
  TCPPort :: int
  Workers :: int

record cache_config =
  ccMaxSize :: int
  ccDefaultTTL :: duration
  ccMinTTL :: duration
  ccMaxTTL :: duration
  ccNegativeTTL :: duration
  ccPrefetchRatio :: rat
  ccCleanupInterval :: duration

record rate_config =
  rlEnabled :: bool
  RequestsPerSec :: int
  BurstSize :: int
  rlCleanupInterval :: duration

record metrics_config =
  mcEnabled :: bool
  mcListenAddr :: string
  mcPort :: int

record dashboard_auth_config =
  daEnabled :: bool
  daUsername :: string
  daPassword :: string

record cache_warmup_config =
  cwEnabled :: bool
  cwDomains :: "string list"

record logging_config =
  logLevel :: string
  logFile :: string
  logQueries :: bool

record client_stats_config =
  cstEnabled :: bool
  cstMaxClients :: int

record config =
  cfgServer :: server_config
  cfgCache :: cache_config
  cfgResolver :: resolver_config
  cfgRate :: rate_config
  cfgMetrics :: metrics_config
  cfgLogging :: logging_config
  cfgFilter :: filter_config
  cfgFailover :: failover_config
  cfgPersistence :: persistence_config
  cfgLocalRecords :: local_config
  cfgClientStats :: client_stats_config
  cfgECS :: ecs_config
  cfgDashboardAuth :: dashboard_auth_config
  cfgCacheWarmup :: cache_warmup_config

definition warmup_domains :: "string list" where
  "warmup_domains =
     [''google.com'', ''www.google.com'', ''youtube.com'', ''www.youtube.com'',
      ''facebook.com'', ''www.facebook.com'', ''instagram.com'', ''www.instagram.com'',
      ''tiktok.com'', ''www.tiktok.com'', ''whatsapp.com'', ''web.whatsapp.com'',
      ''twitter.com'', ''x.com'', ''github.com'', ''cloudflare.com'',
      ''tokopedia.com'', ''shopee.co.id'', ''bukalapak.com'', ''gojek.com'',
      ''grab.com'', ''dana.id'', ''ovo.id'', ''bca.co.id'',
      ''detik.com'', ''kompas.com'', ''tribunnews.com'', ''liputan6.com'']"

definition DefaultConfig :: config where
  "DefaultConfig =
     \<lparr>cfgServer = \<lparr>ListenAddr = ''0.0.0.0'', UDPPort = 53, TCPPort = 53, Workers = 4\<rparr>,
      cfgCache = \<lparr>ccMaxSize = 500000, ccDefaultTTL = 5 * minute, ccMinTTL = 30 * second,
        ccMaxTTL = 24 * hour, ccNegativeTTL = 5 * minute, ccPrefetchRatio = 1 / 10,
        ccCleanupInterval = minute\<rparr>,
      cfgResolver = \<lparr>MaxDepth = 30, MaxCNAMEChain = 10, rcTimeout = 2 * second, Retries = 3,
        RootHintsFile = [], EnableDNSSEC = False\<rparr>,
      cfgRate = \<lparr>rlEnabled = True, RequestsPerSec = 100, BurstSize = 200,
        rlCleanupInterval = 5 * minute\<rparr>,
      cfgMetrics = \<lparr>mcEnabled = True, mcListenAddr = ''0.0.0.0'', mcPort = 9153\<rparr>,
      cfgLogging = \<lparr>logLevel = ''info'', logFile = [], logQueries = False\<rparr>,
      cfgFilter = DefaultFilterConfig,
      cfgFailover = DefaultFailoverConfig,
      cfgPersistence = DefaultPersistenceConfig,
      cfgLocalRecords = DefaultLocalRecordsConfig,
      cfgClientStats = \<lparr>cstEnabled = True, cstMaxClients = 10000\<rparr>,
      cfgECS = DefaultECSConfig,
      cfgDashboardAuth = \<lparr>daEnabled = False, daUsername = ''admin'', daPassword = ''admin''\<rparr>,
      cfgCacheWarmup = \<lparr>cwEnabled = True, cwDomains = warmup_domains\<rparr>\<rparr>"

section \<open>Loading\<close>

type_synonym yaml_decoder = "string \<Rightarrow> config \<Rightarrow> go_error + config"
type_synonym file_reader = "string \<Rightarrow> go_error + string"

definition LoadFromFile :: "yaml_decoder \<Rightarrow> file_reader \<Rightarrow> string \<Rightarrow> go_error + config" where
  "LoadFromFile yaml rd path =
     (case rd path of
        Inl err \<Rightarrow> Inl err
      | Inr contents \<Rightarrow> yaml contents DefaultConfig)"

section \<open>The command lines\<close>

text \<open>\<^verbatim>\<open>slog.Level\<close>, ordered by severity.\<close>

datatype log_level = LevelDebug | LevelInfo | LevelWarn | LevelError

fun level_value :: "log_level \<Rightarrow> int" where
  "level_value LevelDebug = -4"
| "level_value LevelInfo = 0"
| "level_value LevelWarn = 4"
| "level_value LevelError = 8"

instantiation log_level :: linorder
begin

definition less_eq_log_level :: "log_level \<Rightarrow> log_level \<Rightarrow> bool" where
  "less_eq_log_level a b \<longleftrightarrow> level_value a \<le> level_value b"

definition less_log_level :: "log_level \<Rightarrow> log_level \<Rightarrow> bool" where
  "less_log_level a b \<longleftrightarrow> level_value a < level_value b"

instance
proof
  fix a b c :: log_level
  show "a < b \<longleftrightarrow> a \<le> b \<and> \<not> b \<le> a" by (auto simp: less_eq_log_level_def less_log_level_def)
  show "a \<le> a" by (simp add: less_eq_log_level_def)
  show "a \<le> c" if "a \<le> b" "b \<le> c" using that by (simp add: less_eq_log_level_def)
  show "a = b" if "a \<le> b" "b \<le> a"
    using that by (cases a; cases b) (simp_all add: less_eq_log_level_def)
  show "a \<le> b \<or> b \<le> a" by (auto simp: less_eq_log_level_def)
qed

end

definition parse_level :: "string \<Rightarrow> log_level" where
  "parse_level s =
     (if s = ''debug'' then LevelDebug
      else if s = ''info'' then LevelInfo
      else if s = ''warn'' then LevelWarn
      else if s = ''error'' then LevelError
      else LevelInfo)"

record flags =
  flConfig :: string
  flVersion :: bool
  flLogLevel :: string
  flQueryLog :: bool
  flService :: string

text \<open>\<^verbatim>\<open>Override with flags\<close>\<close>

definition apply_flags :: "flags \<Rightarrow> config \<Rightarrow> config" where
  "apply_flags fl cfg =
     (let cfg = (if flQueryLog fl then cfg\<lparr>cfgLogging := (cfgLogging cfg)\<lparr>logQueries := True\<rparr>\<rparr> else cfg)
      in cfg\<lparr>cfgLogging := (cfgLogging cfg)\<lparr>logLevel := flLogLevel fl\<rparr>\<rparr>)"

text \<open>
  What \<^verbatim>\<open>main\<close> of the Linux program does before it runs the server: it exits (with a status), or
  it goes on with a log level and a configuration.
\<close>

datatype startup = Exit int | Run log_level config

definition main_linux :: "yaml_decoder \<Rightarrow> file_reader \<Rightarrow> flags \<Rightarrow> startup" where
  "main_linux yaml rd fl =
     (if flVersion fl then Exit 0
      else let level = parse_level (flLogLevel fl) in
        if flConfig fl \<noteq> [] then
          (case LoadFromFile yaml rd (flConfig fl) of
             Inl err \<Rightarrow> Exit 1
           | Inr cfg \<Rightarrow> Run level (apply_flags fl cfg))
        else Run level (apply_flags fl DefaultConfig))"

text \<open>
  The Windows program's search. \<open>cfg\<close> is the value of the variable before the loop goes on; a file
  that exists but does not load sets it to \<^verbatim>\<open>nil\<close>.
\<close>

fun try_paths :: "yaml_decoder \<Rightarrow> file_reader \<Rightarrow> (string \<Rightarrow> bool) \<Rightarrow> string list \<Rightarrow> config option
    \<Rightarrow> config option" where
  "try_paths yaml rd stat [] cfg = cfg"
| "try_paths yaml rd stat (p # ps) cfg =
     (if stat p then
        (case LoadFromFile yaml rd p of
           Inr c \<Rightarrow> Some c
         | Inl err \<Rightarrow> try_paths yaml rd stat ps None)
      else try_paths yaml rd stat ps cfg)"

definition windows_config :: string where
  "windows_config = ''C:'' @ [CHR 0x5C] @ ''ProgramData'' @ [CHR 0x5C] @ ''DNSServerMandiri'' @ [CHR 0x5C]
     @ ''config.yaml''"

text \<open>
  \<^verbatim>\<open>loadConfig\<close>; \<open>beside\<close> is the path of \<^verbatim>\<open>config.yaml\<close> in the directory of \<^verbatim>\<open>os.Args[0]\<close>. \<open>None\<close> is
  the exit with status 1.
\<close>

definition loadConfig :: "yaml_decoder \<Rightarrow> file_reader \<Rightarrow> (string \<Rightarrow> bool) \<Rightarrow> string \<Rightarrow> string \<Rightarrow> config option" where
  "loadConfig yaml rd stat beside configFile =
     (if configFile \<noteq> [] then
        (case LoadFromFile yaml rd configFile of Inl err \<Rightarrow> None | Inr cfg \<Rightarrow> Some cfg)
      else
        (case try_paths yaml rd stat [''config.yaml'', beside, windows_config] None of
           None \<Rightarrow> Some DefaultConfig
         | Some cfg \<Rightarrow> Some cfg))"

text \<open>
  Where the Windows program's \<^verbatim>\<open>main\<close> goes: \<open>is_service\<close> is the answer of
  \<^verbatim>\<open>svc.IsWindowsService\<close>, \<open>own\<close> the path of \<^verbatim>\<open>config.yaml\<close> beside the executable.
\<close>

datatype windows_mode = WExit int | ServiceCommand string | AsService string | Console startup

definition runConsole :: "yaml_decoder \<Rightarrow> file_reader \<Rightarrow> (string \<Rightarrow> bool) \<Rightarrow> string \<Rightarrow> flags \<Rightarrow> startup" where
  "runConsole yaml rd stat beside fl =
     (case loadConfig yaml rd stat beside (flConfig fl) of
        None \<Rightarrow> Exit 1
      | Some cfg \<Rightarrow> Run (parse_level (flLogLevel fl)) (apply_flags fl cfg))"

definition main_windows :: "yaml_decoder \<Rightarrow> file_reader \<Rightarrow> (string \<Rightarrow> bool) \<Rightarrow> string \<Rightarrow> string
    \<Rightarrow> go_error + bool \<Rightarrow> flags \<Rightarrow> windows_mode" where
  "main_windows yaml rd stat beside own is_service fl =
     (if flVersion fl then WExit 0
      else if flService fl \<noteq> [] then ServiceCommand (flService fl)
      else case is_service of
             Inl err \<Rightarrow> WExit 1
           | Inr True \<Rightarrow> AsService (if flConfig fl = [] then own else flConfig fl)
           | Inr False \<Rightarrow> Console (runConsole yaml rd stat beside fl))"

section \<open>Which configuration is used\<close>

definition loads :: "yaml_decoder \<Rightarrow> file_reader \<Rightarrow> (string \<Rightarrow> bool) \<Rightarrow> string \<Rightarrow> bool" where
  "loads yaml rd stat p \<longleftrightarrow> stat p \<and> (\<exists>c. LoadFromFile yaml rd p = Inr c)"

lemma try_paths_find:
  "try_paths yaml rd stat ps None =
     (case find (loads yaml rd stat) ps of
        None \<Rightarrow> None
      | Some p \<Rightarrow> Some (projr (LoadFromFile yaml rd p)))"
  by (induction ps) (auto simp: loads_def split: sum.splits)


text \<open>The flags set the log level and at most turn query logging on; nothing else changes.\<close>

lemma apply_flags_only_logging:
  "cfgLogging (apply_flags fl cfg) =
     (cfgLogging cfg)\<lparr>logQueries := logQueries (cfgLogging cfg) \<or> flQueryLog fl, logLevel := flLogLevel fl\<rparr>"
  "(apply_flags fl cfg)\<lparr>cfgLogging := cfgLogging cfg\<rparr> = cfg"
  by (simp_all add: apply_flags_def Let_def)

end
