(* ===== verification/Service.thy ===== *)
theory Service
  imports Config
begin

text \<open>
  The Windows service, \<^verbatim>\<open>cmd/dns-server-windows/service.go\<close>: the life of the service under the control
  of the service manager, and the commands that install, remove, start and stop it. The service
  manager and the event log belong to \<^verbatim>\<open>golang.org/x/sys\<close>; they are arguments. What is printed is left out.
\<close>

section \<open>The running service\<close>

datatype svc_state = StartPending | Running | StopPending | Stopped | Other_state nat

datatype svc_cmd = Cmd_stop | Cmd_shutdown | Cmd_interrogate | Other_cmd nat

record svc_status =
  svState :: svc_state
  svAccepts :: "svc_cmd list"

record change_request =
  crCmd :: svc_cmd
  crCurrentStatus :: svc_status

text \<open>What the loop selects: the end of \<^verbatim>\<open>srv.Start()\<close> with its error, or a request of the manager.\<close>

datatype svc_input = Server_ended "go_error option" | Requested change_request

record dns_service =
  dsConfigFile :: string
  dsLogLevel :: string
  dsQueryLog :: bool

text \<open>
  The statuses sent, the result \<^verbatim>\<open>(ssec, errno)\<close> once the handler has returned, whether \<^verbatim>\<open>srv.Shutdown\<close>
  was called.
\<close>

record service_run =
  srStatuses :: "svc_status list"
  srResult :: "(bool \<times> int) option"
  srShutdown :: bool

definition just :: "svc_state \<Rightarrow> svc_status" where
  "just st = \<lparr>svState = st, svAccepts = []\<rparr>"

definition send :: "svc_status \<Rightarrow> service_run \<Rightarrow> service_run" where
  "send st sr = sr\<lparr>srStatuses := srStatuses sr @ [st]\<rparr>"

fun service_loop :: "svc_input list \<Rightarrow> service_run \<Rightarrow> service_run" where
  "service_loop [] sr = sr"
| "service_loop (Server_ended err # xs) sr =
     (case err of
        Some e \<Rightarrow> sr\<lparr>srResult := Some (False, 1)\<rparr>
      | None \<Rightarrow> sr\<lparr>srResult := Some (False, 0)\<rparr>)"
| "service_loop (Requested c # xs) sr =
     (case crCmd c of
        Cmd_interrogate \<Rightarrow> service_loop xs (send (crCurrentStatus c) sr)
      | Cmd_stop \<Rightarrow> (send (just Stopped) ((send (just StopPending) sr)\<lparr>srShutdown := True\<rparr>))\<lparr>srResult := Some (False, 0)\<rparr>
      | Cmd_shutdown \<Rightarrow> (send (just Stopped) ((send (just StopPending) sr)\<lparr>srShutdown := True\<rparr>))\<lparr>srResult := Some (False, 0)\<rparr>
      | Other_cmd n \<Rightarrow> service_loop xs sr)"

text \<open>
  \<^verbatim>\<open>Execute\<close>: \<open>Inl\<close> is the exit of the process when the configuration does not load, with the statuses
  sent until then; otherwise the configuration of the server that is made and started, and the run.
\<close>

definition Execute :: "yaml_decoder \<Rightarrow> file_reader \<Rightarrow> (string \<Rightarrow> bool) \<Rightarrow> string \<Rightarrow> dns_service \<Rightarrow> svc_input list
    \<Rightarrow> (svc_status list \<times> int) + (config \<times> service_run)" where
  "Execute yaml rd stat beside s xs =
     (let sr = send (just StartPending) \<lparr>srStatuses = [], srResult = None, srShutdown = False\<rparr> in
      case loadConfig yaml rd stat beside (dsConfigFile s) of
        None \<Rightarrow> Inl (srStatuses sr, 1)
      | Some cfg \<Rightarrow>
          (let cfg = (if dsQueryLog s then cfg\<lparr>cfgLogging := (cfgLogging cfg)\<lparr>logQueries := True\<rparr>\<rparr> else cfg)
           in Inr (cfg, service_loop xs (send \<lparr>svState = Running, svAccepts = [Cmd_stop, Cmd_shutdown]\<rparr> sr))))"

section \<open>The service manager\<close>

datatype start_type = StartAutomatic | StartManual | StartDisabled

datatype error_control = ErrorNormal | ErrorIgnore | ErrorSevere | ErrorCritical

record mgr_config =
  mcDisplayName :: string
  mcDescription :: string
  mcStartType :: start_type
  mcErrorControl :: error_control

text \<open>
  The calls the commands make, over a state \<open>'m\<close> of the manager that the code cannot see. The
  handles it gets and closes have no model.
\<close>

record 'm manager =
  mConnect :: "'m \<Rightarrow> go_error option"
  mOpenService :: "string \<Rightarrow> 'm \<Rightarrow> go_error option"
  mCreateService :: "string \<Rightarrow> string \<Rightarrow> mgr_config \<Rightarrow> string list \<Rightarrow> 'm \<Rightarrow> go_error + 'm"
  mInstallEvents :: "string \<Rightarrow> 'm \<Rightarrow> go_error + 'm"
  mRemoveEvents :: "string \<Rightarrow> 'm \<Rightarrow> 'm"
  mSetRecovery :: "string \<Rightarrow> time list \<Rightarrow> nat \<Rightarrow> 'm \<Rightarrow> go_error + 'm"
  mQuery :: "string \<Rightarrow> 'm \<Rightarrow> go_error + svc_state"
  mControlStop :: "string \<Rightarrow> 'm \<Rightarrow> go_error + 'm"
  mWait :: "time \<Rightarrow> 'm \<Rightarrow> 'm"
  mDelete :: "string \<Rightarrow> 'm \<Rightarrow> go_error + 'm"
  mStart :: "string \<Rightarrow> 'm \<Rightarrow> go_error + 'm"

text \<open>The machine: its files and directories, and the manager.\<close>

record 'm machine =
  mcFiles :: "(string, string) fmap"
  mcDirs :: "string fset"
  mcManager :: 'm

text \<open>How the calls of \<^verbatim>\<open>os\<close> end: each may fail although there is a file.\<close>

record os_env =
  osExecutable :: "go_error + string"
  osMkdir :: "string \<Rightarrow> bool"
  osStatFails :: "string \<Rightarrow> bool"
  osReadFails :: "string \<Rightarrow> bool"
  osWriteFails :: "string \<Rightarrow> bool"

definition bsl :: string where "bsl = [CHR 0x5C]"

definition config_dir :: string where
  "config_dir = ''C:'' @ bsl @ ''ProgramData'' @ bsl @ ''DNSServerMandiri''"

definition config_dst :: string where "config_dst = config_dir @ bsl @ ''config.yaml''"

definition serviceName :: string where "serviceName = ''DNSServerMandiri''"

text \<open>\<^verbatim>\<open>filepath.Join(filepath.Dir(exe), name)\<close> for the absolute, clean path of the executable.\<close>

definition beside_exe :: "string \<Rightarrow> string \<Rightarrow> string" where
  "beside_exe exe name = rev (dropWhile (\<lambda>c. c \<noteq> CHR 0x5C) (rev exe)) @ name"

definition MkdirAll :: "os_env \<Rightarrow> string \<Rightarrow> 'm machine \<Rightarrow> 'm machine" where
  "MkdirAll os dir h = (if osMkdir os dir then h\<lparr>mcDirs := finsert dir (mcDirs h)\<rparr> else h)"

text \<open>\<^verbatim>\<open>if _, err := os.Stat(configDst); os.IsNotExist(err)\<close>; the error of \<^verbatim>\<open>os.WriteFile\<close> is ignored.\<close>

definition copy_config :: "os_env \<Rightarrow> string \<Rightarrow> 'm machine \<Rightarrow> 'm machine" where
  "copy_config os exe h =
     (if fmlookup (mcFiles h) config_dst = None \<and> \<not> osStatFails os config_dst then
        (let src = beside_exe exe ''config.yaml'' in
         case fmlookup (mcFiles h) src of
           Some contents \<Rightarrow>
             if osReadFails os src \<or> osWriteFails os config_dst then h
             else h\<lparr>mcFiles := fmupd config_dst contents (mcFiles h)\<rparr>
         | None \<Rightarrow> h)
      else h)"

section \<open>The commands\<close>

text \<open>Every command ends with an exit status and leaves the machine in a state.\<close>

definition service_config :: mgr_config where
  "service_config = \<lparr>mcDisplayName = ''DNS Server Mandiri'',
     mcDescription = ''Production-grade recursive DNS server with web dashboard'',
     mcStartType = StartAutomatic, mcErrorControl = ErrorNormal\<rparr>"

definition recovery_delays :: "time list" where
  "recovery_delays = [5 * second, 10 * second, 30 * second]"

text \<open>A call whose failure only gives a warning.\<close>

definition attempt :: "('m \<Rightarrow> go_error + 'm) \<Rightarrow> 'm \<Rightarrow> 'm" where
  "attempt f m = (case f m of Inl e \<Rightarrow> m | Inr m' \<Rightarrow> m')"

definition installService :: "'m manager \<Rightarrow> os_env \<Rightarrow> 'm machine \<Rightarrow> int \<times> 'm machine" where
  "installService mgr os h =
     (case osExecutable os of
        Inl err \<Rightarrow> (1, h)
      | Inr exe \<Rightarrow>
          (let h = MkdirAll os config_dir h;
               h = MkdirAll os (config_dir @ bsl @ ''logs'') h;
               h = copy_config os exe h;
               m = mcManager h
           in if mConnect mgr m \<noteq> None then (1, h)
              else if mOpenService mgr serviceName m = None then (1, h)
              else case mCreateService mgr serviceName exe service_config [''-config'', config_dst] m of
                     Inl err \<Rightarrow> (1, h)
                   | Inr m \<Rightarrow>
                       (let m = attempt (mInstallEvents mgr serviceName) m;
                            m = attempt (mSetRecovery mgr serviceName recovery_delays 86400) m
                        in (0, h\<lparr>mcManager := m\<rparr>))))"

text \<open>The beginning of the other commands: connect, and open the service.\<close>

definition with_service :: "'m manager \<Rightarrow> 'm machine \<Rightarrow> ('m \<Rightarrow> int \<times> 'm) \<Rightarrow> int \<times> 'm machine" where
  "with_service mgr h body =
     (let m = mcManager h in
      if mConnect mgr m \<noteq> None \<or> mOpenService mgr serviceName m \<noteq> None then (1, h)
      else case body m of (code, m) \<Rightarrow> (code, h\<lparr>mcManager := m\<rparr>))"

definition uninstallService :: "'m manager \<Rightarrow> 'm machine \<Rightarrow> int \<times> 'm machine" where
  "uninstallService mgr h =
     with_service mgr h (\<lambda>m.
       let m = (if mQuery mgr serviceName m = Inr Running
                then mWait mgr (3 * second) (attempt (mControlStop mgr serviceName) m) else m)
       in case mDelete mgr serviceName m of
            Inl err \<Rightarrow> (1, m)
          | Inr m \<Rightarrow> (0, mRemoveEvents mgr serviceName m))"

definition startService :: "'m manager \<Rightarrow> 'm machine \<Rightarrow> int \<times> 'm machine" where
  "startService mgr h =
     with_service mgr h (\<lambda>m. case mStart mgr serviceName m of Inl err \<Rightarrow> (1, m) | Inr m \<Rightarrow> (0, m))"

definition stopService :: "'m manager \<Rightarrow> 'm machine \<Rightarrow> int \<times> 'm machine" where
  "stopService mgr h =
     with_service mgr h (\<lambda>m. case mControlStop mgr serviceName m of Inl err \<Rightarrow> (1, m) | Inr m \<Rightarrow> (0, m))"

definition handleServiceCommand :: "'m manager \<Rightarrow> os_env \<Rightarrow> string \<Rightarrow> 'm machine \<Rightarrow> int \<times> 'm machine" where
  "handleServiceCommand mgr os cmd h =
     (if cmd = ''install'' then installService mgr os h
      else if cmd = ''uninstall'' then uninstallService mgr h
      else if cmd = ''start'' then startService mgr h
      else if cmd = ''stop'' then stopService mgr h
      else (1, h))"

section \<open>The life of the service\<close>

text \<open>The specification: the first input that ends the service decides; until then statuses are echoed.\<close>

definition ends_service :: "svc_input \<Rightarrow> bool" where
  "ends_service x \<longleftrightarrow>
     (case x of Server_ended err \<Rightarrow> True | Requested c \<Rightarrow> crCmd c = Cmd_stop \<or> crCmd c = Cmd_shutdown)"

definition echoes :: "svc_input list \<Rightarrow> svc_status list" where
  "echoes xs =
     concat (map (\<lambda>x. case x of Requested c \<Rightarrow> if crCmd c = Cmd_interrogate then [crCurrentStatus c] else []
                              | Server_ended err \<Rightarrow> []) xs)"

lemma service_loop_spec:
  "service_loop xs sr =
     (let sr = sr\<lparr>srStatuses := srStatuses sr @ echoes (takeWhile (\<lambda>x. \<not> ends_service x) xs)\<rparr> in
      case find ends_service xs of
        None \<Rightarrow> sr
      | Some (Server_ended err) \<Rightarrow> sr\<lparr>srResult := Some (False, if err = None then 0 else 1)\<rparr>
      | Some (Requested c) \<Rightarrow>
          sr\<lparr>srStatuses := srStatuses sr @ [just StopPending, just Stopped], srShutdown := True,
             srResult := Some (False, 0)\<rparr>)"
proof (induction xs sr rule: service_loop.induct)
  case (2 err xs sr)
  then show ?case by (cases err) (simp_all add: ends_service_def echoes_def)
next
  case (3 c xs sr)
  then show ?case
    by (cases "crCmd c") (simp_all add: ends_service_def echoes_def send_def Let_def
        split: option.split svc_input.split)
qed (simp add: echoes_def)

text \<open>
  C38: the service manager sees \<^verbatim>\<open>StartPending\<close>, \<^verbatim>\<open>Running\<close>, the answers to its interrogations, and
  \<^verbatim>\<open>StopPending\<close> and \<^verbatim>\<open>Stopped\<close> exactly if a stop or shutdown request comes before the server ends by
  itself; only then the server is shut down. The service returns 1 exactly if the server failed first,
  and goes on as long as nothing ends it. Without a loadable configuration the process exits with 1
  after \<^verbatim>\<open>StartPending\<close>.
\<close>
theorem service_lifecycle:
  "Execute yaml rd stat beside s xs =
     (case loadConfig yaml rd stat beside (dsConfigFile s) of
        None \<Rightarrow> Inl ([just StartPending], 1)
      | Some cfg \<Rightarrow>
          Inr (cfg\<lparr>cfgLogging := (cfgLogging cfg)\<lparr>logQueries := logQueries (cfgLogging cfg) \<or> dsQueryLog s\<rparr>\<rparr>,
            let sent = [just StartPending, \<lparr>svState = Running, svAccepts = [Cmd_stop, Cmd_shutdown]\<rparr>]
                  @ echoes (takeWhile (\<lambda>x. \<not> ends_service x) xs)
            in case find ends_service xs of
                 None \<Rightarrow> \<lparr>srStatuses = sent, srResult = None, srShutdown = False\<rparr>
               | Some (Server_ended err) \<Rightarrow>
                   \<lparr>srStatuses = sent, srResult = Some (False, if err = None then 0 else 1), srShutdown = False\<rparr>
               | Some (Requested c) \<Rightarrow>
                   \<lparr>srStatuses = sent @ [just StopPending, just Stopped], srResult = Some (False, 0),
                    srShutdown = True\<rparr>))"
proof -
  have q: "(if b then cfg\<lparr>cfgLogging := (cfgLogging cfg)\<lparr>logQueries := True\<rparr>\<rparr> else cfg)
      = cfg\<lparr>cfgLogging := (cfgLogging cfg)\<lparr>logQueries := logQueries (cfgLogging cfg) \<or> b\<rparr>\<rparr>" for b and cfg :: config
    by simp
  show ?thesis
    unfolding Execute_def service_loop_spec Let_def q
    by (simp add: send_def split: option.split svc_input.split)
qed

section \<open>Installing\<close>

text \<open>
  Installing never overwrites a configuration, and an installation on a machine where the service can
  be opened changes nothing of the manager.
\<close>

lemma install_keeps_config:
  assumes "fmlookup (mcFiles h) f = Some contents"
  shows "fmlookup (mcFiles (snd (installService mgr os h))) f = Some contents"
proof -
  have m: "mcFiles (MkdirAll os dir h) = mcFiles h" for dir and h :: "'a machine" by (simp add: MkdirAll_def)
  have "fmlookup (mcFiles (copy_config os exe h)) f = Some contents"
    if "fmlookup (mcFiles h) f = Some contents" for exe and h :: "'a machine"
    using that by (auto simp: copy_config_def Let_def split: option.split)
  with assms m show ?thesis by (auto simp: installService_def Let_def split: sum.split)
qed

lemma install_again_refused:
  "mOpenService mgr serviceName (mcManager h) = None \<Longrightarrow>
     fst (installService mgr os h) = 1 \<and> mcManager (snd (installService mgr os h)) = mcManager h"
  by (auto simp: installService_def Let_def MkdirAll_def copy_config_def split: sum.split option.split)

text \<open>A copy of the configuration that cannot be written goes unnoticed: the installation succeeds.\<close>

lemma unwritten_config_unnoticed:
  assumes "osExecutable os = Inr exe" and "osWriteFails os config_dst" and "mConnect mgr (mcManager h) = None"
    and "mOpenService mgr serviceName (mcManager h) \<noteq> None"
    and "mCreateService mgr serviceName exe service_config [''-config'', config_dst] (mcManager h) = Inr m"
  shows "fst (installService mgr os h) = 0 \<and> mcFiles (snd (installService mgr os h)) = mcFiles h"
proof -
  have "mcManager (MkdirAll os dir h) = mcManager h" "mcFiles (MkdirAll os dir h) = mcFiles h" for dir and h :: "'a machine"
    by (simp_all add: MkdirAll_def)
  moreover have "copy_config os exe h = h" for h :: "'a machine"
    using assms(2) by (simp add: copy_config_def Let_def split: option.split)
  ultimately show ?thesis using assms by (simp add: installService_def Let_def)
qed

end
