(* ===== verification/Server.thy ===== *)
theory Server
  imports Config RateLimit MetricsCorrect ClientStats
begin

text \<open>
  The request handler, \<^verbatim>\<open>internal/server/server.go\<close>: rate limit, format check, filter, local records,
  resolver with the cache in front, upstream fall-back, and the statistics of every outcome; the
  address of a client; the warm-up of the cache. The record \<open>server\<close> holds the components' states.
\<close>

section \<open>Addresses of clients\<close>

text \<open>
  \<^verbatim>\<open>net.SplitHostPort\<close>: the host and the port, split at the last colon; a bracketed host may contain
  colons.
\<close>

fun index_of :: "char \<Rightarrow> string \<Rightarrow> nat option" where
  "index_of c [] = None"
| "index_of c (x # xs) = (if x = c then Some 0 else map_option Suc (index_of c xs))"

definition last_index_of :: "char \<Rightarrow> string \<Rightarrow> nat option" where
  "last_index_of c s = map_option (\<lambda>i. length s - 1 - i) (index_of c (rev s))"

definition addr_error :: "string \<Rightarrow> string \<Rightarrow> go_error" where
  "addr_error s reason = (if s = [] then reason else ''address '' @ s @ '': '' @ reason)"

definition SplitHostPort :: "string \<Rightarrow> go_error + string \<times> string" where
  "SplitHostPort s =
     (case last_index_of CHR '':'' s of
        None \<Rightarrow> Inl (addr_error s ''missing port in address'')
      | Some i \<Rightarrow>
          let checked = (\<lambda>host j k.
                if CHR ''['' \<in> set (drop j s) then Inl (addr_error s (''unexpected '' @ ''['' @ '' in address''))
                else if CHR '']'' \<in> set (drop k s) then Inl (addr_error s (''unexpected '' @ '']'' @ '' in address''))
                else Inr (host, drop (Suc i) s))
          in if s \<noteq> [] \<and> hd s = CHR ''['' then
               (case index_of CHR '']'' s of
                  None \<Rightarrow> Inl (addr_error s (''missing '' @ '']'' @ '' in address''))
                | Some e \<Rightarrow>
                    if Suc e = length s then Inl (addr_error s ''missing port in address'')
                    else if Suc e = i then checked (take (e - 1) (drop 1 s)) 1 (Suc e)
                    else if s ! Suc e = CHR '':'' then Inl (addr_error s ''too many colons in address'')
                    else Inl (addr_error s ''missing port in address''))
             else if CHR '':'' \<in> set (take i s) then Inl (addr_error s ''too many colons in address'')
             else checked (take i s) 0 0)"

text \<open>\<^verbatim>\<open>net.Addr\<close>: the two types the server distinguishes, and any other with its text.\<close>

datatype net_addr = UDPAddr ip | TCPAddr ip | OtherAddr string

definition extractClientIP :: "net_addr \<Rightarrow> string" where
  "extractClientIP addr =
     (case addr of
        UDPAddr a \<Rightarrow> IPString a
      | TCPAddr a \<Rightarrow> IPString a
      | OtherAddr s \<Rightarrow>
          (case SplitHostPort s of
             Inl err \<Rightarrow> hd (Split s CHR '':'')
           | Inr (host, port) \<Rightarrow> host))"

definition protocol_of :: "net_addr \<Rightarrow> string" where
  "protocol_of addr = (case addr of TCPAddr a \<Rightarrow> ''tcp'' | _ \<Rightarrow> ''udp'')"

section \<open>State and environment\<close>

record server =
  srvCfg :: config
  srvResolver :: rstate
  srvLimiter :: "limiter option"
  srvMetrics :: metrics
  srvFilter :: dns_filter
  srvFailover :: failover
  srvLocal :: local_records
  srvClients :: "tracker option"

text \<open>
  What one query meets outside the server: the clock at each reading, the iteration orders of
  the tables, the network as the resolver and the upstream fall-back see it.
\<close>

record query_env =
  q_start :: time
  q_allow :: time
  q_end :: time
  q_logged :: time
  q_client :: clock
  q_filter_order :: "string fset \<Rightarrow> string list"
  q_domain_order :: "string fset \<Rightarrow> string list"
  q_client_order :: "string fset \<Rightarrow> string list"
  q_resolver :: resolver_env
  q_upstream :: upstream_env

definition latency_of :: "query_env \<Rightarrow> duration" where
  "latency_of env = q_end env - q_start env"

text \<open>
  The statistics of an answered query, the same calls on every path: counters, query log and
  domain table, and the client's record if clients are tracked.
\<close>

definition account :: "dns_lib \<Rightarrow> query_env \<Rightarrow> net_addr \<Rightarrow> question \<Rightarrow> int \<Rightarrow> string \<Rightarrow> bool \<Rightarrow> bool
    \<Rightarrow> server \<Rightarrow> server" where
  "account L env addr q rcode label cached was_blocked s =
     (let protocol = protocol_of addr; clientIP = extractClientIP addr; latency = latency_of env
      in s\<lparr>srvMetrics := RecordQueryDetail (q_domain_order env) (q_logged env) clientIP (qName q)
              (TypeToString L (qType q)) label protocol latency cached
              (RecordQuery protocol rcode latency (srvMetrics s)),
           srvClients := map_option (RecordClient (q_client_order env) (q_client env) clientIP (qName q)
              was_blocked latency) (srvClients s)\<rparr>)"

definition rate_check :: "query_env \<Rightarrow> net_addr \<Rightarrow> server \<Rightarrow> bool \<times> server" where
  "rate_check env addr s =
     (case srvLimiter s of
        None \<Rightarrow> (True, s)
      | Some l \<Rightarrow> (let (ok, l) = Allow (q_allow env) (extractClientIP addr) l
                  in (ok, s\<lparr>srvLimiter := Some l\<rparr>)))"

text \<open>Steps 3 and 4: the recursive resolver, and the upstreams if it fails.\<close>

definition resolve_query :: "dns_lib \<Rightarrow> query_env \<Rightarrow> question \<Rightarrow> server
    \<Rightarrow> (msg option \<times> bool \<times> go_error option) \<times> server" where
  "resolve_query L env q s =
     (let ((resp, cached, err), rs) =
            Resolve L (q_resolver env) (cfgResolver (srvCfg s)) (qName q) (qType q) (qClass q) (srvResolver s);
          s = s\<lparr>srvResolver := rs\<rparr>
      in if err \<noteq> None \<and> foEnabled (fo_cfg (srvFailover s)) then
           (let (ans, fo) = Resolve_upstream L (q_upstream env) (qName q) (qType q) (srvFailover s);
                s = s\<lparr>srvFailover := fo\<rparr>
            in case ans of
                 Inr (Some m) \<Rightarrow> ((Some m, cached, None), s)
               | _ \<Rightarrow> ((resp, cached, err), s))
         else ((resp, cached, err), s))"

definition rcode_label :: "dns_lib \<Rightarrow> int \<Rightarrow> string" where
  "rcode_label L rc = (if RcodeToString L rc = [] then ''RCODE_'' @ Itoa rc else RcodeToString L rc)"

section \<open>The handler\<close>

text \<open>
  \<^verbatim>\<open>handleDNS\<close>: the message written to the client and the new state; \<open>None\<close> is the panic on a
  \<^verbatim>\<open>nil\<close> response without an error.
\<close>

definition handleDNS :: "dns_lib \<Rightarrow> query_env \<Rightarrow> net_addr \<Rightarrow> msg \<Rightarrow> server \<Rightarrow> (msg \<times> server) option" where
  "handleDNS L env addr r s =
     (let (allowed, s) = rate_check env addr s in
      if \<not> allowed then
        Some (SetRcode L new_msg r RcodeRefused, s\<lparr>srvMetrics := count_RateLimited (srvMetrics s)\<rparr>)
      else case Question r of
        [] \<Rightarrow> Some (SetRcode L new_msg r RcodeFormatError, s)
      | q # _ \<Rightarrow>
          (let (is_blocked, f) = IsBlocked L (q_filter_order env) (qName q) (srvFilter s);
               s = s\<lparr>srvFilter := f\<rparr>
           in if is_blocked then
                (let resp = BlockedResponse L r (fcBlockResponse (cfgFilter (srvCfg s)))
                 in Some (resp, account L env addr q (Rcode resp) ''BLOCKED'' False True s))
              else case Lookup L (qName q) (qType q) (srvLocal s) of
                Some resp \<Rightarrow>
                  (let resp = SetReply L resp r
                   in Some (resp, account L env addr q (Rcode resp) ''LOCAL'' False False s))
              | None \<Rightarrow>
                  (let ((resp, cached, err), s) = resolve_query L env q s in
                   case err of
                     Some e \<Rightarrow>
                       Some (SetRcode L new_msg r RcodeServerFailure,
                         account L env addr q RcodeServerFailure ''SERVFAIL'' False False s)
                   | None \<Rightarrow>
                       (case resp of
                          None \<Rightarrow> None
                        | Some m \<Rightarrow>
                            (let m = (SetReply L m r)\<lparr>RecursionAvailable := True, Compress := True\<rparr>
                             in Some (m, account L env addr q (Rcode m) (rcode_label L (Rcode m)) cached False s))))))"

text \<open>A sequence of queries, and the messages written for them.\<close>

type_synonym query = "query_env \<times> net_addr \<times> msg"

fun serve :: "dns_lib \<Rightarrow> query list \<Rightarrow> server \<Rightarrow> (msg list \<times> server) option" where
  "serve L [] s = Some ([], s)"
| "serve L ((env, addr, r) # qs) s =
     (case handleDNS L env addr r s of
        None \<Rightarrow> None
      | Some (m, s) \<Rightarrow> map_option (\<lambda>(ms, s). (m # ms, s)) (serve L qs s))"

section \<open>Warming up the cache\<close>

text \<open>
  \<^verbatim>\<open>warmupCache\<close>: both address types of every configured domain; the result counts the domains
  whose IPv4 address resolved. \<open>envs\<close> gives the network for each of the calls.
\<close>

fun warmup :: "dns_lib \<Rightarrow> (nat \<Rightarrow> resolver_env) \<Rightarrow> resolver_config \<Rightarrow> string list \<Rightarrow> nat \<Rightarrow> nat \<Rightarrow> rstate
    \<Rightarrow> nat \<times> rstate" where
  "warmup L envs cfg [] i n st = (n, st)"
| "warmup L envs cfg (d # ds) i n st =
     (let ((m, cached, err), st) = Resolve L (envs i) cfg d TypeA ClassINET st;
          n = (if err = None then Suc n else n);
          (r, st) = Resolve L (envs (Suc i)) cfg d TypeAAAA ClassINET st
      in warmup L envs cfg ds (Suc (Suc i)) n st)"

definition warmupCache :: "dns_lib \<Rightarrow> (nat \<Rightarrow> resolver_env) \<Rightarrow> server \<Rightarrow> nat \<times> server" where
  "warmupCache L envs s =
     (let (n, st) = warmup L envs (cfgResolver (srvCfg s)) (cwDomains (cfgCacheWarmup (srvCfg s))) 0 0 (srvResolver s)
      in (n, s\<lparr>srvResolver := st\<rparr>))"

end
