(* ===== verification/ServerCorrect.thy ===== *)
theory ServerCorrect
  imports Server ResolverCorrect FilterCorrect
begin

text \<open>
  What the request handler guarantees: the composition of the components' invariants over any
  sequence of queries, the form of every response, what the early exits spare, how the statistics
  account for every query, and when the upstreams do and do not help.
\<close>

section \<open>Splitting and joining host and port\<close>

lemma index_of_append: "c \<notin> set xs \<Longrightarrow> index_of c (xs @ c # ys) = Some (length xs)"
  by (induction xs) auto

lemma last_index_of_append: "c \<notin> set ys \<Longrightarrow> last_index_of c (xs @ c # ys) = Some (length xs)"
  by (simp add: last_index_of_def index_of_append)

text \<open>
  The host and port joined for a name server's address, an IPv6 address in brackets, are what
  splitting the result gives back.
\<close>
theorem SplitHostPort_JoinHostPort:
  assumes "CHR ''['' \<notin> set host" and "CHR '']'' \<notin> set host" and "CHR ''%'' \<notin> set host"
    and "\<forall>c \<in> set port. c \<notin> {CHR '':'', CHR ''['', CHR '']''}"
  shows "SplitHostPort (JoinHostPort host port) = Inr (host, port)"
proof (cases "CHR '':'' \<in> set host")
  case True
  let ?s = "''['' @ host @ '']:'' @ port"
  have "last_index_of CHR '':'' ((''['' @ host @ '']'') @ CHR '':'' # port) = Some (length (''['' @ host @ '']''))"
    using assms(4) by (intro last_index_of_append) auto
  then have i: "last_index_of CHR '':'' ?s = Some (Suc (Suc (length host)))" by simp
  have "index_of CHR '']'' ((''['' @ host) @ CHR '']'' # (CHR '':'' # port)) = Some (length (''['' @ host))"
    using assms(2) by (intro index_of_append) auto
  then have e: "index_of CHR '']'' ?s = Some (Suc (length host))" by simp
  have "CHR ''['' \<notin> set (drop 1 ?s)" "CHR '']'' \<notin> set (drop (Suc (Suc (length host))) ?s)"
    using assms by auto
  with True assms(3) show ?thesis
    by (simp add: JoinHostPort_def SplitHostPort_def i [simplified] e [simplified] Let_def)
next
  case False
  have "last_index_of CHR '':'' (host @ CHR '':'' # port) = Some (length host)"
    using assms(4) by (intro last_index_of_append) auto
  moreover have "host = [] \<or> hd host \<noteq> CHR ''[''"
    using assms(1) by (cases host) auto
  ultimately show ?thesis using False assms
    by (cases host) (auto simp: JoinHostPort_def SplitHostPort_def Let_def)
qed

theorem SplitHostPort_JoinHostPort_witness:
  "SplitHostPort (JoinHostPort ''2001:db8::1'' ''53'') = Inr (''2001:db8::1'', ''53'')"
  by (rule SplitHostPort_JoinHostPort) simp_all

section \<open>The branches of the handler\<close>

lemma rate_check_frame [simp]:
  "srvCfg (snd (rate_check env addr s)) = srvCfg s"
  "srvResolver (snd (rate_check env addr s)) = srvResolver s"
  "srvMetrics (snd (rate_check env addr s)) = srvMetrics s"
  "srvFilter (snd (rate_check env addr s)) = srvFilter s"
  "srvFailover (snd (rate_check env addr s)) = srvFailover s"
  "srvLocal (snd (rate_check env addr s)) = srvLocal s"
  "srvClients (snd (rate_check env addr s)) = srvClients s"
  by (simp_all add: rate_check_def split: option.split prod.split)

lemma account_frame [simp]:
  "srvCfg (account L env addr q rc lb ch bl s) = srvCfg s"
  "srvResolver (account L env addr q rc lb ch bl s) = srvResolver s"
  "srvLimiter (account L env addr q rc lb ch bl s) = srvLimiter s"
  "srvFilter (account L env addr q rc lb ch bl s) = srvFilter s"
  "srvFailover (account L env addr q rc lb ch bl s) = srvFailover s"
  "srvLocal (account L env addr q rc lb ch bl s) = srvLocal s"
  by (simp_all add: account_def Let_def)

lemma resolve_query_frame [simp]:
  "srvCfg (snd (resolve_query L env q s)) = srvCfg s"
  "srvLimiter (snd (resolve_query L env q s)) = srvLimiter s"
  "srvMetrics (snd (resolve_query L env q s)) = srvMetrics s"
  "srvFilter (snd (resolve_query L env q s)) = srvFilter s"
  "srvLocal (snd (resolve_query L env q s)) = srvLocal s"
  "srvClients (snd (resolve_query L env q s)) = srvClients s"
  by (simp_all add: resolve_query_def Let_def split: prod.split sum.split option.split)

text \<open>The state after the rate limiter and the filter have seen the query.\<close>

abbreviation checked :: "query_env \<Rightarrow> net_addr \<Rightarrow> server \<Rightarrow> server" where
  "checked env addr s \<equiv> snd (rate_check env addr s)"

definition filtered :: "dns_lib \<Rightarrow> query_env \<Rightarrow> net_addr \<Rightarrow> question \<Rightarrow> server \<Rightarrow> server" where
  "filtered L env addr q s =
     (checked env addr s)\<lparr>srvFilter := snd (IsBlocked L (q_filter_order env) (qName q) (srvFilter s))\<rparr>"

lemma filtered_frame [simp]:
  "srvCfg (filtered L env addr q s) = srvCfg s"
  "srvResolver (filtered L env addr q s) = srvResolver s"
  "srvMetrics (filtered L env addr q s) = srvMetrics s"
  "srvFailover (filtered L env addr q s) = srvFailover s"
  "srvLocal (filtered L env addr q s) = srvLocal s"
  "srvClients (filtered L env addr q s) = srvClients s"
  by (simp_all add: filtered_def)

text \<open>The ways a query ends, with the response and the new state.\<close>

inductive handled :: "dns_lib \<Rightarrow> query_env \<Rightarrow> net_addr \<Rightarrow> msg \<Rightarrow> server \<Rightarrow> msg \<Rightarrow> server \<Rightarrow> bool"
  for L env addr r s where
  refused: "\<not> fst (rate_check env addr s) \<Longrightarrow>
    handled L env addr r s (SetRcode L new_msg r RcodeRefused)
      ((checked env addr s)\<lparr>srvMetrics := count_RateLimited (srvMetrics s)\<rparr>)"
| malformed: "fst (rate_check env addr s) \<Longrightarrow> Question r = [] \<Longrightarrow>
    handled L env addr r s (SetRcode L new_msg r RcodeFormatError) (checked env addr s)"
| filter_hit: "fst (rate_check env addr s) \<Longrightarrow> Question r = q # qs \<Longrightarrow>
    fst (IsBlocked L (q_filter_order env) (qName q) (srvFilter s)) \<Longrightarrow>
    m = BlockedResponse L r (fcBlockResponse (cfgFilter (srvCfg s))) \<Longrightarrow>
    handled L env addr r s m (account L env addr q (Rcode m) ''BLOCKED'' False True (filtered L env addr q s))"
| local_hit: "fst (rate_check env addr s) \<Longrightarrow> Question r = q # qs \<Longrightarrow>
    \<not> fst (IsBlocked L (q_filter_order env) (qName q) (srvFilter s)) \<Longrightarrow>
    Lookup L (qName q) (qType q) (srvLocal s) = Some x \<Longrightarrow> m = SetReply L x r \<Longrightarrow>
    handled L env addr r s m (account L env addr q (Rcode m) ''LOCAL'' False False (filtered L env addr q s))"
| failed: "fst (rate_check env addr s) \<Longrightarrow> Question r = q # qs \<Longrightarrow>
    \<not> fst (IsBlocked L (q_filter_order env) (qName q) (srvFilter s)) \<Longrightarrow>
    Lookup L (qName q) (qType q) (srvLocal s) = None \<Longrightarrow>
    resolve_query L env q (filtered L env addr q s) = ((mo, cached, Some e), s') \<Longrightarrow>
    handled L env addr r s (SetRcode L new_msg r RcodeServerFailure)
      (account L env addr q RcodeServerFailure ''SERVFAIL'' False False s')"
| resolved: "fst (rate_check env addr s) \<Longrightarrow> Question r = q # qs \<Longrightarrow>
    \<not> fst (IsBlocked L (q_filter_order env) (qName q) (srvFilter s)) \<Longrightarrow>
    Lookup L (qName q) (qType q) (srvLocal s) = None \<Longrightarrow>
    resolve_query L env q (filtered L env addr q s) = ((Some x, cached, None), s') \<Longrightarrow>
    m = (SetReply L x r)\<lparr>RecursionAvailable := True, Compress := True\<rparr> \<Longrightarrow>
    handled L env addr r s m
      (account L env addr q (Rcode m) (rcode_label L (Rcode m)) cached False s')"

lemma handleDNS_handled:
  assumes "handleDNS L env addr r s = Some (m, s')"
  shows "handled L env addr r s m s'"
proof -
  obtain ok s1 where rc: "rate_check env addr s = (ok, s1)" by fastforce
  show ?thesis
  proof (cases ok)
    case False
    with assms rc refused [of env addr s L r] show ?thesis
      by (simp add: handleDNS_def) (metis rate_check_frame(3) snd_conv)
  next
    case True
    show ?thesis
    proof (cases "Question r")
      case Nil
      with assms rc True malformed [of env addr s r L] show ?thesis by (simp add: handleDNS_def)
    next
      case (Cons q qs)
      have f: "srvFilter s1 = srvFilter s" "srvCfg s1 = srvCfg s" "srvLocal s1 = srvLocal s"
        using rate_check_frame [of env addr s] rc by simp_all
      obtain b fl where ib: "IsBlocked L (q_filter_order env) (qName q) (srvFilter s) = (b, fl)" by fastforce
      have fi: "filtered L env addr q s = s1\<lparr>srvFilter := fl\<rparr>" by (simp add: filtered_def rc ib)
      have t: "fst (rate_check env addr s)" using rc True by simp
      show ?thesis
      proof (cases b)
        case True
        with assms rc \<open>ok\<close> Cons ib f fi show ?thesis
          using filter_hit [OF t Cons _ refl, of L] by (auto simp: handleDNS_def Let_def)
      next
        case False
        then have nb: "\<not> fst (IsBlocked L (q_filter_order env) (qName q) (srvFilter s))" by (simp add: ib)
        show ?thesis
        proof (cases "Lookup L (qName q) (qType q) (srvLocal s)")
          case (Some x)
          with assms rc \<open>ok\<close> Cons ib f fi False show ?thesis
            using local_hit [OF t Cons nb Some refl] by (auto simp: handleDNS_def Let_def)
        next
          case None
          obtain mo cached err s2 where rq: "resolve_query L env q (filtered L env addr q s) = ((mo, cached, err), s2)"
            by (metis prod.collapse)
          show ?thesis
          proof (cases err)
            case (Some e)
            with assms rc \<open>ok\<close> Cons ib f fi False None rq show ?thesis
              using failed [OF t Cons nb None, of mo cached e s2] by (auto simp: handleDNS_def Let_def)
          next
            case e: None
            with assms rc \<open>ok\<close> Cons ib f fi False None rq obtain x where x: "mo = Some x"
              by (cases mo) (simp_all add: handleDNS_def Let_def)
            from resolved [OF t Cons nb None _ refl, of x cached s2] assms rc \<open>ok\<close> Cons ib f fi False None rq e x
            show ?thesis by (auto simp: handleDNS_def Let_def)
          qed
        qed
      qed
    qed
  qed
qed


section \<open>Every response\<close>

text \<open>
  C2: whatever happens to a query, the one message written for it is a response with the query's
  identifier and, if there is one, exactly its first question; without a question it is a FORMERR
  or a refusal.
\<close>
theorem handleDNS_response:
  assumes "replies_ok L" and "rcodes_ok L" and "handleDNS L env addr r s = Some (m, s')"
  shows "Response m \<and> MsgId m = MsgId r \<and> (\<forall>q qs. Question r = q # qs \<longrightarrow> Question m = [q])
    \<and> (Question r = [] \<longrightarrow> Rcode m = RcodeFormatError \<or> Rcode m = RcodeRefused)"
  using handleDNS_handled [OF assms(3)]
proof cases
  case (filter_hit q qs)
  then show ?thesis using assms(1) by (simp add: BlockedResponse_def Let_def replies_ok_def)
qed (use assms(1,2) in \<open>auto simp: replies_ok_def rcodes_ok_def\<close>)

text \<open>A server with nothing in it, and a query for it.\<close>

definition quiet_filter :: dns_filter where
  "quiet_filter = \<lparr>blocked_names = {||}, whitelist = {||}, blacklist = {||}, blocklistDir = [],
     sources = [], enabled = True, updateInterval = 0, TotalBlocked = 0, TotalAllowed = 0,
     BlocklistSize = 0, blockedCounts = fmempty, autoUpdateRunning = False, loads_started = 0\<rparr>"

definition quiet_server :: server where
  "quiet_server = \<lparr>srvCfg = DefaultConfig,
     srvResolver = \<lparr>rcache = New_cache 10 0 hour minute 0, tick = 0, prefetches = []\<rparr>,
     srvLimiter = None, srvMetrics = New_metrics (\<lambda>_. 0), srvFilter = quiet_filter,
     srvFailover = New_failover DefaultFailoverConfig,
     srvLocal = New_localrecords sample_lib DefaultLocalRecordsConfig,
     srvClients = Some (New_tracker 10)\<rparr>"

text \<open>The resolver joins a request in flight that ends with \<open>r\<close>; the upstreams answer with \<open>u\<close>.\<close>

definition plain_env :: "(msg option \<times> go_error option) \<Rightarrow> upstream_env \<Rightarrow> query_env" where
  "plain_env r u = \<lparr>q_start = 0, q_allow = 0, q_end = millisecond, q_logged = 0, q_client = (\<lambda>_. 0),
     q_filter_order = sorted_list_of_fset, q_domain_order = sorted_list_of_fset,
     q_client_order = sorted_list_of_fset,
     q_resolver = (sample_renv (\<lambda>_ _ _. Inl []))\<lparr>joined := \<lambda>_ _. Some r\<rparr>,
     q_upstream = u\<rparr>"

definition ask_example :: msg where
  "ask_example = new_msg\<lparr>MsgId := 7, Question := [\<lparr>qName = ''example.com.'', qType = TypeA, qClass = ClassINET\<rparr>]\<rparr>"

lemma Resolve_joined:
  assumes "entries (rcache st) = fmempty" and "\<forall>i k. joined env i k = Some r"
  shows "fst (Resolve L env cfg n t q st) = (fst r, False, snd r)"
proof -
  have "Get L clk k t q (rcache st) = ((None, False, False), (rcache st)\<lparr>misses := misses (rcache st) + 1\<rparr>)" for clk k
    using assms(1) by (simp add: Get_def)
  with assms(2) show ?thesis by (cases r) (simp add: Resolve_def Let_def)
qed

lemma quiet_server_simps [simp]:
  "fst (rate_check env addr quiet_server)"
  "\<not> fst (IsBlocked sample_lib ord n (srvFilter quiet_server))"
  "Lookup sample_lib n t (srvLocal quiet_server) = None"
  "entries (rcache (srvResolver quiet_server)) = fmempty"
  by (simp_all add: quiet_server_def rate_check_def IsBlocked_def quiet_filter_def parent_blocked_def
      list_ex_iff Let_def Lookup_def New_localrecords_def DefaultLocalRecordsConfig_def New_cache_def)

lemma plain_env_joined [simp]: "\<forall>i k. joined (q_resolver (plain_env r u)) i k = Some r"
  by (simp add: plain_env_def)

section \<open>When the handler does not panic\<close>

text \<open>A request in flight that ends without an error ends with a message (theory \<open>Inflight\<close>).\<close>

definition joined_sane :: "resolver_env \<Rightarrow> bool" where
  "joined_sane env \<longleftrightarrow> (\<forall>i k m. joined env i k = Some (m, None) \<longrightarrow> m \<noteq> None)"

lemma Resolve_sane:
  assumes "joined_sane env" and "fst (Resolve L env cfg n t q st) = (mo, cached, None)"
  shows "mo \<noteq> None"
proof -
  obtain m f p c where g: "Get L (clocks env (tick st)) (Fqdn L n) t q (rcache st) = ((m, f, p), c)"
    by (metis prod.collapse)
  show ?thesis
  proof (cases f)
    case True
    then have "m \<noteq> None" using g by (auto simp: Get_def Let_def split: option.splits if_splits)
    with True g assms(2) show ?thesis by (simp add: Resolve_def Let_def)
  next
    case False
    with g assms show ?thesis
      by (auto simp: Resolve_def Let_def joined_sane_def split: option.splits sum.splits prod.splits)
  qed
qed

lemma resolve_query_sane:
  assumes "joined_sane (q_resolver env)" and "resolve_query L env q s = ((mo, cached, None), s')"
  shows "mo \<noteq> None"
proof -
  obtain m c e rs where r: "Resolve L (q_resolver env) (cfgResolver (srvCfg s)) (qName q) (qType q) (qClass q)
      (srvResolver s) = ((m, c, e), rs)"
    by (metis prod.collapse)
  have "e = None \<Longrightarrow> m \<noteq> None" using Resolve_sane [OF assms(1)] r by (metis fst_conv)
  with r assms(2) show ?thesis
    by (auto simp: resolve_query_def Let_def split: prod.splits sum.splits option.splits if_splits)
qed

lemma handleDNS_defined:
  assumes "joined_sane (q_resolver env)"
  shows "\<exists>m s'. handleDNS L env addr r s = Some (m, s')"
proof -
  have "resolve_query L env q s1 \<noteq> ((None, c, None), s2)" for q s1 c s2
    using resolve_query_sane [OF assms, of L q s1 None c s2] by auto
  then show ?thesis
    by (auto simp: handleDNS_def Let_def split: prod.split list.split option.split)
qed

lemma plain_env_defined:
  assumes "w \<noteq> (None, None)"
  shows "\<exists>m s'. handleDNS L (plain_env w u) addr r s = Some (m, s')"
  using assms by (intro handleDNS_defined) (auto simp: joined_sane_def plain_env_def)

theorem handleDNS_response_witness:
  "\<exists>m s'. handleDNS sample_lib (plain_env (None, Some ''timeout'') dead_env) (UDPAddr [192, 0, 2, 1]) ask_example
       quiet_server = Some (m, s')
     \<and> MsgId m = 7 \<and> Question m = [\<lparr>qName = ''example.com.'', qType = TypeA, qClass = ClassINET\<rparr>]"
proof -
  obtain m s' where h: "handleDNS sample_lib (plain_env (None, Some ''timeout'') dead_env) (UDPAddr [192, 0, 2, 1]) ask_example
       quiet_server = Some (m, s')"
    using plain_env_defined by fastforce
  from handleDNS_response [OF _ _ h] h show ?thesis by (simp add: ask_example_def)
qed

section \<open>What the early answers spare\<close>

text \<open>
  A query that is refused, malformed, blocked or answered from the local records reaches neither
  the cache nor any name server nor any upstream.
\<close>
theorem early_answers_stay_local:
  assumes "handleDNS L env addr r s = Some (m, s')"
    and "\<not> fst (rate_check env addr s) \<or> Question r = []
      \<or> fst (IsBlocked L (q_filter_order env) (qName (hd (Question r))) (srvFilter s))
      \<or> Lookup L (qName (hd (Question r))) (qType (hd (Question r))) (srvLocal s) \<noteq> None"
  shows "srvResolver s' = srvResolver s \<and> srvFailover s' = srvFailover s"
  using handleDNS_handled [OF assms(1)] by cases (use assms(2) in auto)

theorem early_answers_stay_local_witness:
  "\<exists>m s'. handleDNS sample_lib (plain_env (None, Some ''timeout'') dead_env) (UDPAddr [192, 0, 2, 1]) new_msg
       quiet_server = Some (m, s') \<and> srvResolver s' = srvResolver quiet_server"
proof -
  obtain m s' where h: "handleDNS sample_lib (plain_env (None, Some ''timeout'') dead_env) (UDPAddr [192, 0, 2, 1])
      new_msg quiet_server = Some (m, s')"
    using plain_env_defined by fastforce
  have "Question new_msg = []" by (simp add: new_msg_def)
  with early_answers_stay_local [OF h] h show ?thesis by blast
qed

section \<open>The statistics\<close>

named_theorems counted \<open>counters after the calls of the metrics\<close>

lemma RecordQueryDetail_counters [counted]:
  "TotalQueries (RecordQueryDetail ord now ip d ty rc p lat c m) = TotalQueries m"
  "SuccessQueries (RecordQueryDetail ord now ip d ty rc p lat c m) = SuccessQueries m"
  "NXDomain (RecordQueryDetail ord now ip d ty rc p lat c m) = NXDomain m"
  "RateLimited (RecordQueryDetail ord now ip d ty rc p lat c m) = RateLimited m"
proof -
  let ?m = "push_log \<lparr>Timestamp = now, qlClientIP = ip, qlDomain = d, qlQueryType = ty, qlRcode = rc,
      qlLatencyMs = of_int (go_div lat microsecond) / 1000, qlCached = c, qlProtocol = p\<rparr> m"
  obtain dc where "RecordQueryDetail ord now ip d ty rc p lat c m
      = ?m\<lparr>domainCounts := fmupd d dc (domain_room ord d ?m)\<rparr>"
    using count_query_domains [of ord d lat ?m] by (auto simp: RecordQueryDetail_def)
  then show
    "TotalQueries (RecordQueryDetail ord now ip d ty rc p lat c m) = TotalQueries m"
    "SuccessQueries (RecordQueryDetail ord now ip d ty rc p lat c m) = SuccessQueries m"
    "NXDomain (RecordQueryDetail ord now ip d ty rc p lat c m) = NXDomain m"
    "RateLimited (RecordQueryDetail ord now ip d ty rc p lat c m) = RateLimited m"
    by (simp_all add: push_log_def)
qed

lemma RecordQuery_outcomes [counted]:
  "TotalQueries (RecordQuery p rc lat m) = TotalQueries m + 1"
  "NXDomain (RecordQuery p rc lat m) = (if rc = 3 then NXDomain m + 1 else NXDomain m)"
  "RateLimited (RecordQuery p rc lat m) = RateLimited m"
  by (simp_all add: RecordQuery_def Let_def)

lemma account_counters [counted]:
  "TotalQueries (srvMetrics (account L env addr q rc lb ch bl s)) = TotalQueries (srvMetrics s) + 1"
  "NXDomain (srvMetrics (account L env addr q rc lb ch bl s)) =
     (if rc = 3 then NXDomain (srvMetrics s) + 1 else NXDomain (srvMetrics s))"
  "RateLimited (srvMetrics (account L env addr q rc lb ch bl s)) = RateLimited (srvMetrics s)"
  by (simp_all add: account_def Let_def counted)

text \<open>
  C12: every query is accounted for exactly once: it raises the count of refused queries or the total,
  and neither only if it came without a question; each outcome is visible in the response.
\<close>
theorem every_query_counted_once:
  assumes "handleDNS L env addr r s = Some (m, s')"
  shows "TotalQueries (srvMetrics s') = TotalQueries (srvMetrics s)
        + (if fst (rate_check env addr s) \<and> Question r \<noteq> [] then 1 else 0)
    \<and> RateLimited (srvMetrics s') = RateLimited (srvMetrics s) + (if fst (rate_check env addr s) then 0 else 1)"
  using handleDNS_handled [OF assms]
proof cases
  case (failed q qs mo cached e s2)
  then have "srvMetrics s2 = srvMetrics s"
    using resolve_query_frame(3) [of L env q "filtered L env addr q s"] by simp
  with failed show ?thesis by (simp add: counted)
next
  case (resolved q qs x cached s2)
  then have "srvMetrics s2 = srvMetrics s"
    using resolve_query_frame(3) [of L env q "filtered L env addr q s"] by simp
  with resolved show ?thesis by (simp add: counted)
qed (simp_all add: counted count_RateLimited_def)

theorem every_query_counted_once_witness:
  "\<exists>m s'. handleDNS sample_lib (plain_env (None, Some ''timeout'') dead_env) (UDPAddr [192, 0, 2, 1]) ask_example
       quiet_server = Some (m, s') \<and> TotalQueries (srvMetrics s') = 1"
proof -
  obtain m s' where h: "handleDNS sample_lib (plain_env (None, Some ''timeout'') dead_env) (UDPAddr [192, 0, 2, 1]) ask_example
       quiet_server = Some (m, s')"
    using plain_env_defined by fastforce
  moreover have "TotalQueries (srvMetrics quiet_server) = 0"
    by (simp add: quiet_server_def New_metrics_def)
  ultimately show ?thesis using every_query_counted_once [OF h] by (simp add: ask_example_def)
qed

section \<open>NXDOMAIN never reaches a client\<close>

text \<open>
  C32: because the reply is set up after the resolver's response code is in place, no name is ever
  reported as non-existent: unless the filter is configured to answer so, no response has the
  code NXDOMAIN, whatever the resolver found, and the NXDOMAIN counter never moves.
\<close>
theorem nxdomain_never_sent:
  assumes "replies_ok L" and "rcodes_ok L" and "handleDNS L env addr r s = Some (m, s')"
    and "fcBlockResponse (cfgFilter (srvCfg s)) \<noteq> ''nxdomain''"
  shows "Rcode m \<noteq> RcodeNameError \<and> NXDomain (srvMetrics s') = NXDomain (srvMetrics s)"
  using handleDNS_handled [OF assms(3)]
proof cases
  case (filter_hit q qs)
  then have "Rcode m \<noteq> 3" using assms(4) by (simp add: BlockedResponse_def Let_def)
  with filter_hit show ?thesis by (simp add: counted)
next
  case (failed q qs mo cached e s2)
  then have "srvMetrics s2 = srvMetrics s"
    using resolve_query_frame(3) [of L env q "filtered L env addr q s"] by simp
  with failed assms(2) show ?thesis by (simp add: counted rcodes_ok_def)
next
  case (resolved q qs x cached s2)
  then have "srvMetrics s2 = srvMetrics s"
    using resolve_query_frame(3) [of L env q "filtered L env addr q s"] by simp
  moreover have "Rcode m = 0" using resolved assms(1) by (simp add: replies_ok_def)
  ultimately show ?thesis using resolved by (simp add: counted)
qed (use assms(1,2) in \<open>simp_all add: counted count_RateLimited_def rcodes_ok_def replies_ok_def\<close>)

text \<open>The resolver delivers an NXDOMAIN; the client is told that all is well.\<close>

theorem nxdomain_never_sent_witness:
  "\<exists>m s'. fst (Resolve sample_lib (q_resolver (plain_env (Some (new_msg\<lparr>Rcode := RcodeNameError\<rparr>), None) dead_env))
       sample_rcfg ''example.com.'' TypeA ClassINET (srvResolver quiet_server))
       = (Some (new_msg\<lparr>Rcode := RcodeNameError\<rparr>), False, None)
     \<and> handleDNS sample_lib (plain_env (Some (new_msg\<lparr>Rcode := RcodeNameError\<rparr>), None) dead_env)
       (UDPAddr [192, 0, 2, 1]) ask_example quiet_server = Some (m, s') \<and> Rcode m \<noteq> RcodeNameError"
proof -
  let ?r = "(Some (new_msg\<lparr>Rcode := RcodeNameError\<rparr>), None)"
  obtain m s' where h: "handleDNS sample_lib (plain_env ?r dead_env) (UDPAddr [192, 0, 2, 1]) ask_example
       quiet_server = Some (m, s')"
    using plain_env_defined by fastforce
  have "fcBlockResponse (cfgFilter (srvCfg quiet_server)) \<noteq> ''nxdomain''"
    by (simp add: quiet_server_def DefaultConfig_def DefaultFilterConfig_def)
  from nxdomain_never_sent [OF _ _ h this] h Resolve_joined [of "srvResolver quiet_server" "q_resolver (plain_env ?r dead_env)" ?r]
  show ?thesis by auto
qed

section \<open>When the upstreams help\<close>

definition body_records :: "msg \<Rightarrow> rr list \<times> rr list \<times> rr list" where
  "body_records m = (Answer m, Ns m, Extra m)"

text \<open>A query that gets as far as the resolver.\<close>

definition reaches_resolver :: "dns_lib \<Rightarrow> query_env \<Rightarrow> net_addr \<Rightarrow> msg \<Rightarrow> question \<Rightarrow> server \<Rightarrow> bool" where
  "reaches_resolver L env addr r q s \<longleftrightarrow>
     fst (rate_check env addr s) \<and> Question r \<noteq> [] \<and> hd (Question r) = q
     \<and> \<not> fst (IsBlocked L (q_filter_order env) (qName q) (srvFilter s))
     \<and> Lookup L (qName q) (qType q) (srvLocal s) = None"

lemma reaches_resolver_cases:
  assumes "handled L env addr r s m s'" and "reaches_resolver L env addr r q s"
  obtains (failed) mo cached e s2 where
      "resolve_query L env q (filtered L env addr q s) = ((mo, cached, Some e), s2)"
      "m = SetRcode L new_msg r RcodeServerFailure" "srvFailover s' = srvFailover s2"
  | (resolved) x cached s2 where
      "resolve_query L env q (filtered L env addr q s) = ((Some x, cached, None), s2)"
      "m = (SetReply L x r)\<lparr>RecursionAvailable := True, Compress := True\<rparr>" "srvFailover s' = srvFailover s2"
  using assms by cases (auto simp: reaches_resolver_def)

text \<open>
  C33: when the recursive resolver fails, one upstream that answers saves the query, provided the
  request's deadline has not passed: the client gets the records of an answer that came from a
  configured upstream, with the code NOERROR instead of SERVFAIL.
\<close>
theorem upstream_saves_query:
  assumes "replies_ok L" and "handleDNS L env addr r s = Some (m, s')"
    and "reaches_resolver L env addr r q s"
    and "fst (Resolve L (q_resolver env) (cfgResolver (srvCfg s)) (qName q) (qType q) (qClass q) (srvResolver s))
           = (mo, cached, Some e)"
    and "foEnabled (fo_cfg (srvFailover s))" and "0 \<le> foMaxRetries (fo_cfg (srvFailover s))"
    and "\<forall>k. up_done (q_upstream env) k = None" and "us \<in> set (foUpstreams (fo_cfg (srvFailover s)))"
    and "\<forall>j. usable (up_exchange (q_upstream env) j (upstream_question L (qName q) (qType q)) (us @ '':53''))"
  shows "\<exists>ans v j. v \<in> set (foUpstreams (fo_cfg (srvFailover s)))
    \<and> up_exchange (q_upstream env) j (upstream_question L (qName q) (qType q)) (v @ '':53'') = Inr (Some ans)
    \<and> body_records m = body_records ans \<and> Rcode m = RcodeSuccess"
proof -
  let ?q = "upstream_question L (qName q) (qType q)" and ?f = "srvFailover s"
  obtain ans fo where up: "upstream_loop (q_upstream env) ?q (getOrderedUpstreams ?f) 0 0 ?f = (Inr (Some ans), fo)"
    using upstream_loop_survives [of "getOrderedUpstreams ?f" "q_upstream env" ?q ?f 0 0] assms(6-9) by auto
  then have ru: "Resolve_upstream L (q_upstream env) (qName q) (qType q) ?f = (Inr (Some ans), fo)"
    using assms(5) by (simp add: Resolve_upstream_def)
  from upstream_loop_answer [OF up] obtain pre v post j where v: "getOrderedUpstreams ?f = pre @ v # post"
    "up_exchange (q_upstream env) j ?q (v @ '':53'') = Inr (Some ans)" by blast
  then have vin: "v \<in> set (foUpstreams (fo_cfg ?f))" using getOrderedUpstreams_set [of ?f] by auto
  obtain rs where rs: "Resolve L (q_resolver env) (cfgResolver (srvCfg s)) (qName q) (qType q) (qClass q) (srvResolver s)
      = ((mo, cached, Some e), rs)" using assms(4) by (metis prod.collapse)
  have rq: "fst (resolve_query L env q (filtered L env addr q s)) = (Some ans, cached, None)"
    by (simp add: resolve_query_def rs ru assms(5))
  from reaches_resolver_cases [OF handleDNS_handled [OF assms(2)] assms(3)]
  have "m = (SetReply L ans r)\<lparr>RecursionAvailable := True, Compress := True\<rparr>"
    by cases (use rq in auto)
  then show ?thesis using v vin assms(1) by (auto simp: body_records_def replies_ok_def)
qed


lemma quiet_reaches: "reaches_resolver sample_lib env addr ask_example
    \<lparr>qName = ''example.com.'', qType = TypeA, qClass = ClassINET\<rparr> quiet_server"
  by (simp add: reaches_resolver_def ask_example_def)

lemma quiet_resolver_fails:
  "fst (Resolve sample_lib (q_resolver (plain_env (None, Some e) u)) cfg n t c (srvResolver quiet_server))
     = (None, False, Some e)"
  using Resolve_joined [of "srvResolver quiet_server" "q_resolver (plain_env (None, Some e) u)" "(None, Some e)"]
  by simp

lemma quiet_failover:
  "foEnabled (fo_cfg (srvFailover quiet_server))" "0 \<le> foMaxRetries (fo_cfg (srvFailover quiet_server))"
  "foUpstreams (fo_cfg (srvFailover quiet_server)) = [''8.8.8.8'', ''1.1.1.1'', ''9.9.9.9'']"
  by (simp_all add: quiet_server_def New_failover_def DefaultFailoverConfig_def)

theorem upstream_saves_query_witness:
  "\<exists>m s'. handleDNS sample_lib (plain_env (None, Some ''timeout'') Failover.sample_env) (UDPAddr [192, 0, 2, 1])
       ask_example quiet_server = Some (m, s') \<and> Rcode m = RcodeSuccess"
proof -
  obtain m s' where h: "handleDNS sample_lib (plain_env (None, Some ''timeout'') Failover.sample_env)
      (UDPAddr [192, 0, 2, 1]) ask_example quiet_server = Some (m, s')"
    using plain_env_defined by fastforce
  from upstream_saves_query [OF _ h quiet_reaches quiet_resolver_fails quiet_failover(1,2), of "''1.1.1.1''"] h
  show ?thesis by (auto simp: plain_env_def quiet_failover Failover.sample_env_def usable_def
        Failover.sample_answer_def new_msg_def)
qed


end
