(* ===== verification/Database.thy ===== *)
theory Database
  imports DnsMsg
begin

text \<open>
  The SQLite store of the dashboard, \<^verbatim>\<open>internal/database/database.go\<close>. Every SQL statement of the code
  is the operation on tables that it denotes. What SQLite chooses is an argument: whether a statement
  fails, the current time, how far \<^verbatim>\<open>AUTOINCREMENT\<close> skips ahead, the order in which a \<^verbatim>\<open>SELECT\<close> visits
  the rows and whether reading them breaks off.
\<close>

section \<open>Tables and statements\<close>

record setting_row =
  setKey :: string
  setValue :: string
  setUpdated :: time

text \<open>
  \<^verbatim>\<open>BlocklistSource\<close> and \<^verbatim>\<open>LocalRecord\<close> are the Go structures with a Boolean \<open>'e\<close>, and the rows of
  their tables with the integer that is stored.
\<close>

record 'e blocklist_source =
  bsId :: int
  bsName :: string
  bsURL :: string
  bsEnabled :: 'e
  bsDomainCount :: int
  bsLastUpdated :: "time option"
  bsCreatedAt :: time

record domain_entry =
  deId :: int
  deDomain :: string
  deNote :: string
  deCreatedAt :: time

record 'e db_local_record =
  dlId :: int
  dlName :: string
  dlType :: string
  dlValue :: string
  dlTTL :: u32
  dlEnabled :: 'e
  dlNote :: string
  dlCreatedAt :: time

record failover_upstream =
  fuId :: int
  fuAddress :: string
  fuEnabled :: bool
  fuPriority :: int

record upstream_row =
  urId :: int
  urAddress :: string
  urEnabled :: int
  urPriority :: int
  urCreated :: time

text \<open>A table with an \<^verbatim>\<open>INTEGER PRIMARY KEY AUTOINCREMENT\<close>: the rows and the largest id ever used.\<close>

record 'r table =
  trows :: "'r list"
  tseq :: int

text \<open>The database file, and an open database: the file and its connection's last inserted row.\<close>

record db_file =
  tSettings :: "setting_row list"
  tSources :: "int blocklist_source table"
  tWhitelist :: "domain_entry table"
  tBlacklist :: "domain_entry table"
  tLocalRecords :: "int db_local_record table"
  tUpstreams :: "upstream_row table"

record db = db_file +
  dbLastId :: int

record stmt =
  st_fail :: "go_error option"
  st_now :: time
  st_gap :: nat
  st_scan :: "nat \<Rightarrow> nat list"
  st_break :: "nat option"

text \<open>\<^verbatim>\<open>conn.Exec\<close> of a statement that is \<open>f\<close> on the tables.\<close>

definition Exec :: "stmt \<Rightarrow> (db \<Rightarrow> go_error + db) \<Rightarrow> db \<Rightarrow> go_error option \<times> db" where
  "Exec st f d =
     (case st_fail st of
        Some e \<Rightarrow> (Some e, d)
      | None \<Rightarrow> (case f d of Inl e \<Rightarrow> (Some e, d) | Inr d' \<Rightarrow> (None, d')))"

text \<open>
  \<^verbatim>\<open>conn.Query\<close> and the loop \<^verbatim>\<open>for rows.Next()\<close>: the rows in the order of the query, or those read
  before an error ended the loop (\<^verbatim>\<open>rows.Err()\<close> is not consulted).
\<close>

definition scan :: "stmt \<Rightarrow> 'r list \<Rightarrow> 'r list" where
  "scan st rs = map (\<lambda>i. rs ! i) (st_scan st (length rs))"

definition fetch :: "stmt \<Rightarrow> 'r list \<Rightarrow> go_error + 'r list" where
  "fetch st rs =
     (case st_fail st of
        Some e \<Rightarrow> Inl e
      | None \<Rightarrow> Inr (case st_break st of None \<Rightarrow> rs | Some k \<Rightarrow> take k rs))"

text \<open>\<^verbatim>\<open>if err != nil { return 0, err }; return result.LastInsertId()\<close>\<close>

definition LastInsertId :: "go_error option \<times> db \<Rightarrow> (go_error + int) \<times> db" where
  "LastInsertId r =
     (case r of (Some e, d) \<Rightarrow> (Inl e, d) | (None, d) \<Rightarrow> (Inr (dbLastId d), d))"

definition next_id :: "stmt \<Rightarrow> 'r table \<Rightarrow> int" where
  "next_id st t = tseq t + 1 + int (st_gap st)"

definition insert_row :: "stmt \<Rightarrow> (int \<Rightarrow> 'r) \<Rightarrow> 'r table \<Rightarrow> 'r table" where
  "insert_row st mk t = \<lparr>trows = trows t @ [mk (next_id st t)], tseq = next_id st t\<rparr>"

definition delete_rows :: "('r \<Rightarrow> bool) \<Rightarrow> 'r table \<Rightarrow> 'r table" where
  "delete_rows P t = t\<lparr>trows := filter (\<lambda>r. \<not> P r) (trows t)\<rparr>"

definition update_rows :: "('r \<Rightarrow> bool) \<Rightarrow> ('r \<Rightarrow> 'r) \<Rightarrow> 'r table \<Rightarrow> 'r table" where
  "update_rows P f t = t\<lparr>trows := map (\<lambda>r. if P r then f r else r) (trows t)\<rparr>"

definition unique_violation :: "string \<Rightarrow> go_error" where
  "unique_violation columns = ''UNIQUE constraint failed: '' @ columns"

definition enabled_int :: "bool \<Rightarrow> int" where
  "enabled_int b = (if b then 1 else 0)"

section \<open>Opening\<close>

definition empty_file :: db_file where
  "empty_file = \<lparr>tSettings = [], tSources = \<lparr>trows = [], tseq = 0\<rparr>, tWhitelist = \<lparr>trows = [], tseq = 0\<rparr>,
     tBlacklist = \<lparr>trows = [], tseq = 0\<rparr>, tLocalRecords = \<lparr>trows = [], tseq = 0\<rparr>,
     tUpstreams = \<lparr>trows = [], tseq = 0\<rparr>\<rparr>"

definition connect :: "db_file \<Rightarrow> db" where
  "connect f = \<lparr>tSettings = tSettings f, tSources = tSources f, tWhitelist = tWhitelist f,
     tBlacklist = tBlacklist f, tLocalRecords = tLocalRecords f, tUpstreams = tUpstreams f, dbLastId = 0\<rparr>"

text \<open>\<^verbatim>\<open>Close\<close>: what is left is the file.\<close>

definition Close :: "db \<Rightarrow> db_file" where
  "Close d = \<lparr>tSettings = tSettings d, tSources = tSources d, tWhitelist = tWhitelist d,
     tBlacklist = tBlacklist d, tLocalRecords = tLocalRecords d, tUpstreams = tUpstreams d\<rparr>"

definition default_settings :: "(string, string) fmap" where
  "default_settings = fmap_of_list
     [(''filter_enabled'', ''true''), (''filter_block_response'', ''zero''),
      (''failover_enabled'', ''true''), (''cache_max_size'', ''500000''), (''cache_min_ttl'', ''30''),
      (''cache_max_ttl'', ''86400''), (''cache_negative_ttl'', ''300''),
      (''rate_limit_enabled'', ''true''), (''rate_limit_per_sec'', ''100''),
      (''rate_limit_burst'', ''200''), (''ecs_enabled'', ''true''), (''persistence_enabled'', ''true''),
      (''query_log_enabled'', ''false''), (''blocklist_update_interval'', ''24'')]"

definition default_upstreams :: "string list" where
  "default_upstreams = [''8.8.8.8'', ''1.1.1.1'', ''9.9.9.9'']"

text \<open>
  The \<^verbatim>\<open>settings\<close> table has a text key and no \<^verbatim>\<open>AUTOINCREMENT\<close>: a new row's number is one more than
  the largest, which is the number of rows because the code deletes none.
\<close>

definition insert_setting :: "stmt \<Rightarrow> string \<Rightarrow> string \<Rightarrow> db \<Rightarrow> db" where
  "insert_setting st key value d =
     d\<lparr>tSettings := tSettings d @ [\<lparr>setKey = key, setValue = value, setUpdated = st_now st\<rparr>],
       dbLastId := int (length (tSettings d)) + 1\<rparr>"

definition insert_default :: "stmt \<Rightarrow> string \<Rightarrow> string \<Rightarrow> db \<Rightarrow> db" where
  "insert_default st key value d =
     snd (Exec st (\<lambda>d. Inr (if key \<in> setKey ` set (tSettings d) then d else insert_setting st key value d)) d)"

definition AddFailoverUpstream :: "stmt \<Rightarrow> string \<Rightarrow> int \<Rightarrow> db \<Rightarrow> (go_error + int) \<times> db" where
  "AddFailoverUpstream st address priority d =
     LastInsertId (Exec st (\<lambda>d.
            if address \<in> urAddress ` set (trows (tUpstreams d)) then Inr d
            else Inr (d\<lparr>tUpstreams := insert_row st (\<lambda>i. \<lparr>urId = i, urAddress = address, urEnabled = 1,
                         urPriority = priority, urCreated = st_now st\<rparr>) (tUpstreams d),
                        dbLastId := next_id st (tUpstreams d)\<rparr>)) d)"

fun insert_defaults :: "(nat \<Rightarrow> stmt) \<Rightarrow> nat \<Rightarrow> string list \<Rightarrow> db \<Rightarrow> db" where
  "insert_defaults sts i [] d = d"
| "insert_defaults sts i (k # ks) d =
     insert_defaults sts (Suc i) ks
       (case fmlookup default_settings k of None \<Rightarrow> d | Some v \<Rightarrow> insert_default (sts i) k v d)"

fun insert_upstreams :: "(nat \<Rightarrow> stmt) \<Rightarrow> nat \<Rightarrow> int \<Rightarrow> string list \<Rightarrow> db \<Rightarrow> db" where
  "insert_upstreams sts i p [] d = d"
| "insert_upstreams sts i p (us # uss) d =
     insert_upstreams sts (Suc i) (p + 1) uss (snd (AddFailoverUpstream (sts i) us p d))"

definition initDefaults :: "(string fset \<Rightarrow> string list) \<Rightarrow> (nat \<Rightarrow> stmt) \<Rightarrow> db \<Rightarrow> db" where
  "initDefaults ord sts d =
     (let keys = ord (fmdom default_settings)
      in insert_upstreams sts (length keys) 0 default_upstreams (insert_defaults sts 0 keys d))"

text \<open>
  \<^verbatim>\<open>Open\<close>: \<open>oe_open\<close> is the outcome of \<^verbatim>\<open>sql.Open\<close>, \<open>oe_schema\<close> that of the \<^verbatim>\<open>CREATE TABLE IF NOT EXISTS\<close>
  statements; a table not there yet is an empty table. The file keeps its contents if they fail.
\<close>

record open_env =
  oe_open :: "go_error option"
  oe_schema :: "go_error option"
  oe_order :: "string fset \<Rightarrow> string list"
  oe_stmts :: "nat \<Rightarrow> stmt"

definition migrate :: "open_env \<Rightarrow> db \<Rightarrow> go_error option \<times> db" where
  "migrate env d =
     (case oe_schema env of
        Some e \<Rightarrow> (Some e, d)
      | None \<Rightarrow> (None, initDefaults (oe_order env) (oe_stmts env) d))"

definition Open :: "open_env \<Rightarrow> db_file \<Rightarrow> go_error + db" where
  "Open env f =
     (case oe_open env of
        Some e \<Rightarrow> Inl e
      | None \<Rightarrow>
          (let (err, d) = migrate env (connect f)
           in case err of Some e \<Rightarrow> Inl e | None \<Rightarrow> Inr d))"

section \<open>Settings\<close>

definition no_rows :: go_error where "no_rows = ''sql: no rows in result set''"

definition GetSetting :: "stmt \<Rightarrow> string \<Rightarrow> db \<Rightarrow> go_error + string" where
  "GetSetting st key d =
     (case st_fail st of
        Some e \<Rightarrow> Inl e
      | None \<Rightarrow>
          (case find (\<lambda>r. setKey r = key) (tSettings d) of
             None \<Rightarrow> Inl no_rows
           | Some r \<Rightarrow> Inr (setValue r)))"

definition upsert_setting :: "stmt \<Rightarrow> string \<Rightarrow> string \<Rightarrow> db \<Rightarrow> db" where
  "upsert_setting st key value d =
     (if key \<in> setKey ` set (tSettings d)
      then d\<lparr>tSettings := map (\<lambda>r. if setKey r = key then r\<lparr>setValue := value, setUpdated := st_now st\<rparr> else r)
               (tSettings d)\<rparr>
      else insert_setting st key value d)"

definition SetSetting :: "stmt \<Rightarrow> string \<Rightarrow> string \<Rightarrow> db \<Rightarrow> go_error option \<times> db" where
  "SetSetting st key value = Exec st (\<lambda>d. Inr (upsert_setting st key value d))"

definition GetAllSettings :: "stmt \<Rightarrow> db \<Rightarrow> go_error + (string, string) fmap" where
  "GetAllSettings st d =
     (case fetch st (scan st (tSettings d)) of
        Inl e \<Rightarrow> Inl e
      | Inr rs \<Rightarrow> Inr (fold (\<lambda>r m. fmupd (setKey r) (setValue r) m) rs fmempty))"

section \<open>Blocklist sources\<close>

definition source_of_row :: "int blocklist_source \<Rightarrow> bool blocklist_source" where
  "source_of_row r = \<lparr>bsId = bsId r, bsName = bsName r, bsURL = bsURL r, bsEnabled = (bsEnabled r = 1),
     bsDomainCount = bsDomainCount r, bsLastUpdated = bsLastUpdated r, bsCreatedAt = bsCreatedAt r\<rparr>"

definition GetBlocklistSources :: "stmt \<Rightarrow> db \<Rightarrow> go_error + bool blocklist_source list" where
  "GetBlocklistSources st d =
     map_sum id (map source_of_row) (fetch st (sort_key bsId (scan st (trows (tSources d)))))"

definition GetEnabledBlocklistURLs :: "stmt \<Rightarrow> db \<Rightarrow> go_error + string list" where
  "GetEnabledBlocklistURLs st d =
     map_sum id (map bsURL) (fetch st (filter (\<lambda>r. bsEnabled r = 1) (scan st (trows (tSources d)))))"

definition AddBlocklistSource :: "stmt \<Rightarrow> string \<Rightarrow> string \<Rightarrow> db \<Rightarrow> (go_error + int) \<times> db" where
  "AddBlocklistSource st name url d =
     LastInsertId (Exec st (\<lambda>d.
            if url \<in> bsURL ` set (trows (tSources d)) then Inl (unique_violation ''blocklist_sources.url'')
            else Inr (d\<lparr>tSources := insert_row st (\<lambda>i. \<lparr>bsId = i, bsName = name, bsURL = url, bsEnabled = 1,
                         bsDomainCount = 0, bsLastUpdated = None, bsCreatedAt = st_now st\<rparr>) (tSources d),
                        dbLastId := next_id st (tSources d)\<rparr>)) d)"

definition RemoveBlocklistSource :: "stmt \<Rightarrow> int \<Rightarrow> db \<Rightarrow> go_error option \<times> db" where
  "RemoveBlocklistSource st i =
     Exec st (\<lambda>d. Inr (d\<lparr>tSources := delete_rows (\<lambda>r. bsId r = i) (tSources d)\<rparr>))"

definition ToggleBlocklistSource :: "stmt \<Rightarrow> int \<Rightarrow> bool \<Rightarrow> db \<Rightarrow> go_error option \<times> db" where
  "ToggleBlocklistSource st i enabled =
     Exec st (\<lambda>d. Inr (d\<lparr>tSources := update_rows (\<lambda>r. bsId r = i)
       (\<lambda>r. r\<lparr>bsEnabled := enabled_int enabled\<rparr>) (tSources d)\<rparr>))"

definition UpdateBlocklistSourceCount :: "stmt \<Rightarrow> int \<Rightarrow> int \<Rightarrow> db \<Rightarrow> go_error option \<times> db" where
  "UpdateBlocklistSourceCount st i n =
     Exec st (\<lambda>d. Inr (d\<lparr>tSources := update_rows (\<lambda>r. bsId r = i)
       (\<lambda>r. r\<lparr>bsDomainCount := n, bsLastUpdated := Some (st_now st)\<rparr>) (tSources d)\<rparr>))"

section \<open>Whitelist and blacklist\<close>

definition getDomainList :: "stmt \<Rightarrow> domain_entry table \<Rightarrow> go_error + domain_entry list" where
  "getDomainList st t = fetch st (sort_key (\<lambda>r. - deId r) (scan st (trows t)))"

definition insert_domain :: "stmt \<Rightarrow> string \<Rightarrow> string \<Rightarrow> domain_entry table \<Rightarrow> domain_entry table" where
  "insert_domain st domain note =
     insert_row st (\<lambda>i. \<lparr>deId = i, deDomain = domain, deNote = note, deCreatedAt = st_now st\<rparr>)"

definition db_GetWhitelist :: "stmt \<Rightarrow> db \<Rightarrow> go_error + domain_entry list" where
  "db_GetWhitelist st d = getDomainList st (tWhitelist d)"

definition AddWhitelist :: "stmt \<Rightarrow> string \<Rightarrow> string \<Rightarrow> db \<Rightarrow> go_error option \<times> db" where
  "AddWhitelist st domain note = Exec st (\<lambda>d. Inr
     (if domain \<in> deDomain ` set (trows (tWhitelist d)) then d
      else d\<lparr>tWhitelist := insert_domain st domain note (tWhitelist d), dbLastId := next_id st (tWhitelist d)\<rparr>))"

definition RemoveWhitelist :: "stmt \<Rightarrow> int \<Rightarrow> db \<Rightarrow> go_error option \<times> db" where
  "RemoveWhitelist st i = Exec st (\<lambda>d. Inr (d\<lparr>tWhitelist := delete_rows (\<lambda>r. deId r = i) (tWhitelist d)\<rparr>))"

definition RemoveWhitelistByDomain :: "stmt \<Rightarrow> string \<Rightarrow> db \<Rightarrow> go_error option \<times> db" where
  "RemoveWhitelistByDomain st domain =
     Exec st (\<lambda>d. Inr (d\<lparr>tWhitelist := delete_rows (\<lambda>r. deDomain r = domain) (tWhitelist d)\<rparr>))"

definition db_GetBlacklist :: "stmt \<Rightarrow> db \<Rightarrow> go_error + domain_entry list" where
  "db_GetBlacklist st d = getDomainList st (tBlacklist d)"

definition AddBlacklist :: "stmt \<Rightarrow> string \<Rightarrow> string \<Rightarrow> db \<Rightarrow> go_error option \<times> db" where
  "AddBlacklist st domain note = Exec st (\<lambda>d. Inr
     (if domain \<in> deDomain ` set (trows (tBlacklist d)) then d
      else d\<lparr>tBlacklist := insert_domain st domain note (tBlacklist d), dbLastId := next_id st (tBlacklist d)\<rparr>))"

definition RemoveBlacklist :: "stmt \<Rightarrow> int \<Rightarrow> db \<Rightarrow> go_error option \<times> db" where
  "RemoveBlacklist st i = Exec st (\<lambda>d. Inr (d\<lparr>tBlacklist := delete_rows (\<lambda>r. deId r = i) (tBlacklist d)\<rparr>))"

definition RemoveBlacklistByDomain :: "stmt \<Rightarrow> string \<Rightarrow> db \<Rightarrow> go_error option \<times> db" where
  "RemoveBlacklistByDomain st domain =
     Exec st (\<lambda>d. Inr (d\<lparr>tBlacklist := delete_rows (\<lambda>r. deDomain r = domain) (tBlacklist d)\<rparr>))"

definition GetWhitelistDomains :: "stmt \<Rightarrow> db \<Rightarrow> go_error + string list" where
  "GetWhitelistDomains st d = map_sum id (map deDomain) (fetch st (scan st (trows (tWhitelist d))))"

definition GetBlacklistDomains :: "stmt \<Rightarrow> db \<Rightarrow> go_error + string list" where
  "GetBlacklistDomains st d = map_sum id (map deDomain) (fetch st (scan st (trows (tBlacklist d))))"

section \<open>Local records\<close>

definition record_of_row :: "int db_local_record \<Rightarrow> bool db_local_record" where
  "record_of_row r = \<lparr>dlId = dlId r, dlName = dlName r, dlType = dlType r, dlValue = dlValue r,
     dlTTL = dlTTL r, dlEnabled = (dlEnabled r = 1), dlNote = dlNote r, dlCreatedAt = dlCreatedAt r\<rparr>"

definition GetLocalRecords :: "stmt \<Rightarrow> db \<Rightarrow> go_error + bool db_local_record list" where
  "GetLocalRecords st d =
     map_sum id (map record_of_row) (fetch st (sort_key dlName (scan st (trows (tLocalRecords d)))))"

definition GetEnabledLocalRecords :: "stmt \<Rightarrow> db \<Rightarrow> go_error + bool db_local_record list" where
  "GetEnabledLocalRecords st d =
     map_sum id (map record_of_row)
       (fetch st (filter (\<lambda>r. dlEnabled r = 1) (scan st (trows (tLocalRecords d)))))"

definition AddLocalRecord :: "stmt \<Rightarrow> string \<Rightarrow> string \<Rightarrow> string \<Rightarrow> u32 \<Rightarrow> string \<Rightarrow> db
    \<Rightarrow> (go_error + int) \<times> db" where
  "AddLocalRecord st name rtype value ttl note d =
     LastInsertId (Exec st (\<lambda>d.
            if (name, rtype, value) \<in> (\<lambda>r. (dlName r, dlType r, dlValue r)) ` set (trows (tLocalRecords d))
            then Inl (unique_violation ''local_records.name, local_records.type, local_records.value'')
            else Inr (d\<lparr>tLocalRecords := insert_row st (\<lambda>i. \<lparr>dlId = i, dlName = name, dlType = rtype,
                         dlValue = value, dlTTL = ttl, dlEnabled = 1, dlNote = note,
                         dlCreatedAt = st_now st\<rparr>) (tLocalRecords d),
                        dbLastId := next_id st (tLocalRecords d)\<rparr>)) d)"

definition RemoveLocalRecord :: "stmt \<Rightarrow> int \<Rightarrow> db \<Rightarrow> go_error option \<times> db" where
  "RemoveLocalRecord st i =
     Exec st (\<lambda>d. Inr (d\<lparr>tLocalRecords := delete_rows (\<lambda>r. dlId r = i) (tLocalRecords d)\<rparr>))"

definition ToggleLocalRecord :: "stmt \<Rightarrow> int \<Rightarrow> bool \<Rightarrow> db \<Rightarrow> go_error option \<times> db" where
  "ToggleLocalRecord st i enabled =
     Exec st (\<lambda>d. Inr (d\<lparr>tLocalRecords := update_rows (\<lambda>r. dlId r = i)
       (\<lambda>r. r\<lparr>dlEnabled := enabled_int enabled\<rparr>) (tLocalRecords d)\<rparr>))"

section \<open>Failover upstreams\<close>

definition upstream_of_row :: "upstream_row \<Rightarrow> failover_upstream" where
  "upstream_of_row r = \<lparr>fuId = urId r, fuAddress = urAddress r, fuEnabled = (urEnabled r = 1),
     fuPriority = urPriority r\<rparr>"

definition GetFailoverUpstreams :: "stmt \<Rightarrow> db \<Rightarrow> go_error + failover_upstream list" where
  "GetFailoverUpstreams st d =
     map_sum id (map upstream_of_row) (fetch st (sort_key urPriority (scan st (trows (tUpstreams d)))))"

definition GetEnabledUpstreams :: "stmt \<Rightarrow> db \<Rightarrow> go_error + string list" where
  "GetEnabledUpstreams st d =
     map_sum id (map urAddress)
       (fetch st (sort_key urPriority (filter (\<lambda>r. urEnabled r = 1) (scan st (trows (tUpstreams d))))))"

definition RemoveFailoverUpstream :: "stmt \<Rightarrow> int \<Rightarrow> db \<Rightarrow> go_error option \<times> db" where
  "RemoveFailoverUpstream st i =
     Exec st (\<lambda>d. Inr (d\<lparr>tUpstreams := delete_rows (\<lambda>r. urId r = i) (tUpstreams d)\<rparr>))"

definition ToggleFailoverUpstream :: "stmt \<Rightarrow> int \<Rightarrow> bool \<Rightarrow> db \<Rightarrow> go_error option \<times> db" where
  "ToggleFailoverUpstream st i enabled =
     Exec st (\<lambda>d. Inr (d\<lparr>tUpstreams := update_rows (\<lambda>r. urId r = i)
       (\<lambda>r. r\<lparr>urEnabled := enabled_int enabled\<rparr>) (tUpstreams d)\<rparr>))"

end
