(* ===== verification/DatabaseCorrect.thy ===== *)
theory DatabaseCorrect
  imports Database Prelude
begin

text \<open>
  What the store promises: every sequence of calls keeps the schema's constraints and never gives
  an id away twice; settings survive closing and opening; the defaults that opening puts back.
\<close>

section \<open>Tables with ids and keys\<close>

named_theorems table_intro \<open>the operations on one table keep its constraints\<close>

definition rows_ok :: "('r \<Rightarrow> int) \<Rightarrow> ('r \<Rightarrow> 'k) \<Rightarrow> ('r \<Rightarrow> bool) \<Rightarrow> 'r table \<Rightarrow> bool" where
  "rows_ok rid key good t \<longleftrightarrow> 0 \<le> tseq t \<and> distinct (map rid (trows t)) \<and> distinct (map key (trows t))
     \<and> (\<forall>r \<in> set (trows t). 0 < rid r \<and> rid r \<le> tseq t \<and> good r)"

text \<open>A later state of a table: a row whose id was in use or free before is the row it was.\<close>

definition ids_kept :: "('r \<Rightarrow> int) \<Rightarrow> ('r \<Rightarrow> 'k) \<Rightarrow> 'r table \<Rightarrow> 'r table \<Rightarrow> bool" where
  "ids_kept rid key t t' \<longleftrightarrow> tseq t \<le> tseq t'
     \<and> (\<forall>r \<in> set (trows t'). rid r \<le> tseq t \<longrightarrow> (\<exists>r0 \<in> set (trows t). rid r0 = rid r \<and> key r0 = key r))"

lemma ids_kept_refl [simp]: "ids_kept rid key t t"
  by (auto simp: ids_kept_def)

lemma ids_kept_trans: "ids_kept rid key t t' \<Longrightarrow> ids_kept rid key t' t'' \<Longrightarrow> ids_kept rid key t t''"
  unfolding ids_kept_def by (metis order_trans)

lemma next_id_greater: "tseq t < next_id st t"
  by (simp add: next_id_def)

lemma rows_ok_insert [table_intro]:
  assumes "rows_ok rid key good t" and "rid (mk (next_id st t)) = next_id st t"
    and "key (mk (next_id st t)) \<notin> key ` set (trows t)" and "good (mk (next_id st t))"
  shows "rows_ok rid key good (insert_row st mk t)"
  using assms next_id_greater [of t st] by (fastforce simp: rows_ok_def insert_row_def)

lemma rows_ok_delete [table_intro]:
  "rows_ok rid key good t \<Longrightarrow> rows_ok rid key good (delete_rows P t)"
  by (auto simp: rows_ok_def delete_rows_def distinct_map_filter)

lemma map_update_rows: "(\<And>r. h (f r) = h r) \<Longrightarrow> map h (trows (update_rows P f t)) = map h (trows t)"
  by (simp add: update_rows_def)

lemma rows_ok_update [table_intro]:
  assumes "rows_ok rid key good t" and "\<And>r. rid (f r) = rid r" and "\<And>r. key (f r) = key r"
    and "\<And>r. good r \<Longrightarrow> good (f r)"
  shows "rows_ok rid key good (update_rows P f t)"
proof -
  have "tseq (update_rows P f t) = tseq t" by (simp add: update_rows_def)
  moreover have "\<forall>r \<in> set (trows (update_rows P f t)). 0 < rid r \<and> rid r \<le> tseq t \<and> good r"
    using assms by (auto simp: rows_ok_def update_rows_def)
  ultimately show ?thesis
    using assms(1) map_update_rows [of rid f P t] map_update_rows [of key f P t] assms(2,3)
    by (simp add: rows_ok_def)
qed

lemma ids_kept_insert [table_intro]:
  "rid (mk (next_id st t)) = next_id st t \<Longrightarrow> ids_kept rid key t (insert_row st mk t)"
  using next_id_greater [of t st] by (auto simp: ids_kept_def insert_row_def)

lemma ids_kept_delete [table_intro]: "ids_kept rid key t (delete_rows P t)"
  by (auto simp: ids_kept_def delete_rows_def)

lemma ids_kept_update [table_intro]:
  "(\<And>r. rid (f r) = rid r) \<Longrightarrow> (\<And>r. key (f r) = key r) \<Longrightarrow> ids_kept rid key t (update_rows P f t)"
  by (auto simp: ids_kept_def update_rows_def)

section \<open>The database\<close>

definition flag_ok :: "int \<Rightarrow> bool" where "flag_ok e \<longleftrightarrow> e = 0 \<or> e = 1"

definition record_key :: "'e db_local_record \<Rightarrow> string \<times> string \<times> string" where
  "record_key r = (dlName r, dlType r, dlValue r)"

definition db_ok :: "'a db_file_scheme \<Rightarrow> bool" where
  "db_ok d \<longleftrightarrow> distinct (map setKey (tSettings d))
     \<and> rows_ok bsId bsURL (\<lambda>r. flag_ok (bsEnabled r)) (tSources d)
     \<and> rows_ok deId deDomain (\<lambda>r. True) (tWhitelist d)
     \<and> rows_ok deId deDomain (\<lambda>r. True) (tBlacklist d)
     \<and> rows_ok dlId record_key (\<lambda>r. flag_ok (dlEnabled r)) (tLocalRecords d)
     \<and> rows_ok urId urAddress (\<lambda>r. flag_ok (urEnabled r)) (tUpstreams d)"

definition db_ids_kept :: "'a db_file_scheme \<Rightarrow> 'b db_file_scheme \<Rightarrow> bool" where
  "db_ids_kept d d' \<longleftrightarrow> ids_kept bsId bsURL (tSources d) (tSources d')
     \<and> ids_kept deId deDomain (tWhitelist d) (tWhitelist d')
     \<and> ids_kept deId deDomain (tBlacklist d) (tBlacklist d')
     \<and> ids_kept dlId record_key (tLocalRecords d) (tLocalRecords d')
     \<and> ids_kept urId urAddress (tUpstreams d) (tUpstreams d')"

text \<open>The calls of the package that write.\<close>

datatype db_call =
    Call_SetSetting string string
  | Call_AddBlocklistSource string string
  | Call_RemoveBlocklistSource int
  | Call_ToggleBlocklistSource int bool
  | Call_UpdateBlocklistSourceCount int int
  | Call_AddWhitelist string string
  | Call_RemoveWhitelist int
  | Call_RemoveWhitelistByDomain string
  | Call_AddBlacklist string string
  | Call_RemoveBlacklist int
  | Call_RemoveBlacklistByDomain string
  | Call_AddLocalRecord string string string u32 string
  | Call_RemoveLocalRecord int
  | Call_ToggleLocalRecord int bool
  | Call_AddFailoverUpstream string int
  | Call_RemoveFailoverUpstream int
  | Call_ToggleFailoverUpstream int bool

fun db_step :: "stmt \<times> db_call \<Rightarrow> db \<Rightarrow> db" where
  "db_step (st, Call_SetSetting k v) d = snd (SetSetting st k v d)"
| "db_step (st, Call_AddBlocklistSource n u) d = snd (AddBlocklistSource st n u d)"
| "db_step (st, Call_RemoveBlocklistSource i) d = snd (RemoveBlocklistSource st i d)"
| "db_step (st, Call_ToggleBlocklistSource i b) d = snd (ToggleBlocklistSource st i b d)"
| "db_step (st, Call_UpdateBlocklistSourceCount i n) d = snd (UpdateBlocklistSourceCount st i n d)"
| "db_step (st, Call_AddWhitelist n note) d = snd (AddWhitelist st n note d)"
| "db_step (st, Call_RemoveWhitelist i) d = snd (RemoveWhitelist st i d)"
| "db_step (st, Call_RemoveWhitelistByDomain n) d = snd (RemoveWhitelistByDomain st n d)"
| "db_step (st, Call_AddBlacklist n note) d = snd (AddBlacklist st n note d)"
| "db_step (st, Call_RemoveBlacklist i) d = snd (RemoveBlacklist st i d)"
| "db_step (st, Call_RemoveBlacklistByDomain n) d = snd (RemoveBlacklistByDomain st n d)"
| "db_step (st, Call_AddLocalRecord n t v ttl note) d = snd (AddLocalRecord st n t v ttl note d)"
| "db_step (st, Call_RemoveLocalRecord i) d = snd (RemoveLocalRecord st i d)"
| "db_step (st, Call_ToggleLocalRecord i b) d = snd (ToggleLocalRecord st i b d)"
| "db_step (st, Call_AddFailoverUpstream a p) d = snd (AddFailoverUpstream st a p d)"
| "db_step (st, Call_RemoveFailoverUpstream i) d = snd (RemoveFailoverUpstream st i d)"
| "db_step (st, Call_ToggleFailoverUpstream i b) d = snd (ToggleFailoverUpstream st i b d)"

text \<open>A statement leaves the database alone or acts on it.\<close>

lemma Exec_keeps:
  assumes "I d" and "\<And>d'. f d = Inr d' \<Longrightarrow> I d'"
  shows "I (snd (Exec st f d))"
  using assms by (simp add: Exec_def split: option.split sum.split)

lemma enabled_int_ok [simp]: "flag_ok (enabled_int b)" "flag_ok 1"
  by (simp_all add: flag_ok_def enabled_int_def)

lemma setKey_upsert:
  "map setKey (tSettings (upsert_setting st k v d)) =
     (if k \<in> setKey ` set (tSettings d) then map setKey (tSettings d) else map setKey (tSettings d) @ [k])"
  by (auto simp: upsert_setting_def insert_setting_def)

lemmas db_ops = SetSetting_def AddBlocklistSource_def RemoveBlocklistSource_def ToggleBlocklistSource_def
  UpdateBlocklistSourceCount_def AddWhitelist_def RemoveWhitelist_def RemoveWhitelistByDomain_def
  AddBlacklist_def RemoveBlacklist_def RemoveBlacklistByDomain_def AddLocalRecord_def
  RemoveLocalRecord_def ToggleLocalRecord_def AddFailoverUpstream_def RemoveFailoverUpstream_def
  ToggleFailoverUpstream_def

lemma snd_LastInsertId [simp]: "snd (LastInsertId r) = snd r"
  by (simp add: LastInsertId_def split: prod.split option.split)

definition kept_since :: "db \<Rightarrow> db \<Rightarrow> bool" where
  "kept_since d d' \<longleftrightarrow> db_ok d' \<and> db_ids_kept d d'"

lemma upsert_setting_tables [simp]:
  "tSources (upsert_setting st k v d) = tSources d" "tWhitelist (upsert_setting st k v d) = tWhitelist d"
  "tBlacklist (upsert_setting st k v d) = tBlacklist d"
  "tLocalRecords (upsert_setting st k v d) = tLocalRecords d"
  "tUpstreams (upsert_setting st k v d) = tUpstreams d"
  by (simp_all add: upsert_setting_def insert_setting_def)

lemma insert_setting_tables [simp]:
  "tSources (insert_setting st k v d) = tSources d" "tWhitelist (insert_setting st k v d) = tWhitelist d"
  "tBlacklist (insert_setting st k v d) = tBlacklist d"
  "tLocalRecords (insert_setting st k v d) = tLocalRecords d"
  "tUpstreams (insert_setting st k v d) = tUpstreams d"
  by (simp_all add: insert_setting_def)

lemma db_ok_upsert: "db_ok d \<Longrightarrow> db_ok (upsert_setting st k v d)"
  by (auto simp: db_ok_def setKey_upsert)

lemma db_step_kept:
  assumes "db_ok d"
  shows "kept_since d (db_step x d)"
proof -
  have k: "kept_since d d" using assms by (simp add: kept_since_def db_ids_kept_def)
  show ?thesis
    by (cases "(x, d)" rule: db_step.cases)
      (use assms k in \<open>auto simp: db_ops intro!: Exec_keeps [where I = "kept_since d"] split: if_splits\<close>,
       auto simp: kept_since_def db_ids_kept_def db_ok_upsert,
       auto simp: db_ok_def insert_domain_def record_key_def intro!: table_intro)
qed

lemma db_step_ok: "db_ok d \<Longrightarrow> db_ok (db_step x d)"
  using db_step_kept by (simp add: kept_since_def)

lemma db_ids_kept_trans: "db_ids_kept d d' \<Longrightarrow> db_ids_kept d' d'' \<Longrightarrow> db_ids_kept d d''"
  unfolding db_ids_kept_def by (meson ids_kept_trans)

lemma db_steps_kept:
  assumes "db_ok d"
  shows "kept_since d (fold db_step xs d)"
  using assms
proof (induction xs arbitrary: d)
  case Nil
  then show ?case by (simp add: kept_since_def db_ids_kept_def)
next
  case (Cons x xs)
  from db_step_kept [OF Cons.prems, of x] Cons.IH [of "db_step x d"] show ?case
    by (auto simp: kept_since_def intro: db_ids_kept_trans)
qed

section \<open>Opening\<close>

text \<open>Opening is a sequence of calls too: the defaults that are missing are inserted.\<close>

lemma insert_default_upsert:
  "insert_default st k v d =
     (if st_fail st \<noteq> None \<or> k \<in> setKey ` set (tSettings d) then d else upsert_setting st k v d)"
  by (auto simp: insert_default_def Exec_def upsert_setting_def split: option.split)

lemma insert_default_kept: "kept_since d0 d \<Longrightarrow> kept_since d0 (insert_default st k v d)"
  by (auto simp: insert_default_upsert kept_since_def db_ok_upsert)
    (auto simp: db_ids_kept_def)

lemma insert_defaults_kept: "kept_since d0 d \<Longrightarrow> kept_since d0 (insert_defaults sts i ks d)"
  by (induction ks arbitrary: i d) (auto intro: insert_default_kept split: option.split)

lemma AddFailoverUpstream_kept: "kept_since d0 d \<Longrightarrow> kept_since d0 (snd (AddFailoverUpstream st a p d))"
  using db_step_kept [of d "(st, Call_AddFailoverUpstream a p)"]
  by (auto simp: kept_since_def intro: db_ids_kept_trans)

lemma insert_upstreams_kept: "kept_since d0 d \<Longrightarrow> kept_since d0 (insert_upstreams sts i p uss d)"
  by (induction uss arbitrary: i p d) (simp_all add: AddFailoverUpstream_kept)

lemma connect_tables [simp]:
  "tSettings (connect f) = tSettings f" "tSources (connect f) = tSources f" "tWhitelist (connect f) = tWhitelist f"
  "tBlacklist (connect f) = tBlacklist f" "tLocalRecords (connect f) = tLocalRecords f"
  "tUpstreams (connect f) = tUpstreams f"
  by (simp_all add: connect_def)

lemma Close_tables [simp]:
  "tSettings (Close d) = tSettings d" "tSources (Close d) = tSources d" "tWhitelist (Close d) = tWhitelist d"
  "tBlacklist (Close d) = tBlacklist d" "tLocalRecords (Close d) = tLocalRecords d"
  "tUpstreams (Close d) = tUpstreams d"
  by (simp_all add: Close_def)

lemma db_ok_connect [simp]: "db_ok (connect f) = db_ok f" "db_ok (Close d) = db_ok d"
  by (simp_all add: db_ok_def)

lemma Open_SomeD:
  assumes "Open env f = Inr d"
  shows "d = initDefaults (oe_order env) (oe_stmts env) (connect f)"
  using assms by (auto simp: Open_def migrate_def Let_def split: option.splits)

lemma Open_kept:
  assumes "db_ok f" and "Open env f = Inr d"
  shows "db_ok d" and "db_ids_kept f d"
proof -
  have "kept_since (connect f) (connect f)"
    using assms(1) by (simp add: kept_since_def db_ids_kept_def)
  then have "kept_since (connect f) d"
    unfolding Open_SomeD [OF assms(2)] initDefaults_def Let_def
    by (intro insert_upstreams_kept insert_defaults_kept)
  then show "db_ok d" and "db_ids_kept f d" by (simp_all add: kept_since_def db_ids_kept_def)
qed

lemma empty_file_ok [simp]: "db_ok empty_file"
  by (simp add: db_ok_def rows_ok_def empty_file_def)

text \<open>
  C9: whatever is called, whichever statements fail: the tables satisfy the schema (keys and
  ids unique, flags 0 or 1) from the first opening on, and across closing and opening again; and no
  id is ever given away twice: a row whose id had been used before is the row it was then.
\<close>
theorem database_keeps_schema:
  assumes "db_ok f" and "Open env f = Inr d" and "d' = fold db_step xs d"
    and "Open env' (Close d') = Inr d''"
  shows "db_ok d' \<and> db_ok d'' \<and> db_ids_kept d d' \<and> db_ids_kept d d''"
proof -
  have d: "db_ok d" using assms(1,2) by (rule Open_kept)
  have d': "db_ok d'" "db_ids_kept d d'"
    using db_steps_kept [OF d, of xs] by (simp_all add: assms(3) kept_since_def)
  with Open_kept [OF _ assms(4)] have "db_ok d''" "db_ids_kept d' d''"
    by (simp_all add: db_ids_kept_def)
  with d' db_ids_kept_trans show ?thesis by blast
qed

definition fine :: stmt where
  "fine = \<lparr>st_fail = None, st_now = 0, st_gap = 0, st_scan = (\<lambda>n. [0..<n]), st_break = None\<rparr>"

definition fine_open :: open_env where
  "fine_open = \<lparr>oe_open = None, oe_schema = None, oe_order = sorted_list_of_fset, oe_stmts = (\<lambda>i. fine)\<rparr>"

lemma fine_Open: "Open fine_open f = Inr (initDefaults sorted_list_of_fset (\<lambda>i. fine) (connect f))"
  by (simp add: Open_def fine_open_def migrate_def)

theorem database_keeps_schema_witness:
  "let d = projr (Open fine_open empty_file);
       d' = fold db_step [(fine, Call_AddWhitelist ''a.'' []), (fine, Call_RemoveWhitelist 1),
              (fine, Call_AddWhitelist ''b.'' [])] d
   in map deId (trows (tWhitelist d')) = [2] \<and> db_ok d' \<and> db_ids_kept d d'"
proof -
  let ?d = "projr (Open fine_open empty_file)"
  let ?d' = "fold db_step [(fine, Call_AddWhitelist ''a.'' []), (fine, Call_RemoveWhitelist 1),
              (fine, Call_AddWhitelist ''b.'' [])] ?d"
  have o: "Open fine_open empty_file = Inr ?d" by (simp add: fine_Open)
  obtain d'' where r: "Open fine_open (Close ?d') = Inr d''" by (simp add: fine_Open)
  have "map deId (trows (tWhitelist ?d')) = [2]" by code_simp
  with database_keeps_schema [OF empty_file_ok o refl r] show ?thesis by (simp only: Let_def)
qed

section \<open>Settings\<close>

definition setting :: "'a db_file_scheme \<Rightarrow> string \<Rightarrow> string option" where
  "setting d = map_of (map (\<lambda>r. (setKey r, setValue r)) (tSettings d))"

lemma find_setting: "map_option setValue (find (\<lambda>r. setKey r = k) rs) = map_of (map (\<lambda>r. (setKey r, setValue r)) rs) k"
  by (induction rs) auto

lemma GetSetting_eq:
  "st_fail st = None \<Longrightarrow> GetSetting st k d = (case setting d k of None \<Rightarrow> Inl no_rows | Some v \<Rightarrow> Inr v)"
  unfolding setting_def find_setting [symmetric] by (simp add: GetSetting_def split: option.split)

lemma setting_None: "setting d k = None \<longleftrightarrow> k \<notin> setKey ` set (tSettings d)"
  by (simp add: setting_def map_of_eq_None_iff image_image)

lemma update_settings:
  "map_of (map (\<lambda>r. (setKey r, setValue r))
       (map (\<lambda>r. if setKey r = k then r\<lparr>setValue := v, setUpdated := t\<rparr> else r) rs)) k' =
     (if k' = k \<and> k \<in> setKey ` set rs then Some v else map_of (map (\<lambda>r. (setKey r, setValue r)) rs) k')"
  by (induction rs) auto

lemma setting_upsert [simp]: "setting (upsert_setting st k v d) k' = (if k' = k then Some v else setting d k')"
proof (cases "k \<in> setKey ` set (tSettings d)")
  case True
  then show ?thesis
    unfolding upsert_setting_def setting_def by (simp add: update_settings [simplified])
next
  case False
  then have "setting d k = None" by (simp add: setting_None)
  with False show ?thesis
    by (auto simp: upsert_setting_def insert_setting_def setting_def map_add_def split: option.split)
qed

lemma setting_cong: "tSettings d' = tSettings d \<Longrightarrow> setting d' = setting d"
  by (simp add: setting_def fun_eq_iff)

lemma tSettings_step:
  assumes "\<And>k v. c \<noteq> Call_SetSetting k v"
  shows "tSettings (db_step (st, c) d) = tSettings d"
  using assms by (cases c) (auto simp: db_ops Exec_def split: option.split sum.split)

lemma setting_step:
  assumes "\<And>v. c \<noteq> Call_SetSetting k v"
  shows "setting (db_step (st, c) d) k = setting d k"
proof (cases "\<exists>k' v. c = Call_SetSetting k' v")
  case True
  then obtain k' v where "c = Call_SetSetting k' v" "k' \<noteq> k" using assms by blast
  then show ?thesis by (simp add: SetSetting_def Exec_def split: option.split)
next
  case False
  then have "tSettings (db_step (st, c) d) = tSettings d" by (intro tSettings_step) blast
  then show ?thesis by (rule fun_cong [OF setting_cong])
qed

lemma setting_steps:
  "\<forall>(st, c) \<in> set xs. \<forall>v. c \<noteq> Call_SetSetting k v \<Longrightarrow> setting (fold db_step xs d) k = setting d k"
proof (induction xs arbitrary: d)
  case (Cons x xs)
  obtain st c where x: "x = (st, c)" by (cases x)
  then have "setting (db_step x d) k = setting d k" using Cons.prems by (simp add: setting_step)
  with Cons show ?case by simp
qed simp

lemma setting_insert_default: "setting d k = Some v \<Longrightarrow> setting (insert_default st k' v' d) k = Some v"
  by (auto simp: insert_default_upsert setting_None [symmetric])

lemma setting_insert_defaults: "setting d k = Some v \<Longrightarrow> setting (insert_defaults sts i ks d) k = Some v"
  by (induction ks arbitrary: i d) (auto simp: setting_insert_default split: option.split)

lemma setting_insert_default_eq:
  "st_fail st = None \<Longrightarrow> setting (insert_default st k' v d) k =
     (if k = k' \<and> setting d k = None then Some v else setting d k)"
  using setting_None [of d k'] by (cases "k = k'") (simp_all add: insert_default_upsert)

text \<open>Where no statement fails, every default is there, unless another value was stored before.\<close>

lemma insert_defaults_setting:
  "\<forall>i. st_fail (sts i) = None \<Longrightarrow> setting (insert_defaults sts i ks d) k =
     (case setting d k of Some v \<Rightarrow> Some v | None \<Rightarrow> if k \<in> set ks then fmlookup default_settings k else None)"
proof (induction ks arbitrary: i d)
  case Nil
  then show ?case by (simp split: option.split)
next
  case (Cons k' ks)
  then have f: "st_fail (sts i) = None" by blast
  show ?case
    using Cons setting_insert_default_eq [OF f]
    by (auto split: option.split)
qed

lemma insert_upstreams_settings: "tSettings (insert_upstreams sts i p uss d) = tSettings d"
  using tSettings_step [of "Call_AddFailoverUpstream a q" for a q]
  by (induction uss arbitrary: i p d) simp_all

lemma setting_Open:
  assumes "setting f k = Some v" and "Open env f = Inr d"
  shows "setting d k = Some v"
proof -
  have "setting (connect f) k = Some v" using assms(1) by (simp add: setting_def)
  then have "setting (insert_defaults (oe_stmts env) 0 ks (connect f)) k = Some v" for ks
    by (rule setting_insert_defaults)
  then show ?thesis
    by (simp add: Open_SomeD [OF assms(2)] initDefaults_def Let_def
        setting_cong [OF insert_upstreams_settings])
qed

lemma Open_default:
  assumes "Open env f = Inr d" and "\<forall>i. st_fail (oe_stmts env i) = None" and "enumerates (oe_order env)"
    and "setting f k = None"
  shows "setting d k = fmlookup default_settings k"
proof -
  have "setting (connect f) k = None" using assms(4) by (simp add: setting_def)
  then show ?thesis
    using insert_defaults_setting [OF assms(2), of 0 "oe_order env (fmdom default_settings)" "connect f" k] assms(3)
    by (auto simp: Open_SomeD [OF assms(1)] initDefaults_def Let_def enumerates_set fmlookup_dom_iff
        setting_cong [OF insert_upstreams_settings])
qed

text \<open>
  C18: a setting that was stored is what is read back, whatever other calls are made afterwards, after
  closing and opening the database too: opening does not put a default in its place.
\<close>
theorem setting_survives_reopening:
  assumes "SetSetting st k v d = (None, d1)"
    and "\<forall>(st, c) \<in> set xs. \<forall>v. c \<noteq> Call_SetSetting k v" and "d2 = fold db_step xs d1"
    and "Open env (Close d2) = Inr d3" and "st_fail st' = None"
  shows "GetSetting st' k d2 = Inr v \<and> GetSetting st' k d3 = Inr v"
proof -
  have "d1 = upsert_setting st k v d" using assms(1) by (auto simp: SetSetting_def Exec_def split: option.splits)
  then have s: "setting d2 k = Some v" using setting_steps [OF assms(2), of d1] assms(3) by simp
  have "setting (Close d2) k = Some v" using s by (simp add: setting_def)
  from setting_Open [OF this assms(4)] s assms(5) show ?thesis by (simp add: GetSetting_eq)
qed

theorem setting_survives_reopening_witness:
  "let d1 = snd (SetSetting fine ''filter_enabled'' ''false'' (projr (Open fine_open empty_file)));
       d2 = db_step (fine, Call_AddWhitelist ''a.'' []) d1
   in GetSetting fine ''filter_enabled'' (projr (Open fine_open (Close d2))) = Inr ''false''"
proof -
  let ?d = "projr (Open fine_open empty_file)"
  let ?d1 = "snd (SetSetting fine ''filter_enabled'' ''false'' ?d)"
  let ?xs = "[(fine, Call_AddWhitelist ''a.'' [])]"
  have s: "SetSetting fine ''filter_enabled'' ''false'' ?d = (None, ?d1)"
    by (simp add: SetSetting_def Exec_def fine_def)
  have o: "Open fine_open (Close (fold db_step ?xs ?d1)) = Inr (projr (Open fine_open (Close (fold db_step ?xs ?d1))))"
    by (simp add: fine_Open)
  show ?thesis
    using setting_survives_reopening [OF s _ refl o, of fine] by (simp add: Let_def fine_def)
qed

section \<open>Upstreams\<close>

lemma insert_defaults_upstreams: "tUpstreams (insert_defaults sts i ks d) = tUpstreams d"
proof (induction ks arbitrary: i d)
  case (Cons k ks)
  have "tUpstreams (insert_default st k v d) = tUpstreams d" for st v
    by (simp add: insert_default_upsert)
  with Cons.IH show ?case by (simp split: option.split)
qed simp

lemma AddFailoverUpstream_listed:
  assumes "st_fail st = None"
  shows "a \<in> urAddress ` set (trows (tUpstreams (snd (AddFailoverUpstream st a p d))))"
  using assms by (auto simp: AddFailoverUpstream_def Exec_def LastInsertId_def insert_row_def image_iff)

lemma AddFailoverUpstream_mono:
  "set (trows (tUpstreams d)) \<subseteq> set (trows (tUpstreams (snd (AddFailoverUpstream st a p d))))"
  by (auto simp: AddFailoverUpstream_def Exec_def insert_row_def split: option.split)

lemma insert_upstreams_mono:
  "set (trows (tUpstreams d)) \<subseteq> set (trows (tUpstreams (insert_upstreams sts i p uss d)))"
proof (induction uss arbitrary: i p d)
  case (Cons us uss)
  show ?case
    using AddFailoverUpstream_mono [of d "sts i" us p] Cons.IH by (simp add: subset_trans)
qed simp

lemma insert_upstreams_listed:
  "\<forall>i. st_fail (sts i) = None \<Longrightarrow> a \<in> set uss \<Longrightarrow>
    a \<in> urAddress ` set (trows (tUpstreams (insert_upstreams sts i p uss d)))"
proof (induction uss arbitrary: i p d)
  case (Cons us uss)
  show ?case
  proof (cases "a = us")
    case True
    then have "a \<in> urAddress ` set (trows (tUpstreams (snd (AddFailoverUpstream (sts i) us p d))))"
      using Cons.prems(1) AddFailoverUpstream_listed by blast
    then show ?thesis
      using insert_upstreams_mono [of "snd (AddFailoverUpstream (sts i) us p d)" sts "Suc i" "p + 1" uss] by auto
  next
    case False
    with Cons show ?thesis by simp
  qed
qed simp

text \<open>
  C39: the default upstreams cannot be removed for good: whatever was deleted, after the next opening
  all three are in the table again.
\<close>
theorem default_upstreams_return:
  assumes "Open env f = Inr d" and "\<forall>i. st_fail (oe_stmts env i) = None"
  shows "{''8.8.8.8'', ''1.1.1.1'', ''9.9.9.9''} \<subseteq> urAddress ` set (trows (tUpstreams d))"
proof -
  have "a \<in> urAddress ` set (trows (tUpstreams d))" if "a \<in> set default_upstreams" for a
    unfolding Open_SomeD [OF assms(1)] initDefaults_def Let_def using assms(2) that
    by (rule insert_upstreams_listed)
  then show ?thesis by (simp add: default_upstreams_def)
qed

theorem default_upstreams_return_witness:
  "let d = projr (Open fine_open empty_file);
       d' = snd (RemoveFailoverUpstream fine 1 d)
   in ''8.8.8.8'' \<notin> urAddress ` set (trows (tUpstreams d'))
    \<and> ''8.8.8.8'' \<in> urAddress ` set (trows (tUpstreams (projr (Open fine_open (Close d')))))"
proof -
  let ?d = "projr (Open fine_open empty_file)"
  let ?d' = "snd (RemoveFailoverUpstream fine 1 ?d)"
  have o: "Open fine_open (Close ?d') = Inr (projr (Open fine_open (Close ?d')))" by (simp add: fine_Open)
  have "''8.8.8.8'' \<notin> urAddress ` set (trows (tUpstreams ?d'))" by code_simp
  moreover have "''8.8.8.8'' \<in> urAddress ` set (trows (tUpstreams (projr (Open fine_open (Close ?d')))))"
    using default_upstreams_return [OF o] by (simp add: fine_open_def fine_def)
  ultimately show ?thesis by (simp only: Let_def simp_thms)
qed

text \<open>
  Adding an address that is there already changes nothing and yet reports success, with the number
  of whatever row the connection inserted last.
\<close>

lemma duplicate_upstream_reports_success:
  assumes "address \<in> urAddress ` set (trows (tUpstreams d))" and "st_fail st = None"
  shows "AddFailoverUpstream st address priority d = (Inr (dbLastId d), d)"
  using assms by (simp add: AddFailoverUpstream_def Exec_def LastInsertId_def)

lemma duplicate_upstream_example:
  "let d = snd (AddWhitelist fine ''a.'' [] (projr (Open fine_open empty_file)))
   in map_sum id id (fst (AddFailoverUpstream fine ''9.9.9.9'' 0 d)) = Inr 1
    \<and> map urAddress (filter (\<lambda>r. urId r = 1) (trows (tUpstreams d))) = [''8.8.8.8'']"
  by code_simp

section \<open>Reading the lists\<close>

text \<open>A query that does not fail, with all rows, in some order.\<close>

definition complete :: "stmt \<Rightarrow> bool" where
  "complete st \<longleftrightarrow> st_fail st = None \<and> st_break st = None \<and> (\<forall>n. set (st_scan st n) = {..<n})"

lemma fine_complete [simp]: "complete fine"
  by (auto simp: complete_def fine_def)

lemma scan_set: "complete st \<Longrightarrow> set (scan st rs) = set rs"
  by (auto simp: scan_def complete_def in_set_conv_nth)

lemma fetch_complete: "complete st \<Longrightarrow> fetch st rs = Inr rs"
  by (simp add: fetch_def complete_def)

lemma read_domains:
  assumes "complete st"
  shows "\<exists>ds. GetWhitelistDomains st d = Inr ds \<and> set ds = deDomain ` set (trows (tWhitelist d))"
    and "\<exists>ds. GetBlacklistDomains st d = Inr ds \<and> set ds = deDomain ` set (trows (tBlacklist d))"
  using assms by (auto simp: GetWhitelistDomains_def GetBlacklistDomains_def fetch_complete scan_set)

lemma read_urls:
  assumes "complete st"
  shows "\<exists>us. GetEnabledBlocklistURLs st d = Inr us
    \<and> set us = bsURL ` {r \<in> set (trows (tSources d)). bsEnabled r = 1}"
  using assms by (auto simp: GetEnabledBlocklistURLs_def fetch_complete scan_set)

text \<open>The listings show the rows of the table, ordered as they say.\<close>

lemma GetBlocklistSources_sorted:
  assumes "complete st"
  shows "\<exists>rs. GetBlocklistSources st d = Inr rs \<and> sorted (map bsId rs)
    \<and> set rs = source_of_row ` set (trows (tSources d))"
proof -
  let ?rs = "sort_key bsId (scan st (trows (tSources d)))"
  have "map bsId (map source_of_row ?rs) = map bsId ?rs" by (simp add: source_of_row_def comp_def)
  then have "sorted (map bsId (map source_of_row ?rs))" by (simp only: sorted_sort_key)
  moreover have "GetBlocklistSources st d = Inr (map source_of_row ?rs)"
    by (simp add: GetBlocklistSources_def fetch_complete [OF assms])
  ultimately show ?thesis
    by (intro exI [of _ "map source_of_row ?rs"]) (simp add: scan_set [OF assms])
qed

end
