(* ===== verification/ServerStart.thy ===== *)
theory ServerStart
  imports Server Database
begin

text \<open>
  Making, starting and shutting down the server, \<^verbatim>\<open>New\<close>, \<^verbatim>\<open>Start\<close> and \<^verbatim>\<open>Shutdown\<close> of
  \<^verbatim>\<open>internal/server/server.go\<close>: which configuration and which stored data reach which component.
\<close>

section \<open>The program\<close>

text \<open>The server's components and its database, if that could be opened.\<close>

record program =
  prServer :: server
  prDb :: "db option"

text \<open>What making the server meets outside: files and lists to load, the clock, the database.\<close>

record new_env =
  ne_world :: filter_world
  ne_clock :: clock
  ne_open :: open_env
  ne_setting :: stmt
  ne_white :: stmt
  ne_black :: stmt
  ne_urls :: stmt

definition db_path :: "config \<Rightarrow> string" where
  "db_path cfg =
     (if FilePath (cfgPersistence cfg) \<noteq> [] then FilePath (cfgPersistence cfg) @ ''.db''
      else ''/var/lib/dns-server/dns-server.db'')"

section \<open>The stored filter data\<close>

definition apply_filter_setting :: "stmt \<Rightarrow> db \<Rightarrow> dns_filter \<Rightarrow> dns_filter" where
  "apply_filter_setting st d f =
     (case GetSetting st ''filter_enabled'' d of
        Inr val \<Rightarrow> if val \<noteq> [] then SetEnabled (val = ''true'') f else f
      | Inl err \<Rightarrow> f)"

definition load_whitelist :: "dns_lib \<Rightarrow> stmt \<Rightarrow> db \<Rightarrow> dns_filter \<Rightarrow> dns_filter" where
  "load_whitelist L st d f =
     (case GetWhitelistDomains st d of Inr wl \<Rightarrow> fold (AddToWhitelist L) wl f | Inl err \<Rightarrow> f)"

definition load_blacklist :: "dns_lib \<Rightarrow> stmt \<Rightarrow> db \<Rightarrow> dns_filter \<Rightarrow> dns_filter" where
  "load_blacklist L st d f =
     (case GetBlacklistDomains st d of Inr bl \<Rightarrow> fold (AddToBlacklist L) bl f | Inl err \<Rightarrow> f)"

definition load_urls :: "stmt \<Rightarrow> db \<Rightarrow> dns_filter \<Rightarrow> dns_filter" where
  "load_urls st d f =
     (case GetEnabledBlocklistURLs st d of
        Inr urls \<Rightarrow> if 0 < length urls then SetSources urls f else f
      | Inl err \<Rightarrow> f)"

definition load_filter :: "dns_lib \<Rightarrow> new_env \<Rightarrow> db \<Rightarrow> dns_filter \<Rightarrow> dns_filter" where
  "load_filter L env d f =
     (let f = apply_filter_setting (ne_setting env) d f;
          f = load_whitelist L (ne_white env) d f;
          f = load_blacklist L (ne_black env) d f;
          f = load_urls (ne_urls env) d f
      in if enabled f then ReloadIfNeeded f else f)"

section \<open>Making\<close>

text \<open>\<open>files\<close> gives the database at a path, empty where there is none.\<close>

definition New_server :: "dns_lib \<Rightarrow> new_env \<Rightarrow> (string \<Rightarrow> db_file) \<Rightarrow> config \<Rightarrow> program" where
  "New_server L env files cfg =
     (let cc = cfgCache cfg; rc = cfgRate cfg;
          dnsCache = New_cache (ccMaxSize cc) (ccMinTTL cc) (ccMaxTTL cc) (ccNegativeTTL cc) (ccPrefetchRatio cc);
          limiter = (if rlEnabled rc
            then Some (New_limiter (RequestsPerSec rc) (BurstSize rc) (rlCleanupInterval rc)) else None);
          f = New_filter (ne_world env) (cfgFilter cfg);
          database = (case Open (ne_open env) (files (db_path cfg)) of Inl err \<Rightarrow> None | Inr d \<Rightarrow> Some d)
      in \<lparr>prServer =
            \<lparr>srvCfg = cfg,
             srvResolver = \<lparr>rcache = dnsCache, tick = 0, prefetches = []\<rparr>,
             srvLimiter = limiter,
             srvMetrics = New_metrics (ne_clock env),
             srvFilter = (case database of None \<Rightarrow> f | Some d \<Rightarrow> load_filter L env d f),
             srvFailover = New_failover (cfgFailover cfg),
             srvLocal = New_localrecords L (cfgLocalRecords cfg),
             srvClients = (if cstEnabled (cfgClientStats cfg)
               then Some (New_tracker (cstMaxClients (cfgClientStats cfg))) else None)\<rparr>,
          prDb = database\<rparr>)"

section \<open>Starting and shutting down\<close>

text \<open>The goroutines \<^verbatim>\<open>Start\<close> launches, before the TCP server runs in its own.\<close>

datatype routine = AutoSave | ServeDashboard string | PrefetchLoop | WarmUp | ServeUDP string

record start_env =
  se_now :: time
  se_disk :: disk_env
  se_orders :: "nat \<Rightarrow> string fset \<Rightarrow> string list"
  se_clocks :: "nat \<Rightarrow> clock"
  se_tcp :: "go_error option"

definition listen_address :: "string \<Rightarrow> int \<Rightarrow> string" where
  "listen_address addr port = addr @ '':'' @ Itoa port"

definition restore_cache :: "dns_lib \<Rightarrow> start_env \<Rightarrow> disk \<Rightarrow> server \<Rightarrow> (go_error + nat) \<times> server" where
  "restore_cache L env dsk s =
     (if pcEnabled (cfgPersistence (srvCfg s)) then
        (let (n, c) = Load L (cfgPersistence (srvCfg s)) (se_disk env) (se_now env) dsk
               (store_in L (se_orders env) (se_clocks env)) (rcache (srvResolver s))
         in (n, s\<lparr>srvResolver := (srvResolver s)\<lparr>rcache := c\<rparr>\<rparr>))
      else (Inr 0, s))"

definition routines :: "config \<Rightarrow> routine list" where
  "routines cfg =
     (if pcEnabled (cfgPersistence cfg) \<and> 0 < SaveInterval (cfgPersistence cfg) then [AutoSave] else [])
     @ (if mcEnabled (cfgMetrics cfg)
        then [ServeDashboard (listen_address (mcListenAddr (cfgMetrics cfg)) (mcPort (cfgMetrics cfg)))] else [])
     @ [PrefetchLoop]
     @ (if cwEnabled (cfgCacheWarmup cfg) \<and> 0 < length (cwDomains (cfgCacheWarmup cfg)) then [WarmUp] else [])
     @ [ServeUDP (listen_address (ListenAddr (cfgServer cfg)) (UDPPort (cfgServer cfg)))]"

definition Start :: "dns_lib \<Rightarrow> start_env \<Rightarrow> disk \<Rightarrow> program \<Rightarrow> go_error option \<times> routine list \<times> program" where
  "Start L env dsk p =
     (let (restored, s) = restore_cache L env dsk (prServer p)
      in (map_option (\<lambda>e. ''TCP server failed: '' @ e) (se_tcp env), routines (srvCfg s), p\<lparr>prServer := s\<rparr>))"

text \<open>
  \<^verbatim>\<open>Shutdown\<close>: the goroutine of the automatic saves, if there is one, saves a last time while the
  program exits, so only some of the disk steps may happen; the database is closed.
\<close>

definition Shutdown :: "dns_lib \<Rightarrow> disk_env \<Rightarrow> time \<Rightarrow> (string fset \<Rightarrow> string list) \<Rightarrow> clock \<Rightarrow> program
    \<Rightarrow> disk_step list \<times> db_file option" where
  "Shutdown L env now ord clk p =
     (let cfg = srvCfg (prServer p) in
      (if AutoSave \<in> set (routines cfg)
       then snd (Save (cfgPersistence cfg) env now (Some (GetEntries L ord clk (rcache (srvResolver (prServer p))))))
       else [],
       map_option Close (prDb p)))"

end
