(* ===== verification/ServerRuns.thy ===== *)
theory ServerRuns
  imports ServerCorrect ServerStart DatabaseCorrect
begin

text \<open>
  Sequences of queries: whatever is asked, every query is answered and all tables of the server
  stay within their bounds. The invariant of the server is the conjunction of the invariants that
  the theories of the components prove, and rests on the interpretations of \<open>bounded_table\<close> there.
\<close>

section \<open>The invariant of the server\<close>

definition metrics_ok :: "metrics \<Rightarrow> bool" where
  "metrics_ok m \<longleftrightarrow> domainCountsMax m = 10000 \<and> queryLogMax m = 500 \<and> table_ok m \<and> mlen (domainCounts m) \<le> 10000
     \<and> counters_ok m \<and> ring_ok m \<and> length (qpsHistory m) \<le> max_qps_points"

definition client_limit :: "config \<Rightarrow> int" where
  "client_limit cfg = (let n = cstMaxClients (cfgClientStats cfg) in if n \<le> 0 then 10000 else n)"

definition clients_ok :: "int \<Rightarrow> tracker option \<Rightarrow> bool" where
  "clients_ok n cs \<longleftrightarrow>
     (\<forall>t. cs = Some t \<longrightarrow> tracker_ok t \<and> mlen (clients t) \<le> nat n \<and> maxClients t = n)"

definition server_ok :: "server \<Rightarrow> bool" where
  "server_ok s \<longleftrightarrow> cache_inv (rcache (srvResolver s))
     \<and> maxSize (rcache (srvResolver s)) = ccMaxSize (cfgCache (srvCfg s))
     \<and> filter_ok (srvFilter s) \<and> mlen (blockedCounts (srvFilter s)) \<le> max_blocked_counts
     \<and> metrics_ok (srvMetrics s) \<and> clients_ok (client_limit (srvCfg s)) (srvClients s)"

text \<open>
  What a query brings: iterations of maps are enumerations, clocks do not run backwards, the
  client has an address, and the names asked for are not empty (the wire format has no empty name).
\<close>

definition env_fair :: "query_env \<Rightarrow> bool" where
  "env_fair env \<longleftrightarrow> enumerates (q_filter_order env) \<and> enumerates (q_domain_order env)
     \<and> enumerates (q_client_order env) \<and> env_ok (q_resolver env) \<and> joined_sane (q_resolver env)"

definition query_ok :: "query \<Rightarrow> bool" where
  "query_ok x \<longleftrightarrow> (case x of (env, addr, r) \<Rightarrow>
     env_fair env \<and> extractClientIP addr \<noteq> [] \<and> (\<forall>q \<in> set (Question r). qName q \<noteq> []))"

section \<open>The components keep it\<close>

lemma count_query_frame [simp]:
  "counters_ok (count_query ord d lat m) = counters_ok m" "ring_ok (count_query ord d lat m) = ring_ok m"
  using count_query_domains [of ord d lat m] by (auto simp: counters_ok_def ring_ok_def)

lemma qpsHistory_keeps [simp]:
  "qpsHistory (count_query ord d lat m) = qpsHistory m" "qpsHistory (push_log e m) = qpsHistory m"
  "qpsHistory (RecordQuery p rc lat m) = qpsHistory m"
  using count_query_domains [of ord d lat m] by (auto simp: push_log_def RecordQuery_def Let_def)

lemma push_log_keeps [simp]:
  "table_ok (push_log e m) = table_ok m" "counters_ok (push_log e m) = counters_ok m"
  "domainCounts (push_log e m) = domainCounts m" "domainCountsMax (push_log e m) = domainCountsMax m"
  by (simp_all add: push_log_def table_ok_def counters_ok_def)

lemma RecordQuery_keeps [simp]:
  "table_ok (RecordQuery p rc lat m) = table_ok m" "ring_ok (RecordQuery p rc lat m) = ring_ok m"
  by (simp_all add: table_ok_def ring_ok_def)

lemma count_RateLimited_ok [simp]: "metrics_ok (count_RateLimited m) = metrics_ok m"
  by (simp add: metrics_ok_def count_RateLimited_def table_ok_def counters_ok_def ring_ok_def)

lemma RecordQueryDetail_max:
  "domainCountsMax (RecordQueryDetail ord now ip d ty rc p lat c m) = domainCountsMax m"
  "queryLogMax (RecordQueryDetail ord now ip d ty rc p lat c m) = queryLogMax m"
proof -
  have "domainCountsMax (count_query ord d lat m') = domainCountsMax m'"
    "queryLogMax (count_query ord d lat m') = queryLogMax m'" for m'
    using count_query_domains [of ord d lat m'] by auto
  then show "domainCountsMax (RecordQueryDetail ord now ip d ty rc p lat c m) = domainCountsMax m"
    "queryLogMax (RecordQueryDetail ord now ip d ty rc p lat c m) = queryLogMax m"
    by (simp_all add: RecordQueryDetail_def)
qed

lemma RecordQueryDetail_ok:
  assumes "metrics_ok m" and "enumerates ord" and "d \<noteq> []"
  shows "metrics_ok (RecordQueryDetail ord now ip d ty rc p lat c m)"
proof -
  let ?e = "\<lparr>Timestamp = now, qlClientIP = ip, qlDomain = d, qlQueryType = ty, qlRcode = rc,
      qlLatencyMs = of_int (go_div lat microsecond) / 1000, qlCached = c, qlProtocol = p\<rparr>"
  have t: "touch_ok (ord, d, lat)" using assms by (simp add: touch_ok_def)
  have m: "table_ok (push_log ?e m)" "mlen (domainCounts (push_log ?e m)) \<le> nat (domainCountsMax (push_log ?e m))"
    using assms(1) by (simp_all add: metrics_ok_def)
  have q: "count_query ord d lat m' = touch_domain (ord, d, lat) m'" for m' by (simp add: touch_domain_def)
  have "table_ok (count_query ord d lat (push_log ?e m))"
    unfolding q using m(1) t by (rule domain_table.touch_good)
  moreover have "mlen (domainCounts (count_query ord d lat (push_log ?e m)))
      \<le> nat (domainCountsMax (count_query ord d lat (push_log ?e m)))"
    unfolding q domain_table.touch_cap using m(1) t m(2) by (rule domain_table.touch_len)
  ultimately show ?thesis using assms(1)
    using RecordQueryDetail_max [of ord now ip d ty rc p lat c m]
    by (simp add: metrics_ok_def RecordQueryDetail_def push_log_ok)
qed

lemma RecordQuery_ok: "metrics_ok m \<Longrightarrow> metrics_ok (RecordQuery (protocol_of addr) rc lat m)"
  by (cases addr) (simp_all add: metrics_ok_def MetricsCorrect.RecordQuery_counters protocol_of_def)

lemma RecordClient_ok:
  assumes "clients_ok n cs" and "enumerates ord" and "ip \<noteq> []"
  shows "clients_ok n (map_option (RecordClient ord clk ip d b lat) cs)"
proof (cases cs)
  case None
  then show ?thesis by (simp add: clients_ok_def)
next
  case (Some t)
  have x: "seen_ok (ord, clk, ip, d, b, lat)" using assms by (simp add: seen_ok_def)
  have q: "RecordClient ord clk ip d b lat t = record_seen (ord, clk, ip, d, b, lat) t"
    by (simp add: record_seen_def)
  have "maxClients (RecordClient ord clk ip d b lat t) = maxClients t" by (simp add: RecordClient_eq)
  moreover from assms(1) Some have t: "tracker_ok t" "mlen (clients t) \<le> nat (maxClients t)"
    by (simp_all add: clients_ok_def)
  have "tracker_ok (RecordClient ord clk ip d b lat t)"
    unfolding q using t(1) x by (rule client_table.touch_good)
  moreover have "mlen (clients (RecordClient ord clk ip d b lat t)) \<le> nat (maxClients (RecordClient ord clk ip d b lat t))"
    unfolding q client_table.touch_cap using t(1) x t(2) by (rule client_table.touch_len)
  ultimately show ?thesis using Some assms(1) by (simp add: clients_ok_def)
qed

lemma account_ok:
  assumes "server_ok s" and "env_fair env" and "extractClientIP addr \<noteq> []" and "qName q \<noteq> []"
  shows "server_ok (account L env addr q rc lb ch bl s)"
proof -
  have "metrics_ok (srvMetrics (account L env addr q rc lb ch bl s))"
    using assms by (auto simp: account_def Let_def server_ok_def env_fair_def
        intro!: RecordQueryDetail_ok RecordQuery_ok)
  moreover have "clients_ok (client_limit (srvCfg s)) (srvClients (account L env addr q rc lb ch bl s))"
    using assms by (auto simp: account_def Let_def server_ok_def env_fair_def intro!: RecordClient_ok)
  ultimately show ?thesis using assms(1) by (simp add: server_ok_def)
qed

lemma filtered_ok:
  assumes "server_ok s" and "env_fair env" and "names_ok L"
  shows "server_ok (filtered L env addr q s)"
proof -
  let ?x = "(L, q_filter_order env, qName q)"
  have x: "askable ?x" using assms by (simp add: askable_def env_fair_def)
  have "srvFilter (filtered L env addr q s) = ask ?x (srvFilter s)"
    by (simp add: filtered_def ask_def)
  then show ?thesis
    using assms(1) ask_ok [OF _ x, of "srvFilter s"] ask_bounded [OF _ x, of "srvFilter s"]
    by (simp add: server_ok_def)
qed

text \<open>The size of the cache is part of the state's contract as well.\<close>

definition sized_ok :: "resolver_env \<Rightarrow> int \<Rightarrow> rstate \<Rightarrow> bool" where
  "sized_ok env n st \<longleftrightarrow> state_ok env st \<and> maxSize (rcache st) = n"

interpretation sized: resolver_state L env "sized_ok env n" "good_if_library L" for L env n
proof unfold_locales
  fix st i n' t q mo j
  show "sized_ok env n st \<Longrightarrow> sized_ok env n (tock st)"
    using recursion.inv_tock [of env st] by (simp add: sized_ok_def tock_def)
  show "sized_ok env n st \<Longrightarrow> sized_ok env n (st\<lparr>rcache := snd (Get L (clocks env i) n' t q (rcache st))\<rparr>)"
    using recursion.inv_get [of env st] by (simp add: sized_ok_def cache_frame)
  show "sized_ok env n st \<Longrightarrow>
      sized_ok env n (st\<lparr>rcache := Set L (orders env i) (clocks env j) n' t q mo (rcache st)\<rparr>)"
    using recursion.inv_set [of env st] by (simp add: sized_ok_def cache_frame)
qed (fact recursion.good_build recursion.good_alias)+

lemma resolve_query_ok:
  assumes "server_ok s" and "env_fair env"
  shows "server_ok (snd (resolve_query L env q s))"
proof -
  have "sized_ok (q_resolver env) (ccMaxSize (cfgCache (srvCfg s))) (srvResolver s)"
    using assms by (simp add: sized_ok_def state_ok_def server_ok_def env_fair_def)
  from sized.Resolve_inv [OF this, of L "cfgResolver (srvCfg s)" "qName q" "qType q" "qClass q"]
  have "sized_ok (q_resolver env) (ccMaxSize (cfgCache (srvCfg s))) (srvResolver (snd (resolve_query L env q s)))"
    by (auto simp: resolve_query_def Let_def sized_ok_def state_ok_def split: prod.splits sum.splits option.splits)
  then show ?thesis using assms(1) by (simp add: server_ok_def sized_ok_def state_ok_def)
qed

lemma checked_ok: "server_ok s \<Longrightarrow> server_ok (checked env addr s)"
  by (simp add: server_ok_def)

lemma handled_ok:
  assumes "handled L env addr r s m s'" and "server_ok s" and "query_ok (env, addr, r)" and "names_ok L"
  shows "server_ok s'"
proof -
  have e: "env_fair env" "extractClientIP addr \<noteq> []" and n: "q \<in> set (Question r) \<Longrightarrow> qName q \<noteq> []" for q
    using assms(3) by (simp_all add: query_ok_def)
  have f: "server_ok (filtered L env addr q s)" for q by (rule filtered_ok [OF assms(2) e(1) assms(4)])
  from assms(1) show ?thesis
  proof cases
    case refused
    with checked_ok [OF assms(2), of env addr] show ?thesis by (simp add: server_ok_def)
  next
    case malformed
    with checked_ok [OF assms(2)] show ?thesis by simp
  next
    case (filter_hit q qs)
    with account_ok [OF f e] n show ?thesis by simp
  next
    case (local_hit q qs x)
    with account_ok [OF f e] n show ?thesis by simp
  next
    case (failed q qs mo cached err s2)
    with resolve_query_ok [OF f [of q] e(1), of L q] have "server_ok s2" by simp
    from account_ok [OF this e] failed n show ?thesis by simp
  next
    case (resolved q qs x cached s2)
    with resolve_query_ok [OF f [of q] e(1), of L q] have "server_ok s2" by simp
    from account_ok [OF this e] resolved n show ?thesis by simp
  qed
qed

lemma handleDNS_ok:
  assumes "server_ok s" and "query_ok (env, addr, r)" and "names_ok L"
  obtains m s' where "handleDNS L env addr r s = Some (m, s')" and "server_ok s'"
proof -
  have "joined_sane (q_resolver env)" using assms(2) by (simp add: query_ok_def env_fair_def)
  then obtain m s' where h: "handleDNS L env addr r s = Some (m, s')" using handleDNS_defined by blast
  from this handled_ok [OF handleDNS_handled [OF h] assms] show thesis by (rule that)
qed

section \<open>Runs\<close>

lemma serve_ok:
  assumes "server_ok s" and "\<forall>x \<in> set qs. query_ok x" and "names_ok L"
  shows "\<exists>ms s'. serve L qs s = Some (ms, s') \<and> length ms = length qs \<and> server_ok s'"
  using assms(1,2)
proof (induction qs arbitrary: s)
  case Nil
  then show ?case by simp
next
  case (Cons x qs)
  obtain env addr r where x: "x = (env, addr, r)" by (cases x)
  with Cons.prems(2) have "query_ok (env, addr, r)" by simp
  then obtain m s1 where h: "handleDNS L env addr r s = Some (m, s1)" "server_ok s1"
    using handleDNS_ok [OF Cons.prems(1) _ assms(3)] by blast
  from Cons.IH [OF h(2)] Cons.prems(2) obtain ms s' where
    "serve L qs s1 = Some (ms, s')" "length ms = length qs" "server_ok s'" by auto
  with x h show ?case by simp
qed

lemma handled_cfg: "handled L env addr r s m s' \<Longrightarrow> srvCfg s' = srvCfg s"
proof (induction rule: handled.induct)
  case (failed q qs mo cached e s')
  then show ?case using resolve_query_frame(1) [of L env q "filtered L env addr q s"] by simp
next
  case (resolved q qs x cached s' m)
  then show ?case using resolve_query_frame(1) [of L env q "filtered L env addr q s"] by simp
qed simp_all

lemma handled_local: "handled L env addr r s m s' \<Longrightarrow> srvLocal s' = srvLocal s"
proof (induction rule: handled.induct)
  case (failed q qs mo cached e s')
  then show ?case using resolve_query_frame(5) [of L env q "filtered L env addr q s"] by simp
next
  case (resolved q qs x cached s' m)
  then show ?case using resolve_query_frame(5) [of L env q "filtered L env addr q s"] by simp
qed simp_all

lemma serve_cfg: "serve L qs s = Some (ms, s') \<Longrightarrow> srvCfg s' = srvCfg s"
  by (induction L qs s arbitrary: ms s' rule: serve.induct)
    (auto dest!: handled_cfg handleDNS_handled split: option.splits)

section \<open>From the start\<close>

text \<open>What the database contributes to the filter is a run of filter operations.\<close>

lemma load_filter_steps:
  "\<exists>es. load_filter L env d f = fold (filter_step L ord) es f"
proof -
  have steps: "\<exists>es. g = fold (filter_step L ord) es f0" if "\<exists>es. f1 = fold (filter_step L ord) es f0"
    "\<exists>es. g = fold (filter_step L ord) es f1" for f0 f1 g
    using that by (metis fold_append comp_apply)
  have none: "\<exists>es. f = fold (filter_step L ord) es f" for f by (rule exI [of _ "[]"]) simp
  have one: "\<exists>es. filter_step L ord e f = fold (filter_step L ord) es f" for e f
    by (rule exI [of _ "[e]"]) simp
  have white: "fold (AddToWhitelist L) ds f = fold (filter_step L ord) (map Whitelist_add ds) f" for ds f
    by (induction ds arbitrary: f) (simp_all add: filter_step_def)
  have black: "fold (AddToBlacklist L) ds f = fold (filter_step L ord) (map Blacklist_add ds) f" for ds f
    by (induction ds arbitrary: f) (simp_all add: filter_step_def)
  have 1: "\<exists>es. apply_filter_setting st d f = fold (filter_step L ord) es f" for st f
    using none one [of "Enable b" for b] by (auto simp: apply_filter_setting_def filter_step_def split: sum.split)
  have 2: "\<exists>es. load_whitelist L st d f = fold (filter_step L ord) es f" for st f
    using none white by (auto simp: load_whitelist_def split: sum.split)
  have 3: "\<exists>es. load_blacklist L st d f = fold (filter_step L ord) es f" for st f
    using none black by (auto simp: load_blacklist_def split: sum.split)
  have 4: "\<exists>es. load_urls st d f = fold (filter_step L ord) es f" for st f
    using none one [of "Set_sources u" for u] by (auto simp: load_urls_def filter_step_def split: sum.split)
  have 5: "\<exists>es. (if enabled f then ReloadIfNeeded f else f) = fold (filter_step L ord) es f" for f
    using none one [of Reload f] by (simp add: filter_step_def)
  show ?thesis unfolding load_filter_def Let_def
    by (rule steps [OF steps [OF steps [OF steps [OF 1 2] 3] 4] 5])
qed

lemma New_server_ok:
  assumes "1 \<le> ccMaxSize (cfgCache cfg)" and "names_ok L"
  shows "server_ok (prServer (New_server L env files cfg))"
proof -
  have f: "filter_ok (srvFilter (prServer (New_server L env files cfg)))
      \<and> mlen (blockedCounts (srvFilter (prServer (New_server L env files cfg)))) \<le> max_blocked_counts"
  proof (cases "Open (ne_open env) (files (db_path cfg))")
    case (Inr d)
    obtain es where "load_filter L env d (New_filter (ne_world env) (cfgFilter cfg))
        = fold (filter_step L sorted_list_of_fset) es (New_filter (ne_world env) (cfgFilter cfg))"
      using load_filter_steps by blast
    with Inr filter_steps_ok [OF assms(2) enumerates_sorted New_filter_ok] show ?thesis
      by (simp add: New_server_def Let_def)
  qed (simp add: New_server_def Let_def New_filter_ok)
  have m: "metrics_ok (New_metrics clk)" for clk
    by (simp add: metrics_ok_def New_metrics_counters New_metrics_ring table_ok_def)
      (simp add: New_metrics_def fcard_fempty)
  have c: "tracker_ok (New_tracker n) \<and> clients (New_tracker n) = fmempty
      \<and> maxClients (New_tracker n) = (if n \<le> 0 then 10000 else n)" for n
    by (simp add: New_tracker_ok) (simp add: New_tracker_def)
  have "cache_inv (New_cache (ccMaxSize (cfgCache cfg)) mn mx ng ra)" for mn mx ng ra
    using assms(1) by (rule New_cache_inv)
  with f show ?thesis
    by (simp add: server_ok_def New_server_def Let_def m clients_ok_def client_limit_def c fcard_fempty)
      (simp add: New_cache_def)
qed

lemma restore_inv:
  assumes "cache_inv c" and "\<forall>i. enumerates (ords i) \<and> mono (clks i)"
  shows "cache_inv (snd (restore L (store_in L ords clks) now es i c))
    \<and> maxSize (snd (restore L (store_in L ords clks) now es i c)) = maxSize c"
  using assms(1)
proof (induction es arbitrary: i c)
  case (Cons e es)
  have "cache_inv (store_in L ords clks i n t q m c)" "maxSize (store_in L ords clks i n t q m c) = maxSize c"
    for n t q m
    using Cons.prems assms(2) by (simp_all add: store_in_def Set_inv cache_frame)
  with Cons show ?case by (auto split: sum.split)
qed simp

definition start_fair :: "start_env \<Rightarrow> bool" where
  "start_fair env \<longleftrightarrow> (\<forall>i. enumerates (se_orders env i) \<and> mono (se_clocks env i))"

lemma Start_ok:
  assumes "server_ok (prServer p)" and "start_fair env" and "Start L env dsk p = (err, rs, p')"
  shows "server_ok (prServer p') \<and> srvCfg (prServer p') = srvCfg (prServer p)"
proof -
  let ?s = "prServer p" and ?c = "rcache (srvResolver (prServer p))"
  let ?store = "store_in L (se_orders env) (se_clocks env)"
  have c: "cache_inv (snd (Persistence.Load L pcfg denv now dsk ?store ?c))
      \<and> maxSize (snd (Persistence.Load L pcfg denv now dsk ?store ?c)) = maxSize ?c" for pcfg denv now
    using assms(1,2) restore_inv [of ?c "se_orders env" "se_clocks env"]
    by (auto simp: Persistence.Load_def server_ok_def start_fair_def split: option.split disk_file.split prod.split)
      (metis snd_conv)+
  have "prServer p' = snd (restore_cache L env dsk ?s)"
    using assms(3) by (auto simp: Start_def Let_def split: prod.splits)
  with assms(1) c [of "cfgPersistence (srvCfg ?s)" "se_disk env" "se_now env"] show ?thesis
    by (auto simp: restore_cache_def server_ok_def Let_def split: prod.split if_splits)
qed

definition fine_new :: new_env where
  "fine_new = \<lparr>ne_world = sample_world, ne_clock = (\<lambda>i. 0), ne_open = fine_open, ne_setting = fine,
     ne_white = fine, ne_black = fine, ne_urls = fine\<rparr>"

definition fine_start :: start_env where
  "fine_start = \<lparr>se_now = 0, se_disk = fine_disk, se_orders = (\<lambda>i. sorted_list_of_fset),
     se_clocks = (\<lambda>i j. 0), se_tcp = None\<rparr>"

lemma ask_example_ok: "w \<noteq> (None, None) \<Longrightarrow> query_ok (plain_env w u, UDPAddr [192, 0, 2, 1], ask_example)"
  using sample_env_ok [of "\<lambda>_ _ _. Inl []"]
  by (auto simp: query_ok_def env_fair_def plain_env_def joined_sane_def env_ok_def ask_example_def
      extractClientIP_def IPString_def To4_def v4_string_def)

end
