(* ===== verification/StartCorrect.thy ===== *)
theory StartCorrect
  imports ServerRuns
begin

text \<open>
  What a start makes of the configuration and of the stored data: the lists in the database reach the
  filter, the stored switch wins over the configured one, and what the database says about upstreams
  and local records reaches nothing.
\<close>

section \<open>The filter after the start\<close>

definition canon :: "dns_lib \<Rightarrow> string \<Rightarrow> string" where
  "canon L d = ToLower (CanonicalName L d)"

lemma fold_AddToWhitelist:
  "fold (AddToWhitelist L) ds f = f\<lparr>whitelist := canon L |`| fset_of_list ds |\<union>| whitelist f\<rparr>"
  by (induction ds arbitrary: f) (simp_all add: AddToWhitelist_def canon_def)

lemma fold_AddToBlacklist:
  "fold (AddToBlacklist L) ds f = f\<lparr>blacklist := canon L |`| fset_of_list ds |\<union>| blacklist f\<rparr>"
  by (induction ds arbitrary: f) (simp_all add: AddToBlacklist_def canon_def)

lemma apply_filter_setting_frame [simp]:
  "whitelist (apply_filter_setting st d f) = whitelist f" "blacklist (apply_filter_setting st d f) = blacklist f"
  "blocked_names (apply_filter_setting st d f) = blocked_names f"
  by (simp_all add: apply_filter_setting_def SetEnabled_def start_load_def startAutoUpdate_def Let_def
      split: sum.split)

lemma load_whitelist_frame [simp]:
  "enabled (load_whitelist L st d f) = enabled f" "blacklist (load_whitelist L st d f) = blacklist f"
  "sources (load_whitelist L st d f) = sources f"
  by (simp_all add: load_whitelist_def fold_AddToWhitelist split: sum.split)

lemma load_blacklist_frame [simp]:
  "enabled (load_blacklist L st d f) = enabled f" "whitelist (load_blacklist L st d f) = whitelist f"
  "sources (load_blacklist L st d f) = sources f"
  by (simp_all add: load_blacklist_def fold_AddToBlacklist split: sum.split)

lemma load_urls_frame [simp]:
  "enabled (load_urls st d f) = enabled f" "whitelist (load_urls st d f) = whitelist f"
  "blacklist (load_urls st d f) = blacklist f"
  by (simp_all add: load_urls_def SetSources_def split: sum.split)

lemma ReloadIfNeeded_frame [simp]:
  "enabled (ReloadIfNeeded f) = enabled f" "whitelist (ReloadIfNeeded f) = whitelist f"
  "blacklist (ReloadIfNeeded f) = blacklist f" "sources (ReloadIfNeeded f) = sources f"
  by (simp_all add: ReloadIfNeeded_def start_load_def)

lemma load_filter_fields:
  "enabled (load_filter L env d f) = enabled (apply_filter_setting (ne_setting env) d f)"
  "whitelist (load_filter L env d f) = whitelist (load_whitelist L (ne_white env) d f)"
  "blacklist (load_filter L env d f) = blacklist (load_blacklist L (ne_black env) d f)"
proof -
  have w: "whitelist (load_whitelist L st d f1) = whitelist (load_whitelist L st d f2)"
    if "whitelist f1 = whitelist f2" for st f1 f2
    using that by (simp add: load_whitelist_def fold_AddToWhitelist split: sum.split)
  have b: "blacklist (load_blacklist L st d f1) = blacklist (load_blacklist L st d f2)"
    if "blacklist f1 = blacklist f2" for st f1 f2
    using that by (simp add: load_blacklist_def fold_AddToBlacklist split: sum.split)
  show "enabled (load_filter L env d f) = enabled (apply_filter_setting (ne_setting env) d f)"
    by (simp add: load_filter_def Let_def)
  show "whitelist (load_filter L env d f) = whitelist (load_whitelist L (ne_white env) d f)"
    by (simp add: load_filter_def Let_def) (rule w, simp)
  show "blacklist (load_filter L env d f) = blacklist (load_blacklist L (ne_black env) d f)"
    by (simp add: load_filter_def Let_def) (rule b, simp)
qed

lemma New_server_filter:
  "Open (ne_open env) (files (db_path cfg)) = Inr d \<Longrightarrow>
     srvFilter (prServer (New_server L env files cfg)) = load_filter L env d (New_filter (ne_world env) (cfgFilter cfg))"
  by (simp add: New_server_def Let_def)

section \<open>The switch\<close>

lemma apply_filter_setting_enabled:
  assumes "st_fail st = None" and "setting d ''filter_enabled'' = Some v" and "v \<noteq> []"
  shows "enabled (apply_filter_setting st d f) = (v = ''true'')"
  using assms by (simp add: apply_filter_setting_def GetSetting_eq SetEnabled_def start_load_def
      startAutoUpdate_def Let_def)

text \<open>
  C40: the configured switch of the filter never counts once the database opens: the stored setting
  decides, and because opening the database stores \<^verbatim>\<open>true\<close> when there is none, a new installation
  filters although its configuration says \<^verbatim>\<open>enabled: false\<close>.
\<close>
theorem configured_switch_is_ignored:
  assumes "Open (ne_open env) (files (db_path cfg)) = Inr d" and "\<forall>i. st_fail (oe_stmts (ne_open env) i) = None"
    and "enumerates (oe_order (ne_open env))" and "st_fail (ne_setting env) = None"
    and "setting (files (db_path cfg)) ''filter_enabled'' \<noteq> Some []"
  shows "enabled (srvFilter (prServer (New_server L env files cfg))) \<longleftrightarrow>
    setting (files (db_path cfg)) ''filter_enabled'' \<in> {None, Some ''true''}"
proof (cases "setting (files (db_path cfg)) ''filter_enabled''")
  case None
  have "fmlookup default_settings ''filter_enabled'' = Some ''true''" by (simp add: default_settings_def)
  then have "setting d ''filter_enabled'' = Some ''true''"
    using Open_default [OF assms(1-3) None] by simp
  from apply_filter_setting_enabled [OF assms(4) this] None show ?thesis
    by (simp add: New_server_filter [where files = files and cfg = cfg, OF assms(1)] load_filter_fields)
next
  case (Some v)
  from apply_filter_setting_enabled [OF assms(4) setting_Open [OF Some assms(1)]] assms(5) Some show ?thesis
    by (simp add: New_server_filter [where files = files and cfg = cfg, OF assms(1)] load_filter_fields)
qed

text \<open>A configuration that turns the filter off, on a machine without a database.\<close>

definition filter_off :: config where
  "filter_off = DefaultConfig\<lparr>cfgFilter := DefaultFilterConfig\<lparr>fcEnabled := False\<rparr>\<rparr>"

theorem configured_switch_is_ignored_witness:
  "\<not> fcEnabled (cfgFilter filter_off)
   \<and> enabled (srvFilter (prServer (New_server sample_lib fine_new (\<lambda>path. empty_file) filter_off)))"
proof -
  have o: "Open (ne_open fine_new) ((\<lambda>path. empty_file) (db_path filter_off))
      = Inr (initDefaults sorted_list_of_fset (\<lambda>i. fine) (connect empty_file))"
    by (simp add: fine_new_def fine_Open)
  have n: "setting empty_file k = None" for k by (simp add: setting_def empty_file_def)
  show ?thesis
    using configured_switch_is_ignored [where files = "\<lambda>path. empty_file" and cfg = filter_off, OF o, of sample_lib]
    by (simp add: n fine_new_def fine_open_def fine_def filter_off_def)
qed

section \<open>The lists\<close>

lemma stored_whitelist:
  assumes "Open (ne_open env) (files (db_path cfg)) = Inr d" and "complete (ne_white env)"
  shows "fset (whitelist (srvFilter (prServer (New_server L env files cfg))))
    = fset (whitelist (New_filter (ne_world env) (cfgFilter cfg)))
      \<union> (\<lambda>r. canon L (deDomain r)) ` set (trows (tWhitelist d))"
proof -
  obtain ws where "GetWhitelistDomains (ne_white env) d = Inr ws" "set ws = deDomain ` set (trows (tWhitelist d))"
    using read_domains(1) [OF assms(2), of d] by blast
  then show ?thesis
    unfolding New_server_filter [where files = files and cfg = cfg, OF assms(1)] load_filter_fields
    by (auto simp: load_whitelist_def fold_AddToWhitelist fset_of_list.rep_eq)
qed

lemma stored_blacklist:
  assumes "Open (ne_open env) (files (db_path cfg)) = Inr d" and "complete (ne_black env)"
  shows "fset (blacklist (srvFilter (prServer (New_server L env files cfg))))
    = fset (blacklist (New_filter (ne_world env) (cfgFilter cfg)))
      \<union> (\<lambda>r. canon L (deDomain r)) ` set (trows (tBlacklist d))"
proof -
  obtain bs where "GetBlacklistDomains (ne_black env) d = Inr bs" "set bs = deDomain ` set (trows (tBlacklist d))"
    using read_domains(2) [OF assms(2), of d] by blast
  then show ?thesis
    unfolding New_server_filter [where files = files and cfg = cfg, OF assms(1)] load_filter_fields
    by (auto simp: load_blacklist_def fold_AddToBlacklist fset_of_list.rep_eq)
qed


definition one_listed :: db_file where
  "one_listed = Close (snd (AddWhitelist fine ''Example.COM'' [] (connect empty_file)))"


section \<open>What is stored in vain\<close>

text \<open>
  The tables of upstreams and local records and all settings but the filter's switch are written
  and never read at a start: those components are the same whatever the database holds.
\<close>

lemma start_ignores_stored_upstreams_and_records:
  "srvFailover (prServer (New_server L env files cfg)) = New_failover (cfgFailover cfg)"
  "srvLocal (prServer (New_server L env files cfg)) = New_localrecords L (cfgLocalRecords cfg)"
  by (simp_all add: New_server_def Let_def)

end
