(* ===== verification/Http.thy ===== *)
theory Http
  imports GoNet DnsMsg
begin

text \<open>
  What the dashboard uses of \<^verbatim>\<open>net/http\<close> and \<^verbatim>\<open>encoding/json\<close>: requests and responses, the decoding
  of request bodies into the structures of the handlers, query parameters, the cleaning of paths.
  A body arrives parsed, as a JSON value, or with the error of the parser; what \<^verbatim>\<open>Encode\<close> would write
  is the Go value itself (the payload type belongs to the dashboard).
\<close>

section \<open>Requests and responses\<close>

datatype json =
    JNull
  | JBool bool
  | JInt int
  | JFrac rat
  | JStr string
  | JArr "json list"
  | JObj "(string \<times> json) list"

record http_request =
  rqMethod :: string
  rqPath :: string
  rqQuery :: "(string \<times> string) list"
  rqBasicAuth :: "(string \<times> string) option"
  rqBody :: "go_error + json"

record 'p http_response =
  rsStatus :: int
  rsHeaders :: "(string, string) fmap"
  rsBody :: "'p option"

text \<open>A response before anything is written, \<^verbatim>\<open>Header().Set\<close>, and \<^verbatim>\<open>Encode\<close>.\<close>

definition blank_response :: "'p http_response" where
  "blank_response = \<lparr>rsStatus = 200, rsHeaders = fmempty, rsBody = None\<rparr>"

definition set_header :: "string \<Rightarrow> string \<Rightarrow> 'p http_response \<Rightarrow> 'p http_response" where
  "set_header k v w = w\<lparr>rsHeaders := fmupd k v (rsHeaders w)\<rparr>"

definition encode :: "'p \<Rightarrow> 'p http_response \<Rightarrow> 'p http_response" where
  "encode v w = w\<lparr>rsBody := Some v\<rparr>"

text \<open>\<^verbatim>\<open>http.Error\<close>, where \<open>mk\<close> makes a payload of the message.\<close>

definition http_error :: "(string \<Rightarrow> 'p) \<Rightarrow> string \<Rightarrow> int \<Rightarrow> 'p http_response \<Rightarrow> 'p http_response" where
  "http_error mk message code w =
     (set_header ''X-Content-Type-Options'' ''nosniff''
       (set_header ''Content-Type'' ''text/plain; charset=utf-8'' w))
       \<lparr>rsStatus := code, rsBody := Some (mk message)\<rparr>"

section \<open>Query parameters\<close>

definition query_get :: "http_request \<Rightarrow> string \<Rightarrow> string" where
  "query_get r k = (case map_of (rqQuery r) k of Some v \<Rightarrow> v | None \<Rightarrow> [])"

text \<open>\<^verbatim>\<open>strconv.Atoi\<close>: a sign, digits, and the range of a 64-bit \<^verbatim>\<open>int\<close>; \<open>None\<close> is an error.\<close>

definition in_int64 :: "int \<Rightarrow> bool" where
  "in_int64 n \<longleftrightarrow> - (2 ^ 63) \<le> n \<and> n < 2 ^ 63"

definition Atoi :: "string \<Rightarrow> int option" where
  "Atoi s =
     (let (neg, ds) = (case s of [] \<Rightarrow> (False, [])
            | c # cs \<Rightarrow> if c = CHR ''-'' then (True, cs) else if c = CHR ''+'' then (False, cs) else (False, s));
          n = (if neg then - int (dec_val ds) else int (dec_val ds))
      in if ds \<noteq> [] \<and> list_all is_digit ds \<and> in_int64 n then Some n else None)"

text \<open>A limit from the query string, if it is acceptable; \<^verbatim>\<open>getLimit\<close> has no upper bound.\<close>

definition limit_param :: "(int \<Rightarrow> bool) \<Rightarrow> http_request \<Rightarrow> int \<Rightarrow> int" where
  "limit_param acceptable r dflt =
     (let l = query_get r ''limit'' in
      if l \<noteq> [] then
        (case Atoi l of
           Some parsed \<Rightarrow> if 0 < parsed \<and> acceptable parsed then parsed else dflt
         | None \<Rightarrow> dflt)
      else dflt)"

definition getLimit :: "http_request \<Rightarrow> int \<Rightarrow> int" where
  "getLimit r dflt = limit_param (\<lambda>n. True) r dflt"

lemma limit_param_pos: "0 < dflt \<Longrightarrow> 0 < limit_param ok r dflt"
  by (simp add: limit_param_def Let_def split: option.split)

section \<open>Decoding bodies\<close>

text \<open>
  The anonymous structures of the handlers: each is the part of this record whose field names the
  handler passes to \<open>decode\<close>. A key matches a field regardless of case, later keys win, \<^verbatim>\<open>null\<close> leaves
  a field alone; a value of the wrong type is an error, whose text is an argument.
\<close>

record body_fields =
  fDomain :: string
  fNote :: string
  fName :: string
  fURL :: string
  fType :: string
  fValue :: string
  fAddress :: string
  fId :: int
  fPriority :: int
  fTTL :: u32
  fEnabled :: bool

definition zero_fields :: body_fields where
  "zero_fields = \<lparr>fDomain = [], fNote = [], fName = [], fURL = [], fType = [], fValue = [], fAddress = [],
     fId = 0, fPriority = 0, fTTL = 0, fEnabled = False\<rparr>"

type_synonym type_errors = "string \<Rightarrow> json \<Rightarrow> go_error"

definition string_field :: "string \<Rightarrow> (string \<Rightarrow> body_fields) \<Rightarrow> type_errors \<Rightarrow> json \<Rightarrow> body_fields \<Rightarrow> go_error + body_fields" where
  "string_field k set_it te v s = (case v of JStr x \<Rightarrow> Inr (set_it x) | JNull \<Rightarrow> Inr s | _ \<Rightarrow> Inl (te k v))"

definition int_field :: "string \<Rightarrow> (int \<Rightarrow> bool) \<Rightarrow> (int \<Rightarrow> body_fields) \<Rightarrow> type_errors \<Rightarrow> json \<Rightarrow> body_fields
    \<Rightarrow> go_error + body_fields" where
  "int_field k in_range set_it te v s =
     (case v of JInt n \<Rightarrow> if in_range n then Inr (set_it n) else Inl (te k v) | JNull \<Rightarrow> Inr s | _ \<Rightarrow> Inl (te k v))"

definition set_field :: "type_errors \<Rightarrow> string \<Rightarrow> json \<Rightarrow> body_fields \<Rightarrow> go_error + body_fields" where
  "set_field te k v s =
     (if k = ''domain'' then string_field k (\<lambda>x. s\<lparr>fDomain := x\<rparr>) te v s
      else if k = ''note'' then string_field k (\<lambda>x. s\<lparr>fNote := x\<rparr>) te v s
      else if k = ''name'' then string_field k (\<lambda>x. s\<lparr>fName := x\<rparr>) te v s
      else if k = ''url'' then string_field k (\<lambda>x. s\<lparr>fURL := x\<rparr>) te v s
      else if k = ''type'' then string_field k (\<lambda>x. s\<lparr>fType := x\<rparr>) te v s
      else if k = ''value'' then string_field k (\<lambda>x. s\<lparr>fValue := x\<rparr>) te v s
      else if k = ''address'' then string_field k (\<lambda>x. s\<lparr>fAddress := x\<rparr>) te v s
      else if k = ''id'' then int_field k in_int64 (\<lambda>n. s\<lparr>fId := n\<rparr>) te v s
      else if k = ''priority'' then int_field k in_int64 (\<lambda>n. s\<lparr>fPriority := n\<rparr>) te v s
      else if k = ''ttl'' then int_field k (\<lambda>n. 0 \<le> n \<and> n < 2 ^ 32) (\<lambda>n. s\<lparr>fTTL := word_of_int n\<rparr>) te v s
      else if k = ''enabled'' then
        (case v of JBool b \<Rightarrow> Inr (s\<lparr>fEnabled := b\<rparr>) | JNull \<Rightarrow> Inr s | _ \<Rightarrow> Inl (te k v))
      else Inr s)"

text \<open>The first error is reported, the fields after it are filled in all the same.\<close>

fun decode_keys :: "type_errors \<Rightarrow> string list \<Rightarrow> (string \<times> json) list \<Rightarrow> go_error option \<Rightarrow> body_fields
    \<Rightarrow> go_error option \<times> body_fields" where
  "decode_keys te names [] err s = (err, s)"
| "decode_keys te names ((k, v) # kvs) err s =
     (if ToLower k \<in> set names then
        (case set_field te (ToLower k) v s of
           Inr s' \<Rightarrow> decode_keys te names kvs err s'
         | Inl e \<Rightarrow> decode_keys te names kvs (if err = None then Some e else err) s)
      else decode_keys te names kvs err s)"

definition decode :: "type_errors \<Rightarrow> string list \<Rightarrow> http_request \<Rightarrow> go_error + body_fields" where
  "decode te names r =
     (case rqBody r of
        Inl e \<Rightarrow> Inl e
      | Inr v \<Rightarrow>
          (let (err, s) = (case v of
                 JObj kvs \<Rightarrow> decode_keys te names kvs None zero_fields
               | JNull \<Rightarrow> (None, zero_fields)
               | _ \<Rightarrow> (Some (te [] v), zero_fields))
           in case err of Some e \<Rightarrow> Inl e | None \<Rightarrow> Inr s))"

text \<open>Decoding into a \<^verbatim>\<open>map[string]string\<close>.\<close>

fun decode_pairs :: "type_errors \<Rightarrow> (string \<times> json) list \<Rightarrow> (string, string) fmap
    \<Rightarrow> go_error + (string, string) fmap" where
  "decode_pairs te [] m = Inr m"
| "decode_pairs te ((k, v) # kvs) m =
     (case v of
        JStr x \<Rightarrow> decode_pairs te kvs (fmupd k x m)
      | JNull \<Rightarrow> decode_pairs te kvs (fmupd k [] m)
      | _ \<Rightarrow> Inl (te k v))"

definition decode_map :: "type_errors \<Rightarrow> http_request \<Rightarrow> go_error + (string, string) fmap" where
  "decode_map te r =
     (case rqBody r of
        Inl e \<Rightarrow> Inl e
      | Inr (JObj kvs) \<Rightarrow> decode_pairs te kvs fmempty
      | Inr JNull \<Rightarrow> Inr fmempty
      | Inr v \<Rightarrow> Inl (te [] v))"

section \<open>Paths\<close>

text \<open>\<^verbatim>\<open>cleanPath\<close> of the request multiplexer: no empty, \<^verbatim>\<open>.\<close> or \<^verbatim>\<open>..\<close> segments; a final slash is kept.\<close>

definition clean_segment :: "string \<Rightarrow> string list \<Rightarrow> string list" where
  "clean_segment x acc =
     (if x = [] \<or> x = ''.'' then acc else if x = ''..'' then butlast acc else acc @ [x])"

definition cleanPath :: "string \<Rightarrow> string" where
  "cleanPath p =
     (if p = [] then ''/''
      else let p = (if hd p = CHR ''/'' then p else CHR ''/'' # p);
               np = CHR ''/'' # Join (fold clean_segment (Split p CHR ''/'') []) ''/''
           in if last p = CHR ''/'' \<and> np \<noteq> ''/'' then np @ ''/'' else np)"

section \<open>Fixed-point numbers\<close>

text \<open>\<^verbatim>\<open>%.2f\<close>: two digits after the point, the nearest value, the even one of two equally near.\<close>

definition round_even :: "rat \<Rightarrow> int" where
  "round_even x =
     (let n = \<lfloor>x\<rfloor>; d = x - of_int n in
      if d < 1 / 2 \<or> (d = 1 / 2 \<and> even n) then n else n + 1)"

definition fixed2 :: "rat \<Rightarrow> string" where
  "fixed2 x =
     (let n = nat (round_even (\<bar>x\<bar> * 100)); frac = n mod 100
      in (if x < 0 then ''-'' else []) @ digits_of (n div 100) @ ''.''
         @ (if frac < 10 then ''0'' else []) @ digits_of frac)"

end
