(* ===== verification/Dashboard.thy ===== *)
theory Dashboard
  imports Http Config RateLimit BlockFilter LocalRecords Failover ClientStats Metrics Database
begin

text \<open>
  The dashboard's HTTP interface, \<^verbatim>\<open>internal/dashboard/dashboard.go\<close>: authentication and the handlers
  for statistics, filter, local records, clients, upstreams and rate limits. The handlers that
  write to the database, and the routing, are in the theory \<open>AdminApi\<close>.
\<close>

section \<open>State, environment, replies\<close>

text \<open>
  The components a dashboard refers to, \<open>None\<close> where the pointer is \<^verbatim>\<open>nil\<close>. The server and its
  dashboard share them: a handler returns their new states.
\<close>

record dashboard =
  dMetrics :: metrics
  dFilter :: "dns_filter option"
  dLocal :: "local_records option"
  dClients :: "tracker option"
  dFailover :: "failover option"
  dLimiter :: "limiter option"
  dDb :: "db option"
  dAuth :: dashboard_auth_config

definition New_dashboard :: "metrics \<Rightarrow> dashboard" where
  "New_dashboard m = \<lparr>dMetrics = m, dFilter = None, dLocal = None, dClients = None, dFailover = None,
     dLimiter = None, dDb = None, dAuth = \<lparr>daEnabled = False, daUsername = [], daPassword = []\<rparr>\<rparr>"

text \<open>The setters; \<open>SetClientStats\<close> is called with a pointer that may be \<^verbatim>\<open>nil\<close>.\<close>

definition SetFilter :: "dns_filter \<Rightarrow> dashboard \<Rightarrow> dashboard" where
  "SetFilter x d = d\<lparr>dFilter := Some x\<rparr>"

definition SetLocalRecords :: "local_records \<Rightarrow> dashboard \<Rightarrow> dashboard" where
  "SetLocalRecords x d = d\<lparr>dLocal := Some x\<rparr>"

definition SetClientStats :: "tracker option \<Rightarrow> dashboard \<Rightarrow> dashboard" where
  "SetClientStats x d = d\<lparr>dClients := x\<rparr>"

definition SetFailover :: "failover \<Rightarrow> dashboard \<Rightarrow> dashboard" where
  "SetFailover x d = d\<lparr>dFailover := Some x\<rparr>"

definition SetLimiter :: "limiter \<Rightarrow> dashboard \<Rightarrow> dashboard" where
  "SetLimiter x d = d\<lparr>dLimiter := Some x\<rparr>"

definition SetAuth :: "dashboard_auth_config \<Rightarrow> dashboard \<Rightarrow> dashboard" where
  "SetAuth x d = d\<lparr>dAuth := x\<rparr>"

definition SetDatabase :: "db \<Rightarrow> dashboard \<Rightarrow> dashboard" where
  "SetDatabase x d = d\<lparr>dDb := Some x\<rparr>"

text \<open>
  What a request meets: iteration orders, the clock as time and as text, the database's statements
  in the order in which the handler issues them, the decoder's error texts, the embedded files,
  the numbers of cache and limiter that the server's callbacks deliver.
\<close>

record http_env =
  he_order :: "string fset \<Rightarrow> string list"
  he_now :: time
  he_stamp :: string
  he_rfc3339 :: "time \<Rightarrow> string"
  he_stmts :: "nat \<Rightarrow> stmt"
  he_type_error :: "string \<Rightarrow> json \<Rightarrow> go_error"
  he_static :: "string \<Rightarrow> string option"
  he_cache_stats :: "(int \<times> u64 \<times> u64 \<times> u64) option"
  he_active :: "int option"

record extended_stats =
  esSnapshot :: snapshot
  esFilterEnabled :: bool
  esFilterBlocked :: u64
  esFilterAllowed :: u64
  esBlocklistSize :: int
  esTotalClients :: int

record filter_debug =
  fdEnabled :: bool
  fdBlockedMapSize :: int
  fdBlacklistSize :: int
  fdWhitelist :: "string list"
  fdBlacklist :: "string list"
  fdSources :: "string list"
  fdSample :: "string list"
  fdTotalBlocked :: u64
  fdTotalAllowed :: u64
  fdListSize :: int
  fdTests :: "(string \<times> bool) list"

text \<open>What is written: a text, a file, or the Go value handed to the JSON encoder.\<close>

datatype payload =
    Text string
  | Moved string
  | File string
  | Reply "(string \<times> json) list"
  | Empty_list
  | Stats_reply extended_stats
  | Queries "query_log list"
  | Csv "string list list"
  | Domains "domain_stat list"
  | Qps "qps_point list"
  | Histogram "(string \<times> u64) list"
  | Names "string list"
  | Records_reply "local_record list"
  | Clients_reply "client_summary list"
  | Client_reply client_summary
  | Health_reply bool "(string, bool) fmap"
  | Debug_reply filter_debug
  | Top_blocked "blocked_stat list"
  | Latency_reply "(string, upstream_latency) fmap"
  | Rate_reply int "client_rate_stat list"
  | Settings_reply "(string, string) fmap"
  | Sources_reply "bool blocklist_source list"
  | Entries_reply "domain_entry list"
  | Local_reply "bool db_local_record list"
  | Upstreams_reply "failover_upstream list"

type_synonym response = "payload http_response"

abbreviation Error :: "string \<Rightarrow> int \<Rightarrow> response \<Rightarrow> response" where
  "Error \<equiv> http_error (\<lambda>message. Text (message @ [CHR 0x0A]))"

definition status_reply :: "string \<Rightarrow> payload" where
  "status_reply s = Reply [(''status'', JStr s)]"

definition any_origin :: "response \<Rightarrow> response" where
  "any_origin = set_header ''Access-Control-Allow-Origin'' ''*''"

text \<open>The two headers with which most handlers begin.\<close>

definition json_start :: response where
  "json_start = any_origin (set_header ''Content-Type'' ''application/json'' blank_response)"

section \<open>Authentication\<close>

definition unauthorized :: response where
  "unauthorized = Error ''Unauthorized'' 401
     (set_header ''WWW-Authenticate'' (''Basic realm='' @ [CHR 0x22] @ ''DNS Server Mandiri'' @ [CHR 0x22]) blank_response)"

definition authorized :: "dashboard_auth_config \<Rightarrow> http_request \<Rightarrow> bool" where
  "authorized auth r \<longleftrightarrow>
     (case rqBasicAuth r of
        None \<Rightarrow> False
      | Some (user, pass) \<Rightarrow> user = daUsername auth \<and> pass = daPassword auth)"

text \<open>
  A handler: the response and the new state, or \<open>None\<close> for a panic. \<^verbatim>\<open>basicAuthHandler\<close> is the same
  middleware for a handler object.
\<close>

type_synonym handler = "http_request \<Rightarrow> dashboard \<Rightarrow> (response \<times> dashboard) option"

definition basicAuth :: "handler \<Rightarrow> handler" where
  "basicAuth next r d =
     (if \<not> daEnabled (dAuth d) then next r d
      else if \<not> authorized (dAuth d) r then Some (unauthorized, d)
      else next r d)"

section \<open>Statistics\<close>

definition handleIndex :: "http_env \<Rightarrow> http_request \<Rightarrow> response" where
  "handleIndex env r =
     (if rqPath r \<noteq> ''/'' then Error ''404 page not found'' 404 blank_response
      else case he_static env ''static/index.html'' of
             None \<Rightarrow> Error ''Internal Server Error'' 500 blank_response
           | Some contents \<Rightarrow>
               encode (File contents) (set_header ''Content-Type'' ''text/html; charset=utf-8'' blank_response))"

definition handleStats :: "http_env \<Rightarrow> dashboard \<Rightarrow> response" where
  "handleStats env d =
     (let snap = GetSnapshot (he_now env) (he_cache_stats env) (he_active env) (dMetrics d);
          ext = \<lparr>esSnapshot = snap, esFilterEnabled = False, esFilterBlocked = 0, esFilterAllowed = 0,
            esBlocklistSize = 0, esTotalClients = 0\<rparr>;
          ext = (case dFilter d of
             None \<Rightarrow> ext
           | Some f \<Rightarrow>
               (let (nblocked, nallowed, listSize) = filter_Stats f
                in ext\<lparr>esFilterEnabled := enabled f, esFilterBlocked := nblocked,
                       esFilterAllowed := nallowed, esBlocklistSize := listSize\<rparr>));
          ext = (case dClients d of None \<Rightarrow> ext | Some t \<Rightarrow> ext\<lparr>esTotalClients := int (TotalClients t)\<rparr>)
      in encode (Stats_reply ext) json_start)"

definition handleQueries :: "http_request \<Rightarrow> dashboard \<Rightarrow> response" where
  "handleQueries r d =
     encode (Queries (GetRecentQueries (limit_param (\<lambda>n. n \<le> 500) r 50) (dMetrics d))) json_start"

definition handleTopDomains :: "http_env \<Rightarrow> http_request \<Rightarrow> dashboard \<Rightarrow> response option" where
  "handleTopDomains env r d =
     map_option (\<lambda>ds. encode (Domains ds) json_start)
       (GetTopDomains (he_order env) (limit_param (\<lambda>n. n \<le> 100) r 20) (dMetrics d))"

definition handleQPSHistory :: "dashboard \<Rightarrow> response" where
  "handleQPSHistory d = encode (Qps (GetQPSHistory (dMetrics d))) json_start"

definition handleLatencyHistogram :: "dashboard \<Rightarrow> response" where
  "handleLatencyHistogram d = encode (Histogram (GetLatencyHistogram (dMetrics d))) json_start"

definition csv_row :: "http_env \<Rightarrow> query_log \<Rightarrow> string list" where
  "csv_row env q = [he_rfc3339 env (Timestamp q), qlClientIP q, qlDomain q, qlQueryType q, qlRcode q,
     fixed2 (qlLatencyMs q), (if qlCached q then ''true'' else ''false''), qlProtocol q]"

definition handleQueriesExport :: "http_env \<Rightarrow> http_request \<Rightarrow> dashboard \<Rightarrow> response" where
  "handleQueriesExport env r d =
     (let fmt = query_get r ''format'';
          fmt = (if fmt = [] then ''json'' else fmt);
          logs = GetAllQueryLogs (dMetrics d);
          attachment = (\<lambda>ext. set_header ''Content-Disposition''
            (''attachment; filename=dns-queries-'' @ he_stamp env @ ext))
      in if fmt = ''csv'' then
           encode (Csv ([''timestamp'', ''client_ip'', ''domain'', ''query_type'', ''rcode'', ''latency_ms'',
               ''cached'', ''protocol''] # map (csv_row env) logs))
             (attachment ''.csv'' (set_header ''Content-Type'' ''text/csv'' (any_origin blank_response)))
         else
           encode (Queries logs)
             (attachment ''.json'' (set_header ''Content-Type'' ''application/json'' (any_origin blank_response))))"

section \<open>Filter\<close>

definition handleFilterStats :: "dashboard \<Rightarrow> response" where
  "handleFilterStats d =
     (case dFilter d of
        None \<Rightarrow> encode (Reply [(''enabled'', JBool False)]) json_start
      | Some f \<Rightarrow>
          (let (nblocked, nallowed, listSize) = filter_Stats f
           in encode (Reply [(''enabled'', JBool (enabled f)), (''blocked'', JInt (uint nblocked)),
                (''allowed'', JInt (uint nallowed)), (''blocklist_size'', JInt listSize)]) json_start))"

text \<open>The two lists have the same handler but for the operations on the filter.\<close>

definition handleFilterList :: "(dns_filter \<Rightarrow> string list) \<Rightarrow> (string \<Rightarrow> dns_filter \<Rightarrow> dns_filter)
    \<Rightarrow> (string \<Rightarrow> dns_filter \<Rightarrow> dns_filter) \<Rightarrow> http_env \<Rightarrow> http_request \<Rightarrow> dashboard \<Rightarrow> response \<times> dashboard" where
  "handleFilterList get add remove env r d =
     (case dFilter d of
        None \<Rightarrow> (Error ''filter not enabled'' 400 json_start, d)
      | Some f \<Rightarrow>
          if rqMethod r = ''GET'' then (encode (Names (get f)) json_start, d)
          else if rqMethod r = ''POST'' then
            (case decode (he_type_error env) [''domain''] r of
               Inl err \<Rightarrow> (Error ''invalid request'' 400 json_start, d)
             | Inr b \<Rightarrow>
                 if fDomain b = [] then (Error ''invalid request'' 400 json_start, d)
                 else (encode (Reply [(''status'', JStr ''added''), (''domain'', JStr (fDomain b))]) json_start,
                       d\<lparr>dFilter := Some (add (fDomain b) f)\<rparr>))
          else if rqMethod r = ''DELETE'' then
            (case decode (he_type_error env) [''domain''] r of
               Inl err \<Rightarrow> (Error ''invalid request'' 400 json_start, d)
             | Inr b \<Rightarrow>
                 if fDomain b = [] then (Error ''invalid request'' 400 json_start, d)
                 else (encode (Reply [(''status'', JStr ''removed''), (''domain'', JStr (fDomain b))]) json_start,
                       d\<lparr>dFilter := Some (remove (fDomain b) f)\<rparr>))
          else (json_start, d))"

definition handleFilterWhitelist :: "dns_lib \<Rightarrow> http_env \<Rightarrow> http_request \<Rightarrow> dashboard \<Rightarrow> response \<times> dashboard" where
  "handleFilterWhitelist L env =
     handleFilterList (GetWhitelist (he_order env)) (AddToWhitelist L) (RemoveFromWhitelist L) env"

definition handleFilterBlacklist :: "dns_lib \<Rightarrow> http_env \<Rightarrow> http_request \<Rightarrow> dashboard \<Rightarrow> response \<times> dashboard" where
  "handleFilterBlacklist L env =
     handleFilterList (GetBlacklist (he_order env)) (AddToBlacklist L) (RemoveFromBlacklist L) env"

definition bool_text :: "bool \<Rightarrow> string" where
  "bool_text b = (if b then ''true'' else ''false'')"

definition handleFilterToggle :: "http_env \<Rightarrow> http_request \<Rightarrow> dashboard \<Rightarrow> response \<times> dashboard" where
  "handleFilterToggle env r d =
     (case dFilter d of
        None \<Rightarrow> (Error ''filter not available'' 400 json_start, d)
      | Some f \<Rightarrow>
          if rqMethod r \<noteq> ''POST'' then (Error ''method not allowed'' 405 json_start, d)
          else case decode (he_type_error env) [''enabled''] r of
                 Inl err \<Rightarrow> (Error ''invalid request'' 400 json_start, d)
               | Inr b \<Rightarrow>
                   (encode (Reply [(''enabled'', JBool (fEnabled b))]) json_start,
                    d\<lparr>dFilter := Some (SetEnabled (fEnabled b) f),
                      dDb := map_option (\<lambda>database. snd (SetSetting (he_stmts env 0) ''filter_enabled''
                        (bool_text (fEnabled b)) database)) (dDb d)\<rparr>))"

text \<open>The sources stored in the database replace the filter's, if there are any; errors are ignored.\<close>

definition sync_sources :: "stmt \<Rightarrow> db option \<Rightarrow> dns_filter \<Rightarrow> dns_filter" where
  "sync_sources st database f =
     (case database of
        None \<Rightarrow> f
      | Some d \<Rightarrow>
          (case GetEnabledBlocklistURLs st d of
             Inr urls \<Rightarrow> if 0 < length urls then SetSources urls f else f
           | Inl err \<Rightarrow> f))"

definition handleFilterReload :: "http_env \<Rightarrow> http_request \<Rightarrow> dashboard \<Rightarrow> response \<times> dashboard" where
  "handleFilterReload env r d =
     (case dFilter d of
        None \<Rightarrow> (Error ''not available'' 400 json_start, d)
      | Some f \<Rightarrow>
          if rqMethod r \<noteq> ''POST'' then (Error ''not available'' 400 json_start, d)
          else (encode (status_reply ''reloading'') json_start,
                d\<lparr>dFilter := Some (start_load (sync_sources (he_stmts env 0) (dDb d) f))\<rparr>))"

definition test_domains :: "string list" where
  "test_domains = [''doubleclick.net'', ''ads.google.com'', ''pagead2.googlesyndication.com'',
     ''googleadservices.com'', ''ad.doubleclick.net'', ''analytics.google.com'', ''graph.facebook.com'',
     ''ads.facebook.com'']"

text \<open>The debug page asks the filter about the test domains, as a client would.\<close>

fun ask_all :: "dns_lib \<Rightarrow> (string fset \<Rightarrow> string list) \<Rightarrow> string list \<Rightarrow> dns_filter
    \<Rightarrow> (string \<times> bool) list \<times> dns_filter" where
  "ask_all L ord [] f = ([], f)"
| "ask_all L ord (n # ns) f =
     (let (b, f) = IsBlocked L ord n f; (bs, f) = ask_all L ord ns f in ((n, b) # bs, f))"

definition handleFilterDebug :: "dns_lib \<Rightarrow> http_env \<Rightarrow> dashboard \<Rightarrow> (response \<times> dashboard) option" where
  "handleFilterDebug L env d =
     (case dFilter d of
        None \<Rightarrow> Some (encode (Reply [(''error'', JStr ''filter is nil'')]) json_start, d)
      | Some f \<Rightarrow>
          (let (nblocked, nallowed, listSize) = filter_Stats f;
               (results, f) = ask_all L (he_order env) test_domains f
           in case SampleBlocked (he_order env) 20 f of
                None \<Rightarrow> None
              | Some sample \<Rightarrow>
                  Some (encode (Debug_reply \<lparr>fdEnabled = enabled f, fdBlockedMapSize = int (BlockedCount f),
                      fdBlacklistSize = int (BlacklistCount f), fdWhitelist = GetWhitelist (he_order env) f,
                      fdBlacklist = GetBlacklist (he_order env) f, fdSources = sources f, fdSample = sample,
                      fdTotalBlocked = nblocked, fdTotalAllowed = nallowed, fdListSize = listSize,
                      fdTests = results\<rparr>) json_start,
                    d\<lparr>dFilter := Some f\<rparr>)))"

definition handleTopBlocked :: "http_env \<Rightarrow> http_request \<Rightarrow> dashboard \<Rightarrow> response option" where
  "handleTopBlocked env r d =
     (case dFilter d of
        None \<Rightarrow> Some (encode Empty_list json_start)
      | Some f \<Rightarrow>
          map_option (\<lambda>bs. encode (Top_blocked bs) json_start)
            (GetTopBlocked (he_order env) (limit_param (\<lambda>n. True) r 20) f))"

section \<open>Local records, clients, upstreams, limits\<close>

definition handleLocalRecords :: "dns_lib \<Rightarrow> http_env \<Rightarrow> http_request \<Rightarrow> dashboard \<Rightarrow> response \<times> dashboard" where
  "handleLocalRecords L env r d =
     (case dLocal d of
        None \<Rightarrow> (Error ''local records not enabled'' 400 json_start, d)
      | Some lr \<Rightarrow>
          if rqMethod r = ''GET'' then (encode (Records_reply (GetAllRecords L (he_order env) lr)) json_start, d)
          else if rqMethod r = ''POST'' then
            (case decode (he_type_error env) [''name'', ''type'', ''value'', ''ttl''] r of
               Inl err \<Rightarrow> (Error (''invalid request: '' @ err) 400 json_start, d)
             | Inr b \<Rightarrow>
                 (case AddRecord L \<lparr>lrName = fName b, lrType = fType b, lrValue = fValue b, lrTTL = fTTL b\<rparr> lr of
                    (Some err, lr) \<Rightarrow> (Error (''failed to add record: '' @ err) 400 json_start, d\<lparr>dLocal := Some lr\<rparr>)
                  | (None, lr) \<Rightarrow> (encode (status_reply ''added'') json_start, d\<lparr>dLocal := Some lr\<rparr>)))
          else if rqMethod r = ''DELETE'' then
            (case decode (he_type_error env) [''name'', ''type''] r of
               Inl err \<Rightarrow> (Error ''invalid request'' 400 json_start, d)
             | Inr b \<Rightarrow>
                 (encode (status_reply ''removed'') json_start,
                  d\<lparr>dLocal := Some (RemoveRecord L (fName b) (fType b) lr)\<rparr>))
          else (json_start, d))"

definition handleClients :: "http_env \<Rightarrow> http_request \<Rightarrow> dashboard \<Rightarrow> response option" where
  "handleClients env r d =
     (case dClients d of
        None \<Rightarrow> Some (encode Empty_list json_start)
      | Some t \<Rightarrow>
          (let limit = limit_param (\<lambda>n. True) r 50; ip = query_get r ''ip'' in
           if ip \<noteq> [] then
             (case GetClient (he_order env) ip t of
                None \<Rightarrow> Some (Error ''client not found'' 404 json_start)
              | Some c \<Rightarrow> Some (encode (Client_reply c) json_start))
           else map_option (\<lambda>cs. encode (Clients_reply cs) json_start) (GetTopClients (he_order env) limit t)))"

definition handleFailoverStatus :: "dashboard \<Rightarrow> response" where
  "handleFailoverStatus d =
     (case dFailover d of
        None \<Rightarrow> encode (Reply [(''enabled'', JBool False)]) json_start
      | Some fo \<Rightarrow> encode (Health_reply (foEnabled (fo_cfg fo)) (GetHealthStatus fo)) json_start)"

definition handleFailoverLatency :: "dashboard \<Rightarrow> response" where
  "handleFailoverLatency d =
     (case dFailover d of
        None \<Rightarrow> encode (Reply []) json_start
      | Some fo \<Rightarrow> encode (Latency_reply (GetLatencyStats fo)) json_start)"

definition handleRateLimitStats :: "http_env \<Rightarrow> dashboard \<Rightarrow> response" where
  "handleRateLimitStats env d =
     (case dLimiter d of
        None \<Rightarrow> encode (Reply [(''enabled'', JBool False)]) json_start
      | Some l \<Rightarrow>
          (let stats = GetAllStats (he_order env) l
           in encode (Rate_reply (int (length stats)) stats) json_start))"

definition handleHealth :: response where
  "handleHealth = encode (status_reply ''ok'') (set_header ''Content-Type'' ''application/json'' blank_response)"

end
