(* ===== verification/AdminApi.thy ===== *)
theory AdminApi
  imports Dashboard
begin

text \<open>
  The admin interface, \<^verbatim>\<open>internal/dashboard/admin_api.go\<close>: the handlers that write to the database and,
  for some of them, to the running components as well.
\<close>

section \<open>The common beginning\<close>

definition admin_start :: "string \<Rightarrow> response" where
  "admin_start methods =
     set_header ''Access-Control-Allow-Headers'' ''Content-Type''
       (set_header ''Access-Control-Allow-Methods'' methods json_start)"

text \<open>\<^verbatim>\<open>OPTIONS\<close> is answered by the headers alone; without a database there is only an error.\<close>

definition with_database :: "string \<Rightarrow> http_request \<Rightarrow> dashboard
    \<Rightarrow> (response \<Rightarrow> db \<Rightarrow> response \<times> dashboard) \<Rightarrow> response \<times> dashboard" where
  "with_database methods r d body =
     (if rqMethod r = ''OPTIONS'' then (admin_start methods, d)
      else case dDb d of
             None \<Rightarrow> (Error ''database not available'' 500 (admin_start methods), d)
           | Some database \<Rightarrow> body (admin_start methods) database)"

text \<open>A listing: the rows, or the error as a response.\<close>

definition listing :: "('r list \<Rightarrow> payload) \<Rightarrow> go_error + 'r list \<Rightarrow> response \<Rightarrow> response" where
  "listing mk rows w = (case rows of Inl err \<Rightarrow> Error err 500 w | Inr rs \<Rightarrow> encode (mk rs) w)"

definition invalid_request :: "response \<Rightarrow> response" where
  "invalid_request w = Error ''invalid request'' 400 w"

definition added_reply :: "int \<Rightarrow> payload" where
  "added_reply i = Reply [(''status'', JStr ''added''), (''id'', JInt i)]"

section \<open>Settings\<close>

fun store_settings :: "(nat \<Rightarrow> stmt) \<Rightarrow> nat \<Rightarrow> string list \<Rightarrow> (string, string) fmap \<Rightarrow> db
    \<Rightarrow> go_error option \<times> db" where
  "store_settings sts i [] req database = (None, database)"
| "store_settings sts i (k # ks) req database =
     (case fmlookup req k of
        None \<Rightarrow> store_settings sts (Suc i) ks req database
      | Some v \<Rightarrow>
          (case SetSetting (sts i) k v database of
             (Some err, database) \<Rightarrow> (Some err, database)
           | (None, database) \<Rightarrow> store_settings sts (Suc i) ks req database))"

definition applySettings :: "(string, string) fmap \<Rightarrow> dashboard \<Rightarrow> dashboard" where
  "applySettings req d =
     (case fmlookup req ''filter_enabled'' of
        None \<Rightarrow> d
      | Some v \<Rightarrow> d\<lparr>dFilter := map_option (SetEnabled (v = ''true'')) (dFilter d)\<rparr>)"

definition handleAdminSettings :: "http_env \<Rightarrow> http_request \<Rightarrow> dashboard \<Rightarrow> response \<times> dashboard" where
  "handleAdminSettings env r d =
     with_database ''GET, POST, PUT, OPTIONS'' r d (\<lambda>w database.
       if rqMethod r = ''GET'' then
         (case GetAllSettings (he_stmts env 0) database of
            Inl err \<Rightarrow> (Error err 500 w, d)
          | Inr settings \<Rightarrow> (encode (Settings_reply settings) w, d))
       else if rqMethod r = ''POST'' \<or> rqMethod r = ''PUT'' then
         (case decode_map (he_type_error env) r of
            Inl err \<Rightarrow> (Error ''invalid JSON'' 400 w, d)
          | Inr req \<Rightarrow>
              (case store_settings (he_stmts env) 0 (he_order env (fmdom req)) req database of
                 (Some err, database) \<Rightarrow> (Error err 500 w, d\<lparr>dDb := Some database\<rparr>)
               | (None, database) \<Rightarrow>
                   (encode (status_reply ''ok'') w, applySettings req (d\<lparr>dDb := Some database\<rparr>))))
       else (w, d))"

section \<open>Blocklist sources\<close>

definition handleAdminBlocklistSources :: "http_env \<Rightarrow> http_request \<Rightarrow> dashboard \<Rightarrow> response \<times> dashboard" where
  "handleAdminBlocklistSources env r d =
     with_database ''GET, POST, DELETE, OPTIONS'' r d (\<lambda>w database.
       if rqMethod r = ''GET'' then
         (listing Sources_reply (GetBlocklistSources (he_stmts env 0) database) w, d)
       else if rqMethod r = ''POST'' then
         (case decode (he_type_error env) [''name'', ''url''] r of
            Inl err \<Rightarrow> (invalid_request w, d)
          | Inr b \<Rightarrow>
              if fURL b = [] then (invalid_request w, d)
              else (case AddBlocklistSource (he_stmts env 0) (if fName b = [] then fURL b else fName b)
                       (fURL b) database of
                      (Inl err, database) \<Rightarrow> (Error err 400 w, d\<lparr>dDb := Some database\<rparr>)
                    | (Inr i, database) \<Rightarrow> (encode (added_reply i) w, d\<lparr>dDb := Some database\<rparr>)))
       else if rqMethod r = ''DELETE'' then
         (case decode (he_type_error env) [''id''] r of
            Inl err \<Rightarrow> (invalid_request w, d)
          | Inr b \<Rightarrow>
              (encode (status_reply ''removed'') w,
               d\<lparr>dDb := Some (snd (RemoveBlocklistSource (he_stmts env 0) (fId b) database))\<rparr>))
       else (w, d))"

text \<open>The three handlers that switch a row on or off, whatever the method is.\<close>

definition handleToggle :: "(stmt \<Rightarrow> int \<Rightarrow> bool \<Rightarrow> db \<Rightarrow> go_error option \<times> db) \<Rightarrow> http_env \<Rightarrow> http_request
    \<Rightarrow> dashboard \<Rightarrow> response \<times> dashboard" where
  "handleToggle toggle env r d =
     with_database ''POST, OPTIONS'' r d (\<lambda>w database.
       case decode (he_type_error env) [''id'', ''enabled''] r of
         Inl err \<Rightarrow> (invalid_request w, d)
       | Inr b \<Rightarrow>
           (encode (status_reply ''ok'') w,
            d\<lparr>dDb := Some (snd (toggle (he_stmts env 0) (fId b) (fEnabled b) database))\<rparr>))"

definition handleAdminBlocklistToggle :: "http_env \<Rightarrow> http_request \<Rightarrow> dashboard \<Rightarrow> response \<times> dashboard" where
  "handleAdminBlocklistToggle = handleToggle ToggleBlocklistSource"

definition handleAdminBlocklistReload :: "http_env \<Rightarrow> http_request \<Rightarrow> dashboard \<Rightarrow> response \<times> dashboard" where
  "handleAdminBlocklistReload env r d =
     (if rqMethod r \<noteq> ''POST'' then (Error ''method not allowed'' 405 json_start, d)
      else (encode (status_reply ''reloading'') json_start,
            d\<lparr>dFilter := map_option (\<lambda>f. start_load (sync_sources (he_stmts env 0) (dDb d) f)) (dFilter d)\<rparr>))"

section \<open>Whitelist and blacklist\<close>

text \<open>
  The handlers of the two lists differ only in the operations they call: on the table, to list, add,
  and remove by number or by name; on the filter, to add and to remove.
\<close>

record list_ops =
  lo_get :: "stmt \<Rightarrow> db \<Rightarrow> go_error + domain_entry list"
  lo_add :: "stmt \<Rightarrow> string \<Rightarrow> string \<Rightarrow> db \<Rightarrow> go_error option \<times> db"
  lo_remove :: "stmt \<Rightarrow> int \<Rightarrow> db \<Rightarrow> go_error option \<times> db"
  lo_remove_domain :: "stmt \<Rightarrow> string \<Rightarrow> db \<Rightarrow> go_error option \<times> db"
  lo_live_add :: "dns_lib \<Rightarrow> string \<Rightarrow> dns_filter \<Rightarrow> dns_filter"
  lo_live_remove :: "dns_lib \<Rightarrow> string \<Rightarrow> dns_filter \<Rightarrow> dns_filter"

definition handleAdminList :: "list_ops \<Rightarrow> dns_lib \<Rightarrow> http_env \<Rightarrow> http_request \<Rightarrow> dashboard \<Rightarrow> response \<times> dashboard" where
  "handleAdminList ops L env r d =
     with_database ''GET, POST, DELETE, OPTIONS'' r d (\<lambda>w database.
       if rqMethod r = ''GET'' then (listing Entries_reply (lo_get ops (he_stmts env 0) database) w, d)
       else if rqMethod r = ''POST'' then
         (case decode (he_type_error env) [''domain'', ''note''] r of
            Inl err \<Rightarrow> (invalid_request w, d)
          | Inr b \<Rightarrow>
              if fDomain b = [] then (invalid_request w, d)
              else (encode (status_reply ''added'') w,
                    d\<lparr>dDb := Some (snd (lo_add ops (he_stmts env 0) (fDomain b) (fNote b) database)),
                      dFilter := map_option (lo_live_add ops L (fDomain b)) (dFilter d)\<rparr>))
       else if rqMethod r = ''DELETE'' then
         (case decode (he_type_error env) [''id'', ''domain''] r of
            Inl err \<Rightarrow> (invalid_request w, d)
          | Inr b \<Rightarrow>
              (encode (status_reply ''removed'') w,
               d\<lparr>dDb := Some (if 0 < fId b then snd (lo_remove ops (he_stmts env 0) (fId b) database)
                   else if fDomain b \<noteq> [] then snd (lo_remove_domain ops (he_stmts env 0) (fDomain b) database)
                   else database),
                 dFilter := (if fDomain b \<noteq> [] then map_option (lo_live_remove ops L (fDomain b)) (dFilter d)
                   else dFilter d)\<rparr>))
       else (w, d))"

definition whitelist_ops :: list_ops where
  "whitelist_ops = \<lparr>lo_get = db_GetWhitelist, lo_add = AddWhitelist, lo_remove = RemoveWhitelist,
     lo_remove_domain = RemoveWhitelistByDomain, lo_live_add = AddToWhitelist,
     lo_live_remove = RemoveFromWhitelist\<rparr>"

definition blacklist_ops :: list_ops where
  "blacklist_ops = \<lparr>lo_get = db_GetBlacklist, lo_add = AddBlacklist, lo_remove = RemoveBlacklist,
     lo_remove_domain = RemoveBlacklistByDomain, lo_live_add = AddToBlacklist,
     lo_live_remove = RemoveFromBlacklist\<rparr>"

definition handleAdminWhitelist :: "dns_lib \<Rightarrow> http_env \<Rightarrow> http_request \<Rightarrow> dashboard \<Rightarrow> response \<times> dashboard" where
  "handleAdminWhitelist = handleAdminList whitelist_ops"

definition handleAdminBlacklist :: "dns_lib \<Rightarrow> http_env \<Rightarrow> http_request \<Rightarrow> dashboard \<Rightarrow> response \<times> dashboard" where
  "handleAdminBlacklist = handleAdminList blacklist_ops"

section \<open>Local records\<close>

definition localRecordFromDB :: "string \<Rightarrow> string \<Rightarrow> string \<Rightarrow> u32 \<Rightarrow> local_record" where
  "localRecordFromDB name recordType value ttl =
     \<lparr>lrName = name, lrType = recordType, lrValue = value, lrTTL = ttl\<rparr>"

definition handleAdminLocalRecords :: "dns_lib \<Rightarrow> http_env \<Rightarrow> http_request \<Rightarrow> dashboard \<Rightarrow> response \<times> dashboard" where
  "handleAdminLocalRecords L env r d =
     with_database ''GET, POST, DELETE, OPTIONS'' r d (\<lambda>w database.
       if rqMethod r = ''GET'' then (listing Local_reply (GetLocalRecords (he_stmts env 0) database) w, d)
       else if rqMethod r = ''POST'' then
         (case decode (he_type_error env) [''name'', ''type'', ''value'', ''ttl'', ''note''] r of
            Inl err \<Rightarrow> (invalid_request w, d)
          | Inr b \<Rightarrow>
              if fName b = [] \<or> fValue b = [] then (invalid_request w, d)
              else
                (let ttl = (if fTTL b = 0 then 300 else fTTL b);
                     rtype = (if fType b = [] then ''A'' else fType b)
                 in case AddLocalRecord (he_stmts env 0) (fName b) rtype (fValue b) ttl (fNote b) database of
                      (Inl err, database) \<Rightarrow> (Error err 400 w, d\<lparr>dDb := Some database\<rparr>)
                    | (Inr i, database) \<Rightarrow>
                        (encode (added_reply i) w,
                         d\<lparr>dDb := Some database,
                           dLocal := map_option (\<lambda>lr. snd (AddRecord L
                             (localRecordFromDB (fName b) rtype (fValue b) ttl) lr)) (dLocal d)\<rparr>)))
       else if rqMethod r = ''DELETE'' then
         (case decode (he_type_error env) [''id''] r of
            Inl err \<Rightarrow> (invalid_request w, d)
          | Inr b \<Rightarrow>
              (encode (status_reply ''removed'') w,
               d\<lparr>dDb := Some (snd (RemoveLocalRecord (he_stmts env 0) (fId b) database))\<rparr>))
       else (w, d))"

definition handleAdminLocalRecordToggle :: "http_env \<Rightarrow> http_request \<Rightarrow> dashboard \<Rightarrow> response \<times> dashboard" where
  "handleAdminLocalRecordToggle = handleToggle ToggleLocalRecord"

section \<open>Failover upstreams\<close>

definition handleAdminUpstreams :: "http_env \<Rightarrow> http_request \<Rightarrow> dashboard \<Rightarrow> response \<times> dashboard" where
  "handleAdminUpstreams env r d =
     with_database ''GET, POST, DELETE, OPTIONS'' r d (\<lambda>w database.
       if rqMethod r = ''GET'' then (listing Upstreams_reply (GetFailoverUpstreams (he_stmts env 0) database) w, d)
       else if rqMethod r = ''POST'' then
         (case decode (he_type_error env) [''address'', ''priority''] r of
            Inl err \<Rightarrow> (invalid_request w, d)
          | Inr b \<Rightarrow>
              if fAddress b = [] then (invalid_request w, d)
              else (case AddFailoverUpstream (he_stmts env 0) (fAddress b) (fPriority b) database of
                      (Inl err, database) \<Rightarrow> (Error err 400 w, d\<lparr>dDb := Some database\<rparr>)
                    | (Inr i, database) \<Rightarrow> (encode (added_reply i) w, d\<lparr>dDb := Some database\<rparr>)))
       else if rqMethod r = ''DELETE'' then
         (case decode (he_type_error env) [''id''] r of
            Inl err \<Rightarrow> (invalid_request w, d)
          | Inr b \<Rightarrow>
              (encode (status_reply ''removed'') w,
               d\<lparr>dDb := Some (snd (RemoveFailoverUpstream (he_stmts env 0) (fId b) database))\<rparr>))
       else (w, d))"

definition handleAdminUpstreamToggle :: "http_env \<Rightarrow> http_request \<Rightarrow> dashboard \<Rightarrow> response \<times> dashboard" where
  "handleAdminUpstreamToggle = handleToggle ToggleFailoverUpstream"

section \<open>Routing\<close>

datatype endpoint =
    Stats_ep | Queries_ep | Export_ep | Top_domains_ep | Qps_ep | Latency_ep | Filter_stats_ep
  | Filter_whitelist_ep | Filter_blacklist_ep | Filter_toggle_ep | Filter_reload_ep | Top_blocked_ep
  | Local_ep | Clients_ep | Failover_status_ep | Failover_latency_ep | Ratelimit_ep
  | Settings_ep | Sources_ep | Sources_toggle_ep | Sources_reload_ep | Whitelist_ep | Blacklist_ep
  | Local_admin_ep | Local_toggle_ep | Upstreams_ep | Upstreams_toggle_ep
  | Debug_ep | Health_ep | Static_ep | Index_ep

text \<open>The patterns of \<^verbatim>\<open>Handler\<close> and \<^verbatim>\<open>registerAdminRoutes\<close> that name one path.\<close>

definition patterns :: "(string \<times> endpoint) list" where
  "patterns =
     [(''/api/stats'', Stats_ep), (''/api/queries'', Queries_ep), (''/api/queries/export'', Export_ep),
      (''/api/top-domains'', Top_domains_ep), (''/api/qps-history'', Qps_ep),
      (''/api/latency-histogram'', Latency_ep),
      (''/api/filter/stats'', Filter_stats_ep), (''/api/filter/whitelist'', Filter_whitelist_ep),
      (''/api/filter/blacklist'', Filter_blacklist_ep), (''/api/filter/toggle'', Filter_toggle_ep),
      (''/api/filter/reload'', Filter_reload_ep), (''/api/filter/top-blocked'', Top_blocked_ep),
      (''/api/local-records'', Local_ep), (''/api/clients'', Clients_ep),
      (''/api/failover/status'', Failover_status_ep), (''/api/failover/latency'', Failover_latency_ep),
      (''/api/ratelimit/stats'', Ratelimit_ep),
      (''/api/admin/settings'', Settings_ep), (''/api/admin/blocklist-sources'', Sources_ep),
      (''/api/admin/blocklist-sources/toggle'', Sources_toggle_ep),
      (''/api/admin/blocklist-sources/reload'', Sources_reload_ep),
      (''/api/admin/whitelist'', Whitelist_ep), (''/api/admin/blacklist'', Blacklist_ep),
      (''/api/admin/local-records'', Local_admin_ep), (''/api/admin/local-records/toggle'', Local_toggle_ep),
      (''/api/admin/upstreams'', Upstreams_ep), (''/api/admin/upstreams/toggle'', Upstreams_toggle_ep),
      (''/api/filter/debug'', Debug_ep), (''/health'', Health_ep)]"

text \<open>An exact pattern wins over \<^verbatim>\<open>/static/\<close>, and that over \<^verbatim>\<open>/\<close>.\<close>

definition route :: "string \<Rightarrow> endpoint" where
  "route path =
     (case map_of patterns path of
        Some ep \<Rightarrow> ep
      | None \<Rightarrow> if HasPrefix path ''/static/'' then Static_ep else Index_ep)"

text \<open>The file server of the embedded files is an argument: it changes nothing.\<close>

fun handle :: "dns_lib \<Rightarrow> http_env \<Rightarrow> (http_request \<Rightarrow> response) \<Rightarrow> endpoint \<Rightarrow> handler" where
  "handle L env fs Stats_ep r d = Some (handleStats env d, d)"
| "handle L env fs Queries_ep r d = Some (handleQueries r d, d)"
| "handle L env fs Export_ep r d = Some (handleQueriesExport env r d, d)"
| "handle L env fs Top_domains_ep r d = map_option (\<lambda>w. (w, d)) (handleTopDomains env r d)"
| "handle L env fs Qps_ep r d = Some (handleQPSHistory d, d)"
| "handle L env fs Latency_ep r d = Some (handleLatencyHistogram d, d)"
| "handle L env fs Filter_stats_ep r d = Some (handleFilterStats d, d)"
| "handle L env fs Filter_whitelist_ep r d = Some (handleFilterWhitelist L env r d)"
| "handle L env fs Filter_blacklist_ep r d = Some (handleFilterBlacklist L env r d)"
| "handle L env fs Filter_toggle_ep r d = Some (handleFilterToggle env r d)"
| "handle L env fs Filter_reload_ep r d = Some (handleFilterReload env r d)"
| "handle L env fs Top_blocked_ep r d = map_option (\<lambda>w. (w, d)) (handleTopBlocked env r d)"
| "handle L env fs Local_ep r d = Some (handleLocalRecords L env r d)"
| "handle L env fs Clients_ep r d = map_option (\<lambda>w. (w, d)) (handleClients env r d)"
| "handle L env fs Failover_status_ep r d = Some (handleFailoverStatus d, d)"
| "handle L env fs Failover_latency_ep r d = Some (handleFailoverLatency d, d)"
| "handle L env fs Ratelimit_ep r d = Some (handleRateLimitStats env d, d)"
| "handle L env fs Settings_ep r d = Some (handleAdminSettings env r d)"
| "handle L env fs Sources_ep r d = Some (handleAdminBlocklistSources env r d)"
| "handle L env fs Sources_toggle_ep r d = Some (handleAdminBlocklistToggle env r d)"
| "handle L env fs Sources_reload_ep r d = Some (handleAdminBlocklistReload env r d)"
| "handle L env fs Whitelist_ep r d = Some (handleAdminWhitelist L env r d)"
| "handle L env fs Blacklist_ep r d = Some (handleAdminBlacklist L env r d)"
| "handle L env fs Local_admin_ep r d = Some (handleAdminLocalRecords L env r d)"
| "handle L env fs Local_toggle_ep r d = Some (handleAdminLocalRecordToggle env r d)"
| "handle L env fs Upstreams_ep r d = Some (handleAdminUpstreams env r d)"
| "handle L env fs Upstreams_toggle_ep r d = Some (handleAdminUpstreamToggle env r d)"
| "handle L env fs Debug_ep r d = handleFilterDebug L env d"
| "handle L env fs Health_ep r d = Some (handleHealth, d)"
| "handle L env fs Static_ep r d = Some (fs r, d)"
| "handle L env fs Index_ep r d = Some (handleIndex env r, d)"

text \<open>
  The multiplexer sends requests for paths that are not clean to the clean one, \<^verbatim>\<open>CONNECT\<close> excepted, and
  those for \<^verbatim>\<open>/static\<close> to the registered \<^verbatim>\<open>/static/\<close>. (The query string that a redirection repeats is
  left out.)
\<close>

definition mux_redirect :: "http_request \<Rightarrow> string option" where
  "mux_redirect r =
     (let path = (if rqMethod r = ''CONNECT'' then rqPath r else cleanPath (rqPath r)) in
      if path = ''/static'' then Some ''/static/'' else if path \<noteq> rqPath r then Some path else None)"

definition redirect :: "http_request \<Rightarrow> string \<Rightarrow> response" where
  "redirect r path =
     (let w = set_header ''Location'' path blank_response;
          w = (if rqMethod r \<in> {''GET'', ''HEAD''} then set_header ''Content-Type'' ''text/html; charset=utf-8'' w else w)
      in w\<lparr>rsStatus := 301, rsBody := if rqMethod r = ''GET'' then Some (Moved path) else None\<rparr>)"

text \<open>\<^verbatim>\<open>Handler\<close>: everything but \<^verbatim>\<open>/health\<close> is protected.\<close>

definition serve_http :: "dns_lib \<Rightarrow> http_env \<Rightarrow> (http_request \<Rightarrow> response) \<Rightarrow> handler" where
  "serve_http L env fs r d =
     (case mux_redirect r of
        Some path \<Rightarrow> Some (redirect r path, d)
      | None \<Rightarrow>
          (let ep = route (rqPath r) in
           if ep = Health_ep then handle L env fs ep r d
           else basicAuth (handle L env fs ep) r d))"

end
