(* ===== verification/AdminCorrect.thy ===== *)
theory AdminCorrect
  imports AdminApi StartCorrect
begin

text \<open>
  What the HTTP interface guarantees: nothing happens without the password, no request breaks a
  component's invariant or a constraint of the database or makes a handler panic, and how requests
  and restarts act together.
\<close>

section \<open>Authentication\<close>

text \<open>
  C6: with authentication switched on, a request without the right name and password changes nothing,
  and its answer is a 401, the redirection of the multiplexer, or the health page.
\<close>
theorem unauthenticated_requests_are_refused:
  assumes "daEnabled (dAuth d)" and "\<not> authorized (dAuth d) r"
  shows "\<exists>w. serve_http L env fs r d = Some (w, d)
    \<and> (rsStatus w = 401 \<and> rsBody w = Some (Text (''Unauthorized'' @ [CHR 0x0A]))
       \<or> (\<exists>path. mux_redirect r = Some path \<and> w = redirect r path)
       \<or> rqPath r = ''/health'' \<and> w = handleHealth)"
proof (cases "mux_redirect r")
  case (Some path)
  then show ?thesis by (simp add: serve_http_def)
next
  case None
  have u: "rsStatus unauthorized = 401" "rsBody unauthorized = Some (Text (''Unauthorized'' @ [CHR 0x0A]))"
    by (simp_all add: unauthorized_def http_error_def set_header_def)
  show ?thesis
  proof (cases "route (rqPath r) = Health_ep")
    case True
    have "(rqPath r, Health_ep) \<in> set patterns"
      using True by (auto simp: route_def dest: map_of_SomeD split: option.splits if_splits)
    then have "rqPath r = ''/health''" by (auto simp: patterns_def)
    with True None show ?thesis by (simp add: serve_http_def)
  next
    case False
    with None assms u show ?thesis by (simp add: serve_http_def basicAuth_def Let_def)
  qed
qed

definition quiet_dashboard :: dashboard where
  "quiet_dashboard = \<lparr>dMetrics = New_metrics (\<lambda>i. 0), dFilter = Some quiet_filter,
     dLocal = Some (New_localrecords sample_lib DefaultLocalRecordsConfig), dClients = Some (New_tracker 10),
     dFailover = Some (New_failover DefaultFailoverConfig), dLimiter = None,
     dDb = Some (projr (Open fine_open empty_file)),
     dAuth = \<lparr>daEnabled = True, daUsername = ''admin'', daPassword = ''secret''\<rparr>\<rparr>"

definition plain_http :: http_env where
  "plain_http = \<lparr>he_order = sorted_list_of_fset, he_now = 0, he_stamp = ''20250101-000000'', he_rfc3339 = (\<lambda>t. []),
     he_stmts = (\<lambda>i. fine), he_type_error = (\<lambda>k v. ''json: type error''), he_static = (\<lambda>f. None),
     he_cache_stats = None, he_active = None\<rparr>"

definition no_files :: "http_request \<Rightarrow> response" where
  "no_files r = Error ''404 page not found'' 404 blank_response"

definition post :: "string \<Rightarrow> (string \<times> string) option \<Rightarrow> (string \<times> json) list \<Rightarrow> http_request" where
  "post path auth body = \<lparr>rqMethod = ''POST'', rqPath = path, rqQuery = [], rqBasicAuth = auth,
     rqBody = Inr (JObj body)\<rparr>"

theorem unauthenticated_requests_are_refused_witness:
  "\<exists>w. serve_http sample_lib plain_http no_files
       (post ''/api/admin/whitelist'' (Some (''admin'', ''admin'')) [(''domain'', JStr ''ads.example'')]) quiet_dashboard
     = Some (w, quiet_dashboard) \<and> rsStatus w = 401"
proof -
  let ?r = "post ''/api/admin/whitelist'' (Some (''admin'', ''admin'')) [(''domain'', JStr ''ads.example'')]"
  have a: "daEnabled (dAuth quiet_dashboard)" "\<not> authorized (dAuth quiet_dashboard) ?r"
    by (simp_all add: quiet_dashboard_def authorized_def post_def)
  have m: "mux_redirect ?r = None" unfolding post_def by code_simp
  have p: "rqPath ?r \<noteq> ''/health''" by (simp add: post_def)
  obtain w where "serve_http sample_lib plain_http no_files ?r quiet_dashboard = Some (w, quiet_dashboard)"
    "rsStatus w = 401 \<and> rsBody w = Some (Text (''Unauthorized'' @ [CHR 0x0A]))
       \<or> (\<exists>path. mux_redirect ?r = Some path \<and> w = redirect ?r path) \<or> rqPath ?r = ''/health'' \<and> w = handleHealth"
    using unauthenticated_requests_are_refused [OF a, of sample_lib plain_http no_files] by (elim exE conjE)
  with m p show ?thesis by (intro exI [of _ w]) simp
qed

section \<open>Invariants\<close>

named_theorems dash \<open>the operations the handlers call keep the components' invariants\<close>

definition good_filter :: "dns_filter \<Rightarrow> bool" where
  "good_filter f \<longleftrightarrow> filter_ok f \<and> mlen (blockedCounts f) \<le> max_blocked_counts"

lemma good_filter_step:
  "names_ok L \<Longrightarrow> enumerates ord \<Longrightarrow> good_filter f \<Longrightarrow> good_filter (filter_step L ord e f)"
  by (simp add: good_filter_def filter_step_ok)

lemma good_filter_lists [dash]:
  assumes "names_ok L" and "good_filter f"
  shows "good_filter (AddToWhitelist L n f)" and "good_filter (RemoveFromWhitelist L n f)"
    and "good_filter (AddToBlacklist L n f)" and "good_filter (RemoveFromBlacklist L n f)"
  using good_filter_step [OF assms(1) enumerates_sorted assms(2), of "Whitelist_add n"]
    good_filter_step [OF assms(1) enumerates_sorted assms(2), of "Whitelist_remove n"]
    good_filter_step [OF assms(1) enumerates_sorted assms(2), of "Blacklist_add n"]
    good_filter_step [OF assms(1) enumerates_sorted assms(2), of "Blacklist_remove n"]
  by (simp_all add: filter_step_def)

lemma good_filter_switches [dash]:
  assumes "good_filter f"
  shows "good_filter (SetEnabled b f)" and "good_filter (SetSources us f)" and "good_filter (start_load f)"
    and "good_filter (sync_sources st database f)"
  using assms by (simp_all add: good_filter_def SetEnabled_def SetSources_def start_load_def startAutoUpdate_def
      sync_sources_def Let_def split: option.split sum.split)

lemma good_filter_ask: "names_ok L \<Longrightarrow> enumerates ord \<Longrightarrow> good_filter f \<Longrightarrow> good_filter (snd (IsBlocked L ord n f))"
  using good_filter_step [of L ord f "Query n"] by (simp add: filter_step_def)

lemma good_filter_ask_all [dash]:
  "names_ok L \<Longrightarrow> enumerates ord \<Longrightarrow> good_filter f \<Longrightarrow> good_filter (snd (ask_all L ord ns f))"
proof (induction ns arbitrary: f)
  case (Cons n ns)
  obtain b f1 where b: "IsBlocked L ord n f = (b, f1)" by fastforce
  then have "good_filter f1" using good_filter_ask [OF Cons.prems, of n] by simp
  from Cons.IH [OF Cons.prems(1,2) this] b show ?case
    by (cases "ask_all L ord ns f1") simp
qed simp

lemma db_ok_ops [dash]:
  assumes "db_ok d"
  shows "db_ok (snd (SetSetting st k v d))" and "db_ok (snd (RemoveBlocklistSource st i d))"
    and "db_ok (snd (ToggleBlocklistSource st i b d))" and "db_ok (snd (AddWhitelist st n note d))"
    and "db_ok (snd (RemoveWhitelist st i d))" and "db_ok (snd (RemoveWhitelistByDomain st n d))"
    and "db_ok (snd (AddBlacklist st n note d))" and "db_ok (snd (RemoveBlacklist st i d))"
    and "db_ok (snd (RemoveBlacklistByDomain st n d))" and "db_ok (snd (RemoveLocalRecord st i d))"
    and "db_ok (snd (ToggleLocalRecord st i b d))" and "db_ok (snd (RemoveFailoverUpstream st i d))"
    and "db_ok (snd (ToggleFailoverUpstream st i b d))"
  using db_step_ok [OF assms, of "(st, c)" for c]
  by (metis db_step.simps)+

lemma db_ok_adds:
  assumes "db_ok d"
  shows "AddBlocklistSource st n u d = (r1, d') \<Longrightarrow> db_ok d'"
    and "AddLocalRecord st n t v ttl note d = (r2, d') \<Longrightarrow> db_ok d'"
    and "AddFailoverUpstream st a p d = (r3, d') \<Longrightarrow> db_ok d'"
  using db_step_ok [OF assms, of "(st, Call_AddBlocklistSource n u)"]
    db_step_ok [OF assms, of "(st, Call_AddLocalRecord n t v ttl note)"]
    db_step_ok [OF assms, of "(st, Call_AddFailoverUpstream a p)"]
  by simp_all

lemma store_settings_ok: "db_ok d \<Longrightarrow> db_ok (snd (store_settings sts i ks req d))"
proof (induction ks arbitrary: i d)
  case (Cons k ks)
  show ?case
  proof (cases "fmlookup req k")
    case (Some v)
    obtain e d1 where s: "SetSetting (sts i) k v d = (e, d1)" by fastforce
    then have "db_ok d1" using db_ok_ops(1) [OF Cons.prems, of "sts i" k v] by simp
    with Cons.IH Some s show ?thesis by (simp split: option.split)
  qed (simp add: Cons)
qed simp

text \<open>The state a dashboard shares with its server, and what requests leave alone.\<close>

definition dashboard_ok :: "dns_lib \<Rightarrow> dashboard \<Rightarrow> bool" where
  "dashboard_ok L d \<longleftrightarrow> (\<forall>f. dFilter d = Some f \<longrightarrow> good_filter f)
     \<and> (\<forall>lr. dLocal d = Some lr \<longrightarrow> local_ok L lr) \<and> (\<forall>database. dDb d = Some database \<longrightarrow> db_ok database)"

definition same_view :: "dashboard \<Rightarrow> dashboard \<Rightarrow> bool" where
  "same_view d d' \<longleftrightarrow> dMetrics d' = dMetrics d \<and> dClients d' = dClients d \<and> dFailover d' = dFailover d
     \<and> dLimiter d' = dLimiter d \<and> dAuth d' = dAuth d"

definition kept :: "dns_lib \<Rightarrow> dashboard \<Rightarrow> dashboard \<Rightarrow> bool" where
  "kept L d d' \<longleftrightarrow> dashboard_ok L d' \<and> same_view d d'"

lemma kept_refl [simp]: "kept L d d = dashboard_ok L d"
  by (simp add: kept_def same_view_def)

lemma same_view_update [simp]:
  "same_view d (d'\<lparr>dFilter := f\<rparr>) = same_view d d'" "same_view d (d'\<lparr>dLocal := l\<rparr>) = same_view d d'"
  "same_view d (d'\<lparr>dDb := b\<rparr>) = same_view d d'" "same_view d d"
  by (simp_all add: same_view_def)

definition request_ok :: "dns_lib \<Rightarrow> http_env \<Rightarrow> dashboard \<Rightarrow> bool" where
  "request_ok L env d \<longleftrightarrow> names_ok L \<and> types_ok L \<and> enumerates (he_order env) \<and> dashboard_ok L d"

lemma with_database_kept:
  assumes "dashboard_ok L d"
    and "\<And>database w. dDb d = Some database \<Longrightarrow> db_ok database \<Longrightarrow> kept L d (snd (body w database))"
  shows "kept L d (snd (with_database m r d body))"
  using assms by (simp add: with_database_def dashboard_ok_def split: option.split)

lemma handleFilterList_kept:
  assumes "dashboard_ok L d" and "\<And>n f. good_filter f \<Longrightarrow> good_filter (add n f)"
    and "\<And>n f. good_filter f \<Longrightarrow> good_filter (remove n f)"
  shows "kept L d (snd (handleFilterList get add remove env r d))"
  using assms by (auto simp: handleFilterList_def kept_def dashboard_ok_def split: option.split sum.split)

lemma handleFilterToggle_kept: "dashboard_ok L d \<Longrightarrow> kept L d (snd (handleFilterToggle env r d))"
  by (auto simp: handleFilterToggle_def kept_def dashboard_ok_def split: option.split sum.split intro: dash)

lemma handleFilterReload_kept: "dashboard_ok L d \<Longrightarrow> kept L d (snd (handleFilterReload env r d))"
  by (auto simp: handleFilterReload_def kept_def dashboard_ok_def split: option.split intro!: dash)

lemma handleLocalRecords_kept:
  assumes "dashboard_ok L d" and "types_ok L"
  shows "kept L d (snd (handleLocalRecords L env r d))"
proof -
  have a: "local_ok L lr'" if "dLocal d = Some lr" "AddRecord L x lr = (e, lr')" for lr x e lr'
    using assms that AddRecord_ok [of L lr x] by (simp add: dashboard_ok_def)
  show ?thesis
    using assms by (auto simp: handleLocalRecords_def kept_def dashboard_ok_def RemoveRecord_ok
        split: option.split sum.split prod.split dest: a)
qed

lemma applySettings_kept: "kept L d d' \<Longrightarrow> kept L d (applySettings req d')"
  by (auto simp: applySettings_def kept_def dashboard_ok_def split: option.split intro: dash)

lemma kept_db: "dashboard_ok L d \<Longrightarrow> db_ok database \<Longrightarrow> kept L d (d\<lparr>dDb := Some database\<rparr>)"
  by (simp add: kept_def dashboard_ok_def)

lemma handleAdminSettings_kept:
  assumes "dashboard_ok L d"
  shows "kept L d (snd (handleAdminSettings env r d))"
proof -
  have s: "kept L d (d\<lparr>dDb := Some database'\<rparr>)"
    if "store_settings sts i ks req database = (e, database')" "db_ok database" for sts i ks req database e database'
    using kept_db [OF assms, of database'] store_settings_ok [OF that(2), of sts i ks req] that(1) by simp
  show ?thesis
    unfolding handleAdminSettings_def
    by (rule with_database_kept [OF assms])
      (auto simp: assms split: option.split sum.split prod.split intro!: applySettings_kept dest: s)
qed

lemma handleAdminBlocklistSources_kept:
  assumes "dashboard_ok L d"
  shows "kept L d (snd (handleAdminBlocklistSources env r d))"
  unfolding handleAdminBlocklistSources_def
  by (rule with_database_kept [OF assms])
    (auto simp: assms split: sum.split prod.split intro!: kept_db dash dest: db_ok_adds)

lemma handleToggle_kept:
  assumes "dashboard_ok L d" and "\<And>st i b database. db_ok database \<Longrightarrow> db_ok (snd (toggle st i b database))"
  shows "kept L d (snd (handleToggle toggle env r d))"
  unfolding handleToggle_def
  by (rule with_database_kept [OF assms(1)]) (auto simp: assms split: sum.split intro!: kept_db)

lemma handleAdminBlocklistReload_kept: "dashboard_ok L d \<Longrightarrow> kept L d (snd (handleAdminBlocklistReload env r d))"
  by (auto simp: handleAdminBlocklistReload_def kept_def dashboard_ok_def intro!: dash)

section \<open>Interface: a list in the database and in the filter\<close>

text \<open>
  The handler of the white- and blacklist acts on two representations of one list, a table and a set
  of the filter, through the operations it is given. The contract: what adding and removing do to
  each of them, and that they keep the invariants.
\<close>

locale stored_list =
  fixes L :: dns_lib and ops :: list_ops
    and rows :: "db \<Rightarrow> domain_entry table" and live :: "dns_filter \<Rightarrow> string fset"
  assumes add_row: "st_fail st = None \<Longrightarrow> n \<in> deDomain ` set (trows (rows (snd (lo_add ops st n note d))))"
    and remove_row: "st_fail st = None \<Longrightarrow> i \<notin> deId ` set (trows (rows (snd (lo_remove ops st i d))))"
    and remove_domain_row:
      "st_fail st = None \<Longrightarrow> n \<notin> deDomain ` set (trows (rows (snd (lo_remove_domain ops st n d))))"
    and live_add: "live (lo_live_add ops L n f) = finsert (canon L n) (live f)"
    and live_remove: "live (lo_live_remove ops L n f) = live f |-| {|canon L n|}"
    and db_kept: "db_ok d \<Longrightarrow> db_ok (snd (lo_add ops st n note d))" "db_ok d \<Longrightarrow> db_ok (snd (lo_remove ops st i d))"
      "db_ok d \<Longrightarrow> db_ok (snd (lo_remove_domain ops st n d))"
    and filter_kept: "names_ok L \<Longrightarrow> good_filter f \<Longrightarrow> good_filter (lo_live_add ops L n f)"
      "names_ok L \<Longrightarrow> good_filter f \<Longrightarrow> good_filter (lo_live_remove ops L n f)"
begin

lemma handleAdminList_kept:
  assumes "dashboard_ok L d" and "names_ok L"
  shows "kept L d (snd (handleAdminList ops L env r d))"
  unfolding handleAdminList_def
  by (rule with_database_kept [OF assms(1)])
    (use assms in \<open>auto simp: kept_def dashboard_ok_def db_kept filter_kept split: sum.split\<close>)

text \<open>An accepted addition is in the table and in the filter.\<close>

lemma added:
  assumes "rqMethod r = ''POST''" and "decode (he_type_error env) [''domain'', ''note''] r = Inr b"
    and "fDomain b \<noteq> []" and "dDb d = Some database" and "dFilter d = Some f" and "st_fail (he_stmts env 0) = None"
    and "handleAdminList ops L env r d = (w, d')"
  shows "rsStatus w = 200 \<and> (\<exists>database' f'. dDb d' = Some database'
    \<and> fDomain b \<in> deDomain ` set (trows (rows database')) \<and> dFilter d' = Some f' \<and> canon L (fDomain b) |\<in>| live f')"
proof -
  have "w = encode (status_reply ''added'') (admin_start ''GET, POST, DELETE, OPTIONS'')"
    "d' = d\<lparr>dDb := Some (snd (lo_add ops (he_stmts env 0) (fDomain b) (fNote b) database)),
        dFilter := Some (lo_live_add ops L (fDomain b) f)\<rparr>"
    using assms by (simp_all add: handleAdminList_def with_database_def)
  with add_row [OF assms(6)] live_add show ?thesis
    by (simp add: encode_def admin_start_def json_start_def any_origin_def set_header_def blank_response_def)
qed

text \<open>Removing by name takes the name out of both.\<close>

lemma removed_by_name:
  assumes "rqMethod r = ''DELETE''" and "decode (he_type_error env) [''id'', ''domain''] r = Inr b"
    and "fId b \<le> 0" and "fDomain b \<noteq> []" and "dDb d = Some database" and "dFilter d = Some f"
    and "st_fail (he_stmts env 0) = None" and "handleAdminList ops L env r d = (w, d')"
  shows "\<exists>database' f'. dDb d' = Some database' \<and> fDomain b \<notin> deDomain ` set (trows (rows database'))
    \<and> dFilter d' = Some f' \<and> canon L (fDomain b) |\<notin>| live f'"
  using assms remove_domain_row [OF assms(7), of "fDomain b" database]
  by (auto simp: handleAdminList_def with_database_def live_remove)

text \<open>Removing by number takes the row out of the table and leaves the running filter alone.\<close>

lemma removed_by_id_stays_live:
  assumes "rqMethod r = ''DELETE''" and "decode (he_type_error env) [''id'', ''domain''] r = Inr b"
    and "0 < fId b" and "fDomain b = []" and "dDb d = Some database"
    and "st_fail (he_stmts env 0) = None" and "handleAdminList ops L env r d = (w, d')"
  shows "dFilter d' = dFilter d \<and> (\<exists>database'. dDb d' = Some database' \<and> fId b \<notin> deId ` set (trows (rows database')))"
  using assms remove_row [OF assms(6), of "fId b" database]
  by (auto simp: handleAdminList_def with_database_def)

end

lemma whitelist_rows:
  assumes "st_fail st = None"
  shows "n \<in> deDomain ` set (trows (tWhitelist (snd (AddWhitelist st n note d))))"
    and "i \<notin> deId ` set (trows (tWhitelist (snd (RemoveWhitelist st i d))))"
    and "n \<notin> deDomain ` set (trows (tWhitelist (snd (RemoveWhitelistByDomain st n d))))"
  using assms by (auto simp: AddWhitelist_def RemoveWhitelist_def RemoveWhitelistByDomain_def Exec_def insert_domain_def
      insert_row_def delete_rows_def)

lemma whitelist_live:
  "whitelist (AddToWhitelist L n f) = finsert (canon L n) (whitelist f)" "whitelist (RemoveFromWhitelist L n f) = whitelist f |-| {|canon L n|}"
  by (simp_all add: AddToWhitelist_def RemoveFromWhitelist_def canon_def)

lemma blacklist_rows:
  assumes "st_fail st = None"
  shows "n \<in> deDomain ` set (trows (tBlacklist (snd (AddBlacklist st n note d))))"
    and "i \<notin> deId ` set (trows (tBlacklist (snd (RemoveBlacklist st i d))))"
    and "n \<notin> deDomain ` set (trows (tBlacklist (snd (RemoveBlacklistByDomain st n d))))"
  using assms by (auto simp: AddBlacklist_def RemoveBlacklist_def RemoveBlacklistByDomain_def Exec_def insert_domain_def
      insert_row_def delete_rows_def)

lemma blacklist_live:
  "blacklist (AddToBlacklist L n f) = finsert (canon L n) (blacklist f)" "blacklist (RemoveFromBlacklist L n f) = blacklist f |-| {|canon L n|}"
  by (simp_all add: AddToBlacklist_def RemoveFromBlacklist_def canon_def)

interpretation white: stored_list L whitelist_ops tWhitelist whitelist for L
  by unfold_locales (simp_all add: whitelist_ops_def dash whitelist_rows whitelist_live)

interpretation black: stored_list L blacklist_ops tBlacklist blacklist for L
  by unfold_locales (simp_all add: blacklist_ops_def dash blacklist_rows blacklist_live)

section \<open>The other handlers\<close>

lemma handleAdminLocalRecords_kept:
  assumes "dashboard_ok L d" and "types_ok L"
  shows "kept L d (snd (handleAdminLocalRecords L env r d))"
  unfolding handleAdminLocalRecords_def
  by (rule with_database_kept [OF assms(1)])
    (use assms in \<open>auto simp: kept_def dashboard_ok_def Let_def split: sum.split prod.split
      intro!: dash AddRecord_ok dest: db_ok_adds\<close>)

lemma handleAdminUpstreams_kept:
  assumes "dashboard_ok L d"
  shows "kept L d (snd (handleAdminUpstreams env r d))"
  unfolding handleAdminUpstreams_def
  by (rule with_database_kept [OF assms])
    (auto simp: assms split: sum.split prod.split intro!: kept_db dash dest: db_ok_adds)

section \<open>Every request\<close>

lemma handleTopDomains_total: "\<exists>w. handleTopDomains env r d = Some w"
proof -
  have "0 < limit_param (\<lambda>n. n \<le> 100) r 20" by (simp add: limit_param_pos)
  then show ?thesis by (simp add: handleTopDomains_def GetTopDomains_def Let_def)
qed

lemma handleTopBlocked_total: "\<exists>w. handleTopBlocked env r d = Some w"
proof -
  have "0 < limit_param (\<lambda>n. True) r 20" by (simp add: limit_param_pos)
  then show ?thesis by (simp add: handleTopBlocked_def GetTopBlocked_def Let_def split: option.split)
qed

lemma handleClients_total: "\<exists>w. handleClients env r d = Some w"
proof -
  have "0 < limit_param (\<lambda>n. True) r 50" by (simp add: limit_param_pos)
  then show ?thesis by (simp add: handleClients_def GetTopClients_def Let_def split: option.split)
qed

lemma handleFilterDebug_kept:
  assumes "request_ok L env d"
  shows "\<exists>w d'. handleFilterDebug L env d = Some (w, d') \<and> kept L d d'"
proof (cases "dFilter d")
  case None
  with assms show ?thesis by (simp add: handleFilterDebug_def request_ok_def)
next
  case (Some f)
  obtain rs f' where a: "ask_all L (he_order env) test_domains f = (rs, f')" by fastforce
  have "good_filter f'"
    using good_filter_ask_all [of L "he_order env" f test_domains] assms Some a
    by (simp add: request_ok_def dashboard_ok_def)
  with assms Some a show ?thesis
    by (simp add: handleFilterDebug_def SampleBlocked_def request_ok_def kept_def dashboard_ok_def
        split: prod.split)
qed

lemma handle_kept:
  assumes "request_ok L env d"
  shows "\<exists>w d'. handle L env fs ep r d = Some (w, d') \<and> kept L d d'"
proof -
  have d: "dashboard_ok L d" and t: "types_ok L" and n: "names_ok L"
    using assms by (simp_all add: request_ok_def)
  have pair: "\<exists>w d'. Some x = Some (w, d') \<and> kept L d d'" if "kept L d (snd x)" for x
    using that by (cases x) simp
  have opt: "\<exists>w d'. map_option (\<lambda>w. (w, d)) x = Some (w, d') \<and> kept L d d'" if "\<exists>w. x = Some w" for x
    using that d by auto
  show ?thesis
  proof (cases ep)
    case Debug_ep
    with handleFilterDebug_kept [OF assms] show ?thesis by simp
  qed (simp_all only: handle.simps,
      (rule pair, simp add: d handleFilterWhitelist_def handleFilterBlacklist_def handleAdminBlocklistToggle_def
        handleAdminLocalRecordToggle_def handleAdminUpstreamToggle_def handleAdminWhitelist_def
        handleAdminBlacklist_def handleFilterList_kept dash n t handleFilterToggle_kept handleFilterReload_kept
        handleLocalRecords_kept handleAdminSettings_kept handleAdminBlocklistSources_kept handleToggle_kept
        handleAdminBlocklistReload_kept white.handleAdminList_kept black.handleAdminList_kept
        handleAdminLocalRecords_kept
        handleAdminUpstreams_kept
       | rule opt [OF handleTopDomains_total] | rule opt [OF handleTopBlocked_total]
       | rule opt [OF handleClients_total])+)
qed

lemma serve_http_kept:
  assumes "request_ok L env d"
  shows "\<exists>w d'. serve_http L env fs r d = Some (w, d') \<and> dashboard_ok L d' \<and> same_view d d'"
proof -
  have "kept L d d" using assms by (simp add: request_ok_def)
  with handle_kept [OF assms, of fs "route (rqPath r)" r] show ?thesis
    unfolding serve_http_def Let_def basicAuth_def kept_def by (auto split: option.split)
qed

text \<open>
  No request makes a handler panic, whatever its path, method, parameters and body: there is a
  response, the filter, the local records and the database keep their invariants, and the metrics,
  the client statistics, the upstreams, the rate limiter and the password are what they were.
\<close>
theorem requests_keep_invariant:
  assumes "names_ok L" and "types_ok L" and "enumerates (he_order env)" and "dashboard_ok L d"
  shows "\<exists>w d'. serve_http L env fs r d = Some (w, d') \<and> dashboard_ok L d' \<and> same_view d d'"
  using assms by (intro serve_http_kept) (simp add: request_ok_def)

lemma quiet_dashboard_ok: "dashboard_ok sample_lib quiet_dashboard"
proof -
  have "good_filter quiet_filter"
    by (simp add: good_filter_def filter_ok_def lower_dotted_def quiet_filter_def fcard_fempty)
  moreover have "local_ok sample_lib (New_localrecords sample_lib DefaultLocalRecordsConfig)"
    by (rule New_localrecords_ok) simp
  moreover have "db_ok (projr (Open fine_open empty_file))"
    using Open_kept(1) [OF empty_file_ok, of fine_open] by (simp add: fine_Open)
  ultimately show ?thesis by (simp add: dashboard_ok_def quiet_dashboard_def)
qed

theorem requests_keep_invariant_witness:
  "\<exists>w d'. serve_http sample_lib plain_http no_files
       (post ''/api/admin/whitelist'' (Some (''admin'', ''secret'')) [(''domain'', JStr ''ads.example'')]) quiet_dashboard
     = Some (w, d') \<and> dashboard_ok sample_lib d'"
proof -
  have "enumerates (he_order plain_http)" by (simp add: plain_http_def)
  from requests_keep_invariant [OF sample_lib_names sample_lib_types this quiet_dashboard_ok] show ?thesis
    by blast
qed

end
