(* ===== verification/Program.thy ===== *)
theory Program
  imports ServerStart AdminApi
begin

text \<open>
  The running program: the dashboard's view of the server, and a step for everything that can happen
  to the shared state, a query, an HTTP request or one of the background tasks.
\<close>

section \<open>The dashboard of a server\<close>

text \<open>\<^verbatim>\<open>New\<close> hands the components to the dashboard, which shares them with the server.\<close>

definition dashboard_of :: "program \<Rightarrow> dashboard" where
  "dashboard_of p =
     (let s = prServer p; dash = New_dashboard (srvMetrics s);
          dash = SetFilter (srvFilter s) dash;
          dash = SetLocalRecords (srvLocal s) dash;
          dash = SetClientStats (srvClients s) dash;
          dash = SetFailover (srvFailover s) dash;
          dash = SetAuth (cfgDashboardAuth (srvCfg s)) dash;
          dash = (case srvLimiter s of Some l \<Rightarrow> SetLimiter l dash | None \<Rightarrow> dash)
      in case prDb p of Some database \<Rightarrow> SetDatabase database dash | None \<Rightarrow> dash)"

text \<open>A request changes the components themselves: the server has the state the dashboard leaves.\<close>

definition absorb :: "program \<Rightarrow> dashboard \<Rightarrow> program" where
  "absorb p d =
     (let s = prServer p in
      \<lparr>prServer = s\<lparr>srvMetrics := dMetrics d,
          srvFilter := (case dFilter d of None \<Rightarrow> srvFilter s | Some f \<Rightarrow> f),
          srvLocal := (case dLocal d of None \<Rightarrow> srvLocal s | Some lr \<Rightarrow> lr),
          srvClients := dClients d,
          srvFailover := (case dFailover d of None \<Rightarrow> srvFailover s | Some fo \<Rightarrow> fo),
          srvLimiter := dLimiter d\<rparr>,
       prDb = dDb d\<rparr>)"

definition http_step :: "dns_lib \<Rightarrow> http_env \<Rightarrow> (http_request \<Rightarrow> response) \<Rightarrow> http_request \<Rightarrow> program
    \<Rightarrow> (response \<times> program) option" where
  "http_step L env fs r p =
     map_option (\<lambda>(w, d). (w, absorb p d)) (serve_http L env fs r (dashboard_of p))"

text \<open>What \<^verbatim>\<open>http_env\<close> gets from the server: the callbacks set by \<^verbatim>\<open>New\<close>.\<close>

definition callbacks :: "program \<Rightarrow> http_env \<Rightarrow> http_env" where
  "callbacks p env =
     env\<lparr>he_cache_stats := Some (case Stats (rcache (srvResolver (prServer p))) of (n, h, ms, e) \<Rightarrow> (int n, h, ms, e)),
       he_active := map_option (\<lambda>l. int (ActiveClients l)) (srvLimiter (prServer p))\<rparr>"

section \<open>Events\<close>

datatype program_event =
    Dns query
  | Http http_env "http_request \<Rightarrow> response" http_request
  | Cache_cleanup "string fset \<Rightarrow> string list" clock
  | Limiter_cleanup time
  | Health_check "string fset \<Rightarrow> string list" upstream_env
  | Qps_tick time
  | Lists_loaded filter_world
  | Update_tick filter_world
  | Prefetch_tick resolver_env
  | Prefetch_run resolver_env nat
  | Warm_up "nat \<Rightarrow> resolver_env"

datatype outcome = Answered msg | Responded response | Silent

definition update_server :: "(server \<Rightarrow> server) \<Rightarrow> program \<Rightarrow> (outcome \<times> program) option" where
  "update_server f p = Some (Silent, p\<lparr>prServer := f (prServer p)\<rparr>)"

text \<open>A goroutine \<^verbatim>\<open>prefetch\<close> that was started runs.\<close>

definition run_prefetch :: "dns_lib \<Rightarrow> resolver_env \<Rightarrow> nat \<Rightarrow> server \<Rightarrow> server" where
  "run_prefetch L env i s =
     (let st = srvResolver s; ps = prefetches st in
      if i < length ps then
        (case ps ! i of (n, t, q) \<Rightarrow>
           s\<lparr>srvResolver := prefetch L env (cfgResolver (srvCfg s)) n t q
               (st\<lparr>prefetches := take i ps @ drop (Suc i) ps\<rparr>)\<rparr>)
      else s)"

fun program_step :: "dns_lib \<Rightarrow> program_event \<Rightarrow> program \<Rightarrow> (outcome \<times> program) option" where
  "program_step L (Dns (env, addr, r)) p =
     map_option (\<lambda>(m, s). (Answered m, p\<lparr>prServer := s\<rparr>)) (handleDNS L env addr r (prServer p))"
| "program_step L (Http env fs r) p =
     map_option (\<lambda>(w, p). (Responded w, p)) (http_step L (callbacks p env) fs r p)"
| "program_step L (Cache_cleanup ord clk) p =
     update_server (\<lambda>s. s\<lparr>srvResolver := (srvResolver s)\<lparr>rcache := cleanup ord clk (rcache (srvResolver s))\<rparr>\<rparr>) p"
| "program_step L (Limiter_cleanup now) p =
     update_server (\<lambda>s. s\<lparr>srvLimiter := map_option (cleanupStale now) (srvLimiter s)\<rparr>) p"
| "program_step L (Health_check ord env) p =
     update_server (\<lambda>s. s\<lparr>srvFailover := checkUnhealthy L ord env (srvFailover s)\<rparr>) p"
| "program_step L (Qps_tick now) p = update_server (\<lambda>s. s\<lparr>srvMetrics := trackQPS_tick now (srvMetrics s)\<rparr>) p"
| "program_step L (Lists_loaded w) p = update_server (\<lambda>s. s\<lparr>srvFilter := LoadBlocklists w (srvFilter s)\<rparr>) p"
| "program_step L (Update_tick w) p = update_server (\<lambda>s. s\<lparr>srvFilter := autoUpdate_tick w (srvFilter s)\<rparr>) p"
| "program_step L (Prefetch_tick env) p =
     update_server (\<lambda>s. s\<lparr>srvResolver := PrefetchPopular env (srvResolver s)\<rparr>) p"
| "program_step L (Prefetch_run env i) p = update_server (run_prefetch L env i) p"
| "program_step L (Warm_up envs) p = update_server (\<lambda>s. snd (warmupCache L envs s)) p"

text \<open>A run: the outcome of every event, and the state at the end.\<close>

fun run_program :: "dns_lib \<Rightarrow> program_event list \<Rightarrow> program \<Rightarrow> (outcome list \<times> program) option" where
  "run_program L [] p = Some ([], p)"
| "run_program L (e # es) p =
     (case program_step L e p of
        None \<Rightarrow> None
      | Some (out, p) \<Rightarrow> map_option (\<lambda>(outs, p). (out # outs, p)) (run_program L es p))"

end
