(* ===== verification/ProgramCorrect.thy ===== *)
theory ProgramCorrect
  imports Program AdminCorrect
begin

text \<open>
  The whole program: whatever happens in whatever order, DNS queries, HTTP requests and background
  tasks, everything is answered and every table stays within its bounds. And what an administrator
  can rely on across restarts.
\<close>

section \<open>The invariant of the program\<close>

definition program_ok :: "dns_lib \<Rightarrow> program \<Rightarrow> bool" where
  "program_ok L p \<longleftrightarrow> server_ok (prServer p) \<and> local_ok L (srvLocal (prServer p))
     \<and> (\<forall>d. prDb p = Some d \<longrightarrow> db_ok d)"

text \<open>What the events bring: enumerations, clocks that do not run backwards, sane queries.\<close>

definition event_ok :: "program_event \<Rightarrow> bool" where
  "event_ok e \<longleftrightarrow>
     (case e of
        Dns q \<Rightarrow> query_ok q
      | Http env fs r \<Rightarrow> enumerates (he_order env)
      | Prefetch_run env i \<Rightarrow> env_ok env
      | Warm_up envs \<Rightarrow> \<forall>i. env_ok (envs i)
      | _ \<Rightarrow> True)"

lemma dashboard_of_fields [simp]:
  "dMetrics (dashboard_of p) = srvMetrics (prServer p)" "dFilter (dashboard_of p) = Some (srvFilter (prServer p))"
  "dLocal (dashboard_of p) = Some (srvLocal (prServer p))" "dClients (dashboard_of p) = srvClients (prServer p)"
  "dFailover (dashboard_of p) = Some (srvFailover (prServer p))" "dLimiter (dashboard_of p) = srvLimiter (prServer p)"
  "dDb (dashboard_of p) = prDb p" "dAuth (dashboard_of p) = cfgDashboardAuth (srvCfg (prServer p))"
  by (simp_all add: dashboard_of_def New_dashboard_def Let_def SetFilter_def SetLocalRecords_def SetClientStats_def
      SetFailover_def SetAuth_def SetLimiter_def SetDatabase_def split: option.split)

lemma absorb_ok:
  assumes "program_ok L p" and "dashboard_ok L d" and "same_view (dashboard_of p) d"
  shows "program_ok L (absorb p d)"
  using assms
  by (auto simp: program_ok_def server_ok_def absorb_def dashboard_ok_def good_filter_def same_view_def Let_def
      split: option.split)

lemma dashboard_of_ok: "program_ok L p \<Longrightarrow> dashboard_ok L (dashboard_of p)"
  by (simp add: program_ok_def server_ok_def dashboard_ok_def good_filter_def)

lemma http_step_ok:
  assumes "program_ok L p" and "names_ok L" and "types_ok L" and "enumerates (he_order env)"
  obtains w p' where "http_step L (callbacks p env) fs r p = Some (w, p')" and "program_ok L p'"
    and "srvCfg (prServer p') = srvCfg (prServer p)"
proof -
  have o: "enumerates (he_order (callbacks p env))" using assms(4) by (simp add: callbacks_def)
  have "request_ok L (callbacks p env) (dashboard_of p)"
    using assms(2,3) o dashboard_of_ok [OF assms(1)] by (simp add: request_ok_def)
  then obtain w d where d: "serve_http L (callbacks p env) fs r (dashboard_of p) = Some (w, d)"
    "dashboard_ok L d" "same_view (dashboard_of p) d"
    using serve_http_kept by blast
  then have "http_step L (callbacks p env) fs r p = Some (w, absorb p d)" by (simp add: http_step_def)
  moreover have "srvCfg (prServer (absorb p d)) = srvCfg (prServer p)" by (simp add: absorb_def Let_def)
  ultimately show thesis using that absorb_ok [OF assms(1) d(2,3)] by blast
qed

section \<open>The background tasks\<close>

text \<open>A task keeps the invariant and the configuration.\<close>

definition task_ok :: "dns_lib \<Rightarrow> (server \<Rightarrow> server) \<Rightarrow> bool" where
  "task_ok L f \<longleftrightarrow> (\<forall>p. program_ok L p \<longrightarrow>
     program_ok L (p\<lparr>prServer := f (prServer p)\<rparr>) \<and> srvCfg (f (prServer p)) = srvCfg (prServer p))"

lemma filter_task_ok:
  assumes "\<And>f. good_filter f \<Longrightarrow> good_filter (g f)"
  shows "task_ok L (\<lambda>s. s\<lparr>srvFilter := g (srvFilter s)\<rparr>)"
  using assms by (auto simp: task_ok_def program_ok_def server_ok_def good_filter_def)

lemma resolver_task_ok:
  assumes "\<And>s n. cache_inv (rcache (srvResolver s)) \<Longrightarrow> maxSize (rcache (srvResolver s)) = n \<Longrightarrow>
      cache_inv (rcache (g s)) \<and> maxSize (rcache (g s)) = n"
  shows "task_ok L (\<lambda>s. s\<lparr>srvResolver := g s\<rparr>)"
  using assms by (auto simp: task_ok_def program_ok_def server_ok_def)

lemma prefetch_sized:
  assumes "sized_ok env n st"
  shows "sized_ok env n (prefetch L env cfg name t q st)"
  by (rule sized.prefetch_inv [OF assms sized.resolveIterative_ok(1) [OF assms]])

lemma run_prefetch_ok:
  assumes "env_ok env"
  shows "task_ok L (run_prefetch L env i)"
proof -
  have "sized_ok env n (prefetch L env cfg name t q (st\<lparr>prefetches := ps\<rparr>))"
    if "cache_inv (rcache st)" "maxSize (rcache st) = n" for st n cfg name t q ps
    using that assms by (intro prefetch_sized) (simp add: sized_ok_def state_ok_def)
  then show ?thesis
    by (auto simp: task_ok_def program_ok_def server_ok_def run_prefetch_def Let_def sized_ok_def state_ok_def
        split: prod.split)
qed

lemma warmup_sized:
  assumes "\<forall>i. env_ok (envs i)" and "cache_inv (rcache st)" and "maxSize (rcache st) = n"
  shows "cache_inv (rcache (snd (warmup L envs cfg ds i k st))) \<and> maxSize (rcache (snd (warmup L envs cfg ds i k st))) = n"
  using assms
proof (induction L envs cfg ds i k st rule: warmup.induct)
  case (2 L envs cfg d ds i k st)
  have r: "cache_inv (rcache (snd (Resolve L (envs j) cfg d t q st))) \<and> maxSize (rcache (snd (Resolve L (envs j) cfg d t q st))) = n"
    if "cache_inv (rcache st)" "maxSize (rcache st) = n" for j t q st
  proof -
    have "sized_ok (envs j) n st" using that 2(2) by (simp add: sized_ok_def state_ok_def)
    then have "sized_ok (envs j) n (snd (Resolve L (envs j) cfg d t q st))"
      by (rule sized.Resolve_inv) (simp add: sized_ok_def state_ok_def)
    then show ?thesis by (simp add: sized_ok_def state_ok_def)
  qed
  obtain m c e st1 where 1: "Resolve L (envs i) cfg d TypeA ClassINET st = ((m, c, e), st1)"
    by (metis prod.collapse)
  obtain r2 st2 where r2: "Resolve L (envs (Suc i)) cfg d TypeAAAA ClassINET st1 = (r2, st2)" by fastforce
  have i1: "cache_inv (rcache st1)" "maxSize (rcache st1) = n"
    using r [OF 2(3,4), of i TypeA ClassINET] 1 by simp_all
  have i2: "cache_inv (rcache st2)" "maxSize (rcache st2) = n"
    using r [OF i1, of "Suc i" TypeAAAA ClassINET] r2 by simp_all
  show ?case using 2(1) [OF 1 [symmetric] refl refl refl refl r2 [symmetric] refl 2(2) i2] 1 r2 by (simp add: Let_def)
qed simp


section \<open>Every step\<close>

lemma warmupCache_task: "\<forall>i. env_ok (envs i) \<Longrightarrow> task_ok L (\<lambda>s. snd (warmupCache L envs s))"
  using warmup_sized [of envs]
  by (auto simp: task_ok_def program_ok_def server_ok_def warmupCache_def split: prod.split)
    (metis snd_conv)+

lemma quiet_task_ok:
  "task_ok L (\<lambda>s. s\<lparr>srvLimiter := g (srvLimiter s)\<rparr>)" "task_ok L (\<lambda>s. s\<lparr>srvFailover := h (srvFailover s)\<rparr>)"
  "task_ok L (\<lambda>s. s\<lparr>srvMetrics := trackQPS_tick now (srvMetrics s)\<rparr>)"
  by (auto simp: task_ok_def program_ok_def server_ok_def metrics_ok_def qps_history_bounded)
    (simp_all add: trackQPS_tick_def Let_def table_ok_def counters_ok_def ring_ok_def)

lemma update_server_ok:
  assumes "task_ok L f" and "program_ok L p"
  shows "\<exists>out p'. update_server f p = Some (out, p') \<and> program_ok L p' \<and> srvCfg (prServer p') = srvCfg (prServer p)"
  using assms by (simp add: update_server_def task_ok_def)

lemma program_step_ok:
  assumes "program_ok L p" and "event_ok e" and "names_ok L" and "types_ok L"
  shows "\<exists>out p'. program_step L e p = Some (out, p') \<and> program_ok L p' \<and> srvCfg (prServer p') = srvCfg (prServer p)"
proof -
  note task = update_server_ok [OF _ assms(1)]
  have load: "good_filter (LoadBlocklists w f)" "good_filter (autoUpdate_tick w f)" if "good_filter f" for w f
    using good_filter_step [OF assms(3) enumerates_sorted that, of "FilterCorrect.Load w"]
      good_filter_step [OF assms(3) enumerates_sorted that, of "Tick w"]
    by (simp_all add: filter_step_def)
  show ?thesis
  proof (cases e)
    case (Dns x)
    obtain env addr r where x: "x = (env, addr, r)" by (cases x)
    have s: "server_ok (prServer p)" using assms(1) by (simp add: program_ok_def)
    have q: "query_ok (env, addr, r)" using assms(2) Dns x by (simp add: event_ok_def)
    obtain m s' where h: "handleDNS L env addr r (prServer p) = Some (m, s')" "server_ok s'"
      using handleDNS_ok [OF s q assms(3)] by blast
    from handleDNS_handled [OF h(1)] have "srvCfg s' = srvCfg (prServer p)" "srvLocal s' = srvLocal (prServer p)"
      by (rule handled_cfg, rule handled_local)
    with h assms(1) Dns x show ?thesis by (simp add: program_ok_def)
  next
    case (Http env fs r)
    have o: "enumerates (he_order env)" using assms(2) Http by (simp add: event_ok_def)
    obtain w p' where "http_step L (callbacks p env) fs r p = Some (w, p')" "program_ok L p'"
      "srvCfg (prServer p') = srvCfg (prServer p)"
      using http_step_ok [OF assms(1,3,4) o] by blast
    with Http show ?thesis by simp
  next
    case (Cache_cleanup ord clk)
    show ?thesis unfolding Cache_cleanup program_step.simps
      by (rule task [OF resolver_task_ok]) (simp add: cleanup_inv cache_frame)
  next
    case (Prefetch_tick env)
    show ?thesis unfolding Prefetch_tick program_step.simps
      by (rule task [OF resolver_task_ok]) (simp add: PrefetchPopular_def tock_def)
  next
    case (Prefetch_run env i)
    then have "env_ok env" using assms(2) by (simp add: event_ok_def)
    from task [OF run_prefetch_ok [OF this]] Prefetch_run show ?thesis by simp
  next
    case (Warm_up envs)
    then have "\<forall>i. env_ok (envs i)" using assms(2) by (simp add: event_ok_def)
    from task [OF warmupCache_task [OF this]] Warm_up show ?thesis by simp
  next
    case (Lists_loaded w)
    with task [OF filter_task_ok [of "LoadBlocklists w"]] load(1) show ?thesis by simp
  next
    case (Update_tick w)
    with task [OF filter_task_ok [of "autoUpdate_tick w"]] load(2) show ?thesis by simp
  qed (simp_all add: task [OF quiet_task_ok(1)] task [OF quiet_task_ok(2)] task [OF quiet_task_ok(3)])
qed

lemma run_program_ok:
  assumes "program_ok L p" and "\<forall>e \<in> set es. event_ok e" and "names_ok L" and "types_ok L"
  shows "\<exists>outs p'. run_program L es p = Some (outs, p') \<and> length outs = length es \<and> program_ok L p'
    \<and> srvCfg (prServer p') = srvCfg (prServer p)"
  using assms(1,2)
proof (induction es arbitrary: p)
  case (Cons e es)
  have e: "event_ok e" using Cons.prems(2) by simp
  obtain out p1 where 1: "program_step L e p = Some (out, p1)" "program_ok L p1"
    "srvCfg (prServer p1) = srvCfg (prServer p)"
    using program_step_ok [OF Cons.prems(1) e assms(3,4)] by blast
  from Cons.IH [OF 1(2)] Cons.prems(2) obtain outs p' where
    "run_program L es p1 = Some (outs, p')" "length outs = length es" "program_ok L p'"
    "srvCfg (prServer p') = srvCfg (prServer p1)" by auto
  with 1 show ?case by simp
qed simp

section \<open>From the start on\<close>

lemma New_server_program_ok:
  assumes "1 \<le> ccMaxSize (cfgCache cfg)" and "names_ok L" and "types_ok L" and "db_ok (files (db_path cfg))"
  shows "program_ok L (New_server L env files cfg)"
proof -
  have "prDb (New_server L env files cfg) = Some d \<Longrightarrow> Open (ne_open env) (files (db_path cfg)) = Inr d" for d
    by (auto simp: New_server_def Let_def split: sum.splits)
  then show ?thesis
    using New_server_ok [OF assms(1,2)] New_localrecords_ok [OF assms(3)] Open_kept(1) [OF assms(4)]
    by (auto simp: program_ok_def start_ignores_stored_upstreams_and_records)
qed

lemma Start_program_ok:
  assumes "program_ok L p" and "start_fair env" and "Start L env dsk p = (err, rs, p')"
  shows "program_ok L p' \<and> srvCfg (prServer p') = srvCfg (prServer p)"
proof -
  have "srvLocal (snd (restore_cache L env dsk s)) = srvLocal s" for s
    by (simp add: restore_cache_def split: prod.split)
  moreover have "p' = p\<lparr>prServer := snd (restore_cache L env dsk (prServer p))\<rparr>"
    using assms(3) by (auto simp: Start_def Let_def split: prod.splits)
  ultimately show ?thesis
    using Start_ok [OF _ assms(2,3)] assms(1) by (simp add: program_ok_def)
qed

text \<open>
  C1: whatever the program meets after it was made and started from any configuration with room in
  the cache, any database it wrote and any cache file, queries, HTTP requests and background tasks in
  any order, every one of them is answered or done (none panics), and at the end no table exceeds its
  limit: the cache, the blocked names, the counted domains, the query log, the QPS history and the
  clients; and the database satisfies its schema.
\<close>
theorem program_runs_keep_invariant:
  assumes "1 \<le> ccMaxSize (cfgCache cfg)" and "names_ok L" and "types_ok L" and "db_ok (files (db_path cfg))"
    and "start_fair senv" and "Start L senv dsk (New_server L nenv files cfg) = (err, rs, p)"
    and "\<forall>e \<in> set es. event_ok e"
  shows "\<exists>outs p'. run_program L es p = Some (outs, p') \<and> length outs = length es
    \<and> int (mlen (entries (rcache (srvResolver (prServer p'))))) \<le> ccMaxSize (cfgCache cfg)
    \<and> mlen (blockedCounts (srvFilter (prServer p'))) \<le> 10000
    \<and> mlen (domainCounts (srvMetrics (prServer p'))) \<le> 10000
    \<and> length (GetAllQueryLogs (srvMetrics (prServer p'))) \<le> 500
    \<and> length (qpsHistory (srvMetrics (prServer p'))) \<le> max_qps_points
    \<and> (\<forall>t. srvClients (prServer p') = Some t \<longrightarrow> int (mlen (clients t)) \<le> client_limit cfg)
    \<and> (\<forall>d. prDb p' = Some d \<longrightarrow> db_ok d)"
proof -
  have c: "srvCfg (prServer (New_server L nenv files cfg)) = cfg" by (simp add: New_server_def Let_def)
  have "program_ok L (New_server L nenv files cfg)"
    using assms(1-4) by (intro New_server_program_ok) simp_all
  from Start_program_ok [OF this assms(5,6)] c have p: "program_ok L p" "srvCfg (prServer p) = cfg" by simp_all
  obtain outs p' where r: "run_program L es p = Some (outs, p')" "length outs = length es" "program_ok L p'"
    "srvCfg (prServer p') = srvCfg (prServer p)"
    using run_program_ok [OF p(1) assms(7,2,3)] by blast
  have s: "server_ok (prServer p')" using r(3) by (simp add: program_ok_def)
  have "0 \<le> client_limit cfg" by (simp add: client_limit_def Let_def)
  then have "int (mlen (clients t)) \<le> client_limit cfg" if "srvClients (prServer p') = Some t" for t
    using s that r(4) p(2) by (simp add: server_ok_def clients_ok_def le_nat_iff)
  moreover have "length (GetAllQueryLogs (srvMetrics (prServer p'))) \<le> 500"
    using s by (simp add: server_ok_def metrics_ok_def GetAllQueryLogs_length)
      (simp add: ring_ok_def nat_le_iff)
  ultimately show ?thesis
    using r s p(2) by (intro exI [of _ outs] exI [of _ p'])
      (simp add: program_ok_def server_ok_def cache_inv_def metrics_ok_def max_blocked_counts_def)
qed

text \<open>Three queries that the resolver answers, a login attempt and a tick of the QPS counter.\<close>

theorem program_runs_keep_invariant_witness:
  "\<exists>outs p'. run_program sample_lib
       (replicate 3 (Dns (plain_env (None, Some ''timeout'') dead_env, UDPAddr [192, 0, 2, 1], ask_example))
         @ [Http plain_http no_files (post ''/api/admin/whitelist'' None []), Qps_tick 0])
       (snd (snd (Start sample_lib fine_start fmempty (New_server sample_lib fine_new (\<lambda>path. empty_file) DefaultConfig))))
     = Some (outs, p') \<and> length outs = 5
     \<and> int (mlen (entries (rcache (srvResolver (prServer p'))))) \<le> 500000"
proof -
  let ?es = "replicate 3 (Dns (plain_env (None, Some ''timeout'') dead_env, UDPAddr [192, 0, 2, 1], ask_example))
         @ [Http plain_http no_files (post ''/api/admin/whitelist'' None []), Qps_tick 0]"
  let ?p = "New_server sample_lib fine_new (\<lambda>path. empty_file) DefaultConfig"
  have n: "ccMaxSize (cfgCache DefaultConfig) = 500000" by (simp add: DefaultConfig_def)
  then have one: "1 \<le> ccMaxSize (cfgCache DefaultConfig)" by simp
  have f: "start_fair fine_start" by (simp add: start_fair_def fine_start_def)
  obtain err rs p where s: "Start sample_lib fine_start fmempty ?p = (err, rs, p)" by (metis prod.collapse)
  have es: "\<forall>e \<in> set ?es. event_ok e" by (auto simp: event_ok_def ask_example_ok plain_http_def)
  from program_runs_keep_invariant [where files = "\<lambda>path. empty_file",
      OF one sample_lib_names sample_lib_types empty_file_ok f s es] n s
  show ?thesis by auto
qed

end
