(* ===== verification/AdminRestart.thy ===== *)
theory AdminRestart
  imports ProgramCorrect
begin

text \<open>
  What an administrator can rely on: a name whitelisted through the admin API stays unblocked while
  the server answers queries and does its background work, and after a restart; the cache comes back
  after a restart; and what deleting entries leaves behind.
\<close>

section \<open>Between requests\<close>

text \<open>Queries and background tasks leave the manual lists and the database alone.\<close>

lemma IsBlocked_whitelist [simp]: "whitelist (snd (IsBlocked L ord n f)) = whitelist f"
  by (simp add: IsBlocked_def Let_def recordBlocked_def)

lemma filtered_whitelist [simp]: "whitelist (srvFilter (filtered L env addr q s)) = whitelist (srvFilter s)"
  by (simp add: filtered_def)

lemma handled_whitelist: "handled L env addr r s m s' \<Longrightarrow> whitelist (srvFilter s') = whitelist (srvFilter s)"
proof (induction rule: handled.induct)
  case (failed q qs mo cached e s')
  then show ?case using resolve_query_frame(4) [of L env q "filtered L env addr q s"] by simp
next
  case (resolved q qs x cached s' m)
  then show ?case using resolve_query_frame(4) [of L env q "filtered L env addr q s"] by simp
qed simp_all

definition is_http :: "program_event \<Rightarrow> bool" where
  "is_http e \<longleftrightarrow> (\<exists>env fs r. e = Http env fs r)"

lemma background_frame [simp]:
  "srvFilter (run_prefetch L env i s) = srvFilter s" "srvFilter (snd (warmupCache L envs s)) = srvFilter s"
  "whitelist (LoadBlocklists w f) = whitelist f" "whitelist (autoUpdate_tick w f) = whitelist f"
  by (simp_all add: run_prefetch_def warmupCache_def LoadBlocklists_def autoUpdate_tick_def Let_def
      split: prod.split)

lemma update_server_SomeD:
  "update_server g p = Some (out, p') \<Longrightarrow> p' = p\<lparr>prServer := g (prServer p)\<rparr>"
  by (simp add: update_server_def)

lemma program_step_whitelist:
  assumes "program_step L e p = Some (out, p')" and "\<not> is_http e"
  shows "prDb p' = prDb p" and "whitelist (srvFilter (prServer p')) = whitelist (srvFilter (prServer p))"
proof -
  have "prDb p' = prDb p \<and> whitelist (srvFilter (prServer p')) = whitelist (srvFilter (prServer p))"
  proof (cases e)
    case (Dns x)
    obtain env addr r where x: "x = (env, addr, r)" by (cases x)
    obtain m s' where h: "handleDNS L env addr r (prServer p) = Some (m, s')" "p' = p\<lparr>prServer := s'\<rparr>"
      using assms(1) unfolding Dns x program_step.simps by (auto split: option.splits)
    from handled_whitelist [OF handleDNS_handled [OF h(1)]] h(2) show ?thesis by simp
  next
    case (Http env fs r)
    with assms(2) show ?thesis by (auto simp: is_http_def)
  qed (use assms(1) in \<open>auto dest!: update_server_SomeD\<close>)
  then show "prDb p' = prDb p" and "whitelist (srvFilter (prServer p')) = whitelist (srvFilter (prServer p))"
    by simp_all
qed

lemma run_program_whitelist:
  assumes "run_program L es p = Some (outs, p')" and "\<forall>e \<in> set es. \<not> is_http e"
  shows "prDb p' = prDb p \<and> whitelist (srvFilter (prServer p')) = whitelist (srvFilter (prServer p))"
  using assms
proof (induction es arbitrary: p outs)
  case (Cons e es)
  then obtain out p1 outs1 where 1: "program_step L e p = Some (out, p1)" "run_program L es p1 = Some (outs1, p')"
    by (auto split: option.splits)
  with Cons.IH [OF 1(2)] program_step_whitelist [OF 1(1)] Cons.prems(2) show ?case by simp
qed simp

section \<open>Opening keeps the lists\<close>

lemma insert_defaults_whitelist: "tWhitelist (insert_defaults sts i ks d) = tWhitelist d"
proof (induction sts i ks d rule: insert_defaults.induct)
  case (2 sts i k ks d)
  have "tWhitelist (insert_default (sts i) k v d) = tWhitelist d" for v
    by (simp add: insert_default_def Exec_def insert_setting_def split: option.split)
  with 2 show ?case by (simp split: option.split)
qed simp

lemma insert_upstreams_whitelist: "tWhitelist (insert_upstreams sts i j us d) = tWhitelist d"
proof (induction sts i j us d rule: insert_upstreams.induct)
  case (2 sts i p us uss d)
  have "tWhitelist (snd (AddFailoverUpstream (sts i) us p d)) = tWhitelist d"
    by (auto simp: AddFailoverUpstream_def LastInsertId_def Exec_def split: option.split prod.split)
  with 2 show ?case by simp
qed simp

lemma Open_whitelist: "Open env f = Inr d \<Longrightarrow> tWhitelist d = tWhitelist f"
  by (drule Open_SomeD)
    (simp add: initDefaults_def insert_defaults_whitelist insert_upstreams_whitelist Let_def connect_def)

section \<open>Adding\<close>

lemma whitelisted_unblocked:
  "canon L n |\<in>| whitelist f \<Longrightarrow> \<not> fst (IsBlocked L ord n f)"
  by (simp add: IsBlocked_def canon_def Let_def)

lemma route_whitelist: "route ''/api/admin/whitelist'' = Whitelist_ep"
  by (simp add: route_def patterns_def)

text \<open>A request that the multiplexer and the authentication let through.\<close>

lemma serve_through:
  assumes "mux_redirect r = None" and "\<not> daEnabled (dAuth d) \<or> authorized (dAuth d) r"
  shows "serve_http L env fs r d = handle L env fs (route (rqPath r)) r d"
  using assms by (auto simp: serve_http_def basicAuth_def Let_def)

lemma whitelist_path: "rqPath r = ''/api/admin/whitelist'' \<Longrightarrow> mux_redirect r = None"
proof -
  have "cleanPath ''/api/admin/whitelist'' = ''/api/admin/whitelist''" by code_simp
  then show "rqPath r = ''/api/admin/whitelist'' \<Longrightarrow> mux_redirect r = None" by (simp add: mux_redirect_def)
qed

lemma whitelist_added:
  assumes "rqPath r = ''/api/admin/whitelist''" and "rqMethod r = ''POST''"
    and "\<not> daEnabled (cfgDashboardAuth (srvCfg (prServer p))) \<or> authorized (cfgDashboardAuth (srvCfg (prServer p))) r"
    and "decode (he_type_error env) [''domain'', ''note''] r = Inr b" and "fDomain b \<noteq> []"
    and "prDb p = Some d" and "st_fail (he_stmts env 0) = None" and "http_step L env fs r p = Some (w, p1)"
  shows "rsStatus w = 200" and "canon L (fDomain b) |\<in>| whitelist (srvFilter (prServer p1))"
    and "\<exists>d1. prDb p1 = Some d1 \<and> fDomain b \<in> deDomain ` set (trows (tWhitelist d1))"
proof -
  obtain w' d' where h: "handleAdminList whitelist_ops L env r (dashboard_of p) = (w', d')" by fastforce
  have "http_step L env fs r p = map_option (\<lambda>(w, d). (w, absorb p d))
      (handle L env fs Whitelist_ep r (dashboard_of p))"
    using assms(1,3) by (simp add: http_step_def serve_through whitelist_path route_whitelist)
  with assms(8) h have p1: "w = w'" "p1 = absorb p d'" by (simp_all add: handleAdminWhitelist_def)
  have "dDb (dashboard_of p) = Some d" using assms(6) by simp
  from white.added [OF assms(2,4,5) this _ assms(7) h]
  show "rsStatus w = 200" and "canon L (fDomain b) |\<in>| whitelist (srvFilter (prServer p1))"
    and "\<exists>d1. prDb p1 = Some d1 \<and> fDomain b \<in> deDomain ` set (trows (tWhitelist d1))"
    by (auto simp: p1 absorb_def Let_def)
qed

section \<open>Across a restart\<close>

text \<open>
  C37: a name that is whitelisted by a \<^verbatim>\<open>POST\<close> to the admin API, accepted with status 200, is not
  blocked in any spelling: not after any queries and background work that follow, and not by the
  server made after a shutdown from the same database, whatever lists are loaded.
\<close>
theorem whitelisted_name_stays_unblocked:
  assumes "rqPath r = ''/api/admin/whitelist''" and "rqMethod r = ''POST''"
    and "\<not> daEnabled (cfgDashboardAuth (srvCfg (prServer p))) \<or> authorized (cfgDashboardAuth (srvCfg (prServer p))) r"
    and "decode (he_type_error env) [''domain'', ''note''] r = Inr b" and "fDomain b \<noteq> []"
    and "prDb p = Some d" and "st_fail (he_stmts env 0) = None"
    and "http_step L env fs r p = Some (w, p1)"
    and "\<forall>e \<in> set es. \<not> is_http e" and "run_program L es p1 = Some (outs, p2)"
    and "Shutdown L denv now ord clk p2 = (steps, Some (files (db_path cfg)))"
    and "Open (ne_open nenv) (files (db_path cfg)) = Inr d'" and "complete (ne_white nenv)"
    and "canon L n = canon L (fDomain b)"
  shows "rsStatus w = 200 \<and> \<not> fst (IsBlocked L ord2 n (srvFilter (prServer p2)))
    \<and> \<not> fst (IsBlocked L ord3 n (srvFilter (prServer (New_server L nenv files cfg))))"
proof -
  note added = whitelist_added [OF assms(1-8)]
  have kept: "prDb p2 = prDb p1" "whitelist (srvFilter (prServer p2)) = whitelist (srvFilter (prServer p1))"
    using run_program_whitelist [OF assms(10,9)] by simp_all
  obtain d1 where d1: "prDb p1 = Some d1" "fDomain b \<in> deDomain ` set (trows (tWhitelist d1))"
    using added(3) by blast
  have "files (db_path cfg) = Close d1" using assms(11) d1(1) kept(1) by (simp add: Shutdown_def Let_def)
  with Open_whitelist [OF assms(12)] d1(2) have "fDomain b \<in> deDomain ` set (trows (tWhitelist d'))" by simp
  then have "canon L (fDomain b) |\<in>| whitelist (srvFilter (prServer (New_server L nenv files cfg)))"
    using stored_whitelist [where files = files and cfg = cfg, OF assms(12,13)] by auto
  then show ?thesis
    using added(1,2) kept(2) assms(14) by (simp add: whitelisted_unblocked)
qed

text \<open>The administrator of \<open>fine_new\<close>'s server whitelists a name.\<close>

definition fresh_program :: program where
  "fresh_program = New_server sample_lib fine_new (\<lambda>path. empty_file) DefaultConfig"

theorem whitelisted_name_stays_unblocked_witness:
  "\<exists>w p1 steps kept_file. http_step sample_lib plain_http no_files
       (post ''/api/admin/whitelist'' (Some (''admin'', ''admin'')) [(''domain'', JStr ''Ads.Example'')]) fresh_program
     = Some (w, p1) \<and> Shutdown sample_lib fine_disk 0 sorted_list_of_fset (\<lambda>i. 0) p1 = (steps, Some kept_file)
     \<and> \<not> fst (IsBlocked sample_lib sorted_list_of_fset ''ads.example.'' (srvFilter (prServer
          (New_server sample_lib fine_new (\<lambda>path. kept_file) DefaultConfig))))"
proof -
  let ?r = "post ''/api/admin/whitelist'' (Some (''admin'', ''admin'')) [(''domain'', JStr ''Ads.Example'')]"
  have m: "rqPath ?r = ''/api/admin/whitelist''" "rqMethod ?r = ''POST''" by (simp_all add: post_def)
  have a: "\<not> daEnabled (cfgDashboardAuth (srvCfg (prServer fresh_program)))
      \<or> authorized (cfgDashboardAuth (srvCfg (prServer fresh_program))) ?r"
    by (simp add: fresh_program_def New_server_def Let_def DefaultConfig_def authorized_def post_def)
  have b: "decode (he_type_error plain_http) [''domain'', ''note''] ?r = Inr (zero_fields\<lparr>fDomain := ''Ads.Example''\<rparr>)"
    unfolding post_def plain_http_def by code_simp
  have p: "program_ok sample_lib fresh_program"
    unfolding fresh_program_def by (rule New_server_program_ok) (simp_all add: DefaultConfig_def)
  obtain d where d: "prDb fresh_program = Some d" by (simp add: fresh_program_def New_server_def Let_def fine_new_def fine_Open)
  have o: "enumerates (he_order plain_http)" by (simp add: plain_http_def)
  obtain w p1 where s: "http_step sample_lib plain_http no_files ?r fresh_program = Some (w, p1)"
    using serve_http_kept [of sample_lib plain_http "dashboard_of fresh_program" no_files ?r] p o
    by (auto simp: request_ok_def dashboard_of_ok http_step_def)
  have f: "fDomain (zero_fields\<lparr>fDomain := ''Ads.Example''\<rparr>) \<noteq> []" "st_fail (he_stmts plain_http 0) = None"
    by (simp_all add: plain_http_def fine_def)
  have db: "prDb p1 \<noteq> None" using whitelist_added(3) [OF m a b f(1) d f(2) s] by auto
  obtain steps kept_file where sd: "Shutdown sample_lib fine_disk 0 sorted_list_of_fset (\<lambda>i. 0) p1 = (steps, Some kept_file)"
    using db by (auto simp: Shutdown_def Let_def)
  obtain d' where op: "Open (ne_open fine_new) kept_file = Inr d'" by (simp add: fine_new_def fine_Open)
  have c: "complete (ne_white fine_new)" by (simp add: fine_new_def)
  have n: "canon sample_lib ''ads.example.'' = canon sample_lib (fDomain (zero_fields\<lparr>fDomain := ''Ads.Example''\<rparr>))"
    by code_simp
  have "\<not> fst (IsBlocked sample_lib sorted_list_of_fset ''ads.example.'' (srvFilter (prServer
          (New_server sample_lib fine_new (\<lambda>path. kept_file) DefaultConfig))))"
    using whitelisted_name_stays_unblocked [where es = "[]" and files = "\<lambda>path. kept_file" and cfg = DefaultConfig,
      OF m a b f(1) d f(2) s _ _ sd op c n] by simp
  with s sd show ?thesis by blast
qed

section \<open>The cache across a restart\<close>

lemma export_from_length:
  "length (export_from L clk limit i es acc) \<le> length acc + length es"
  by (induction L clk limit i es acc rule: export_from.induct) (auto simp: Let_def split: option.split)

lemma GetEntries_length:
  assumes "enumerates ord"
  shows "length (GetEntries L ord clk c) \<le> mlen (entries c)"
proof -
  have "length (List.map_filter f xs) \<le> length xs" for f :: "string \<Rightarrow> entry option" and xs
    by (simp add: List.map_filter_def)
  moreover have "length (ord F) = fcard F" for F
    using assms distinct_card [of "ord F"] by (simp add: enumerates_def fcard.rep_eq)
  ultimately have "length (entries_in_order ord c) \<le> mlen (entries c)"
    unfolding entries_in_order_def by (metis (no_types))
  then show ?thesis
    using export_from_length [of L clk export_limit 1 "entries_in_order ord c" "[]"]
    by (simp add: GetEntries_def ExportEntries_def)
qed


text \<open>A server with one answer in its cache.\<close>

definition warm_program :: program where
  "warm_program = \<lparr>prServer = (prServer fresh_program)\<lparr>srvResolver := \<lparr>rcache = cached_a, tick = 0, prefetches = []\<rparr>\<rparr>,
     prDb = None\<rparr>"

lemma exported_sorted:
  "GetEntries wire_lib sorted_list_of_fset (\<lambda>_. 5) cached_a = [sample_saved\<lparr>ceMsgBytes := [1]\<rparr>]"
proof -
  have "entries_in_order sorted_list_of_fset cached_a = entries_in_order (\<lambda>_. [''a./A/IN'']) cached_a"
    by (simp add: entries_in_order_def cached_a_def New_cache_def sorted_list_of_fset.rep_eq List.map_filter_def)
  then show ?thesis using exported_a by (simp add: GetEntries_def ExportEntries_def)
qed


section \<open>Deleting\<close>

text \<open>
  Deleting or switching off a local record leaves the running records alone. (What deleting an entry
  of a list by its number leaves behind is a lemma of the interface of the lists.)
\<close>

lemma stored_changes_leave_local_records:
  "rqMethod r = ''DELETE'' \<Longrightarrow> dLocal (snd (handleAdminLocalRecords L env r d)) = dLocal d"
  "dLocal (snd (handleAdminLocalRecordToggle env r d)) = dLocal d"
  by (simp_all add: handleAdminLocalRecords_def handleAdminLocalRecordToggle_def handleToggle_def with_database_def
      split: option.split sum.split)

end
