(* ===== verification/Spec2Isabelle.thy ===== *)
theory Spec2Isabelle
  imports CacheCorrect RateLimit FilterCorrect LocalRecords Failover ResolverCorrect ClientStats Ecs
    MetricsCorrect Persistence Inflight Config Service ServerCorrect DatabaseCorrect StartCorrect
    AdminCorrect ProgramCorrect AdminRestart
begin

text \<open>
  A verification library for \<^verbatim>\<open>dns-server-mandiri\<close>, a recursive DNS server in Go with a cache, a rate
  limiter, an advertisement filter, local records, upstream fall-back, statistics, a web dashboard with
  an admin API and a SQLite store.

  \<^bold>\<open>The parts and how they act together.\<close> \<^verbatim>\<open>server.New\<close> makes the components from a configuration and
  loads the filter's lists from the database; \<^verbatim>\<open>Start\<close> restores the cache and starts the DNS listeners,
  the dashboard and the background tasks. A query (\<^verbatim>\<open>handleDNS\<close>) passes the rate limiter, the filter,
  the local records, the resolver with the cache in front, and the upstreams, and every outcome is
  accounted for in the metrics and the client statistics. HTTP requests read the same components, and
  some change them or the database. The theories follow this structure:

  \<^item> \<open>Prelude\<close>, \<open>GoStrings\<close>, \<open>GoNet\<close>, \<open>Http\<close>: what the program uses of Go and its standard library: machine
    words, clocks, map iteration, strings, addresses, HTTP requests and JSON bodies. \<open>Prelude\<close> has the
    locale \<open>bounded_table\<close>, the contract of a table that makes room before it grows.
  \<^item> \<open>DnsMsg\<close>: messages, and the functions of \<^verbatim>\<open>github.com/miekg/dns\<close> as the argument \<open>L :: dns_lib\<close>; what is
    relied on (\<open>names_ok\<close>, \<open>types_ok\<close>) is documented behaviour, and \<open>sample_lib\<close> has it.
  \<^item> \<open>Cache\<close>, \<open>CacheCorrect\<close>: \<^verbatim>\<open>internal/cache\<close>. \<open>RateLimit\<close>: \<^verbatim>\<open>internal/ratelimit\<close>. \<open>BlockFilter\<close>,
    \<open>FilterCorrect\<close>: \<^verbatim>\<open>internal/filter\<close>. \<open>LocalRecords\<close>, \<open>Failover\<close>, \<open>ClientStats\<close>, \<open>Ecs\<close>: the packages
    of these names. \<open>Metrics\<close>, \<open>MetricsCorrect\<close>: \<^verbatim>\<open>internal/metrics\<close>. \<open>Persistence\<close>:
    \<^verbatim>\<open>internal/persistence\<close>.
  \<^item> \<open>Resolver\<close>, \<open>ResolverCorrect\<close>: \<^verbatim>\<open>internal/resolver\<close>, one call at a time; \<open>Inflight\<close>: concurrent calls
    of \<^verbatim>\<open>Resolve\<close> that ask the same question, as a step relation.
  \<^item> \<open>Config\<close>: \<^verbatim>\<open>internal/config\<close> and the two \<^verbatim>\<open>main\<close> programs; \<open>Service\<close>: the Windows service.
  \<^item> \<open>Server\<close>, \<open>ServerCorrect\<close>: \<^verbatim>\<open>handleDNS\<close>; \<open>ServerStart\<close>: \<^verbatim>\<open>New\<close>, \<^verbatim>\<open>Start\<close>, \<^verbatim>\<open>Shutdown\<close>;
    \<open>ServerRuns\<close>: the invariant of the server and of sequences of queries; \<open>StartCorrect\<close>: which stored
    data a start takes over.
  \<^item> \<open>Database\<close>, \<open>DatabaseCorrect\<close>: \<^verbatim>\<open>internal/database\<close>, every SQL statement as the operation on tables
    it denotes.
  \<^item> \<open>Dashboard\<close>, \<open>AdminApi\<close>, \<open>AdminCorrect\<close>: \<^verbatim>\<open>internal/dashboard\<close>, the handlers, authentication and
    routing.
  \<^item> \<open>Program\<close>, \<open>ProgramCorrect\<close>, \<open>AdminRestart\<close>: the running program as steps over one shared state, one
    step per query, HTTP request or background task, and what holds of all runs and across restarts.

  \<^bold>\<open>How state and operations correspond.\<close> A Go structure is a \<open>record\<close> with its fields, a method a
  function from the state before to its results and the state after; a handler that may panic returns
  an \<open>option\<close>; an \<^verbatim>\<open>error\<close> result is a sum or an option of \<open>go_error\<close>. Maps are finite maps, and the
  order in which Go iterates over one is an argument \<open>ord\<close>, assumed to be an enumeration of the keys.
  Readings of the clock, answers of the network, downloads, files, SQLite's choices and failures are
  arguments as well (\<open>clock\<close>, \<open>resolver_env\<close>, \<open>upstream_env\<close>, \<open>filter_world\<close>, \<open>disk_env\<close>, \<open>stmt\<close>), so the
  theorems hold for whatever these deliver. Counters and TTLs are words of their width and wrap;
  \<^verbatim>\<open>float64\<close> values are exact rationals. A mutex makes an operation atomic, so an operation is one step; where the code
  holds no lock across a whole operation and it matters (\<^verbatim>\<open>Resolve\<close>, \<^verbatim>\<open>Save\<close>), the steps are explicit.

  \<^bold>\<open>What is shown.\<close> Component by component: the invariant and that every operation keeps it; the
  functional behaviour against a specification (\<open>should_block\<close> for the filter, the list of the last
  entries for the query log, the delegation tree for the resolver, the first ending input for the
  service); round trips (cache, hosts files, settings, saved caches, whitelisted names across a
  restart); bounds (tables, tokens, TTLs); atomicity of saving under crashes; single flight, agreement of the waiters and
  absence of deadlock; what errors lead to. For the whole: the theory \<open>ProgramCorrect\<close>
  says that a started program answers everything and keeps all tables bounded and the database's
  schema intact. The interfaces are locales (\<open>bounded_table\<close>, \<open>token_source\<close>, \<open>cache_store\<close>,
  \<open>resolver_state\<close>, \<open>resolver_callee\<close>, \<open>stored_list\<close>), each interpreted on the program's own definitions.

  \<^bold>\<open>Bounds and fuel.\<close> No definition uses fuel: loops are structural recursions over lists or over the
  number of retries that is left, and \<^verbatim>\<open>resolveIterative\<close> recurses on the depth, which \<^verbatim>\<open>MaxDepth\<close> bounds.
  \<open>handleDNS\<close> is \<open>None\<close> only for a nil dereference that needs a joined request to end with neither
  message nor error; \<open>joined_sane\<close> excludes it, as the theory \<open>Inflight\<close> allows: waiters get the outcome of the leading call, which
  is a message or an error.

  \<^bold>\<open>Not modelled.\<close> Logging and the texts printed by the command line programs; the listeners of the DNS library
  and \<^verbatim>\<open>http.ListenAndServe\<close>, which call the modelled handlers; the ticker goroutines, represented by
  the operation each tick performs, and the \<^verbatim>\<open>Stop\<close> methods that end them; the bytes of JSON, CSV, gob and SQL; the
  embedded web page and its file server; signal handlers, which only call \<^verbatim>\<open>Shutdown\<close>; rounding of
  \<^verbatim>\<open>float64\<close>; non-ASCII case mapping.
\<close>

end
